(* ===== verification/Prelude.thy ===== *)
theory Prelude
  imports Main "HOL-Library.Word"
begin

text \<open>
  Shared vocabulary of the development: the machine integers of the ESP32, the C and Arduino
  string operations the firmware calls (\<open>strchr\<close>, \<open>strncmp\<close>, \<open>atoi\<close>, \<open>strtoul\<close>, \<open>String::indexOf\<close>,
  \<open>String::substring\<close>, decimal printing), and the generic lemmas about them.

  A C string is the list of its characters before the terminating zero. A pointer into a
  string is the suffix that starts there, so pointer arithmetic is \<open>drop\<close>, \<open>tl\<close> and comparison of
  suffix lengths. On the ESP32 \<open>int\<close> and \<open>long\<close> are 32 bits wide.
\<close>

section \<open>Machine integers\<close>

type_synonym u8 = "8 word"
type_synonym u16 = "16 word"
type_synonym u32 = "32 word"
type_synonym u64 = "64 word"

named_theorems cstr_simps \<open>evaluation of the C string operations\<close>
named_theorems frame_simps \<open>fields an operation leaves alone\<close>
named_theorems inv_intros \<open>preservation of a component's invariant by its operations\<close>

section \<open>Searching\<close>

fun strchr :: "string \<Rightarrow> char \<Rightarrow> string option" where
  "strchr [] c = None"
| "strchr (x # xs) c = (if x = c then Some (x # xs) else strchr xs c)"

definition strncmp_eq :: "string \<Rightarrow> string \<Rightarrow> nat \<Rightarrow> bool" where
  "strncmp_eq s t n \<longleftrightarrow> take n s = take n t"

text \<open>The distance \<open>q - p\<close> of two pointers into the same string.\<close>

definition ptr_diff :: "string \<Rightarrow> string \<Rightarrow> nat" where
  "ptr_diff q p = length p - length q"

lemma strchr_None_iff: "strchr s c = None \<longleftrightarrow> c \<notin> set s"
  by (induction s) auto

lemma strchr_SomeD:
  "strchr s c = Some t \<Longrightarrow> \<exists>pre. s = pre @ t \<and> c \<notin> set pre \<and> t \<noteq> [] \<and> hd t = c"
proof (induction s)
  case Nil
  then show ?case by simp
next
  case (Cons x xs)
  show ?case
  proof (cases "x = c")
    case True
    with Cons.prems show ?thesis by auto
  next
    case False
    with Cons obtain pre where "xs = pre @ t \<and> c \<notin> set pre \<and> t \<noteq> [] \<and> hd t = c"
      by auto
    with False have "x # xs = (x # pre) @ t \<and> c \<notin> set (x # pre) \<and> t \<noteq> [] \<and> hd t = c"
      by simp
    then show ?thesis by blast
  qed
qed

lemma strchr_append: "c \<notin> set pre \<Longrightarrow> strchr (pre @ c # s) c = Some (c # s)"
  by (induction pre) auto

lemma strchr_append_notin: "c \<notin> set pre \<Longrightarrow> strchr (pre @ s) c = strchr s c"
  by (induction pre) auto

lemma strchr_length: "strchr s c = Some t \<Longrightarrow> length t \<le> length s \<and> 0 < length t"
  by (drule strchr_SomeD) auto

lemma strchr_tl_less: "strchr s c = Some t \<Longrightarrow> length (tl t) < length s"
  by (cases t) (auto dest: strchr_length)

lemma strchr_prefix:
  "strchr s c = Some t \<Longrightarrow> take (ptr_diff t s) s @ t = s \<and> c \<notin> set (take (ptr_diff t s) s)"
  by (drule strchr_SomeD) (auto simp: ptr_diff_def)

section \<open>Characters\<close>

definition code_of :: "char \<Rightarrow> nat" where
  "code_of c = of_char c"

definition isspace :: "char \<Rightarrow> bool" where
  "isspace c \<longleftrightarrow> code_of c = 32 \<or> (9 \<le> code_of c \<and> code_of c \<le> 13)"

definition isgraph :: "char \<Rightarrow> bool" where
  "isgraph c \<longleftrightarrow> 33 \<le> code_of c \<and> code_of c \<le> 126"

definition digit_value :: "char \<Rightarrow> nat" where
  "digit_value c =
     (let n = code_of c in
      if 48 \<le> n \<and> n \<le> 57 then n - 48
      else if 97 \<le> n \<and> n \<le> 122 then n - 87
      else if 65 \<le> n \<and> n \<le> 90 then n - 55
      else 255)"

definition is_base_digit :: "nat \<Rightarrow> char \<Rightarrow> bool" where
  "is_base_digit b c \<longleftrightarrow> digit_value c < b"

section \<open>Numbers read from text\<close>

definition num_value :: "nat \<Rightarrow> string \<Rightarrow> nat" where
  "num_value b ds = foldl (\<lambda>n c. n * b + digit_value c) 0 ds"

definition skip_sign :: "string \<Rightarrow> bool \<times> string" where
  "skip_sign s =
     (case s of [] \<Rightarrow> (False, [])
      | c # r \<Rightarrow> if c = CHR ''-'' then (True, r) else if c = CHR ''+'' then (False, r) else (False, s))"

text \<open>The optional \<open>0x\<close> prefix of base 16, taken only when a hexadecimal digit follows.\<close>

definition skip_0x :: "nat \<Rightarrow> string \<Rightarrow> string" where
  "skip_0x b s =
     (case s of
        z # x # d # r \<Rightarrow>
          if b = 16 \<and> z = CHR ''0'' \<and> (x = CHR ''x'' \<or> x = CHR ''X'') \<and> is_base_digit 16 d
          then d # r else s
      | _ \<Rightarrow> s)"

text \<open>
  \<open>strtoul\<close> and \<open>strtoull\<close> for a result of \<open>w\<close> bits: the value, the end pointer and whether
  \<open>errno\<close> was set to \<open>ERANGE\<close>. Without a digit the value is 0 and the end pointer the start.
\<close>

definition strtou :: "nat \<Rightarrow> nat \<Rightarrow> string \<Rightarrow> nat \<times> string \<times> bool" where
  "strtou w b s =
     (let (neg, s2) = skip_sign (dropWhile isspace s);
          s3 = skip_0x b s2;
          ds = takeWhile (is_base_digit b) s3;
          rest = dropWhile (is_base_digit b) s3;
          n = num_value b ds
      in if ds = [] then (0, s, False)
         else if 2 ^ w \<le> n then (2 ^ w - 1, rest, True)
         else ((if neg then (2 ^ w - n) mod 2 ^ w else n), rest, False))"

definition strtoul_value :: "string \<Rightarrow> nat \<Rightarrow> nat" where
  "strtoul_value s b = fst (strtou 32 b s)"

text \<open>\<open>atoi\<close>/\<open>String::toInt\<close>: decimal, saturating at the bounds of the 32-bit \<open>long\<close>.\<close>

definition atoi :: "string \<Rightarrow> int" where
  "atoi s =
     (let (neg, s2) = skip_sign (dropWhile isspace s);
          n = int (num_value 10 (takeWhile (is_base_digit 10) s2))
      in if neg then max (- (2 ^ 31)) (- n) else min (2 ^ 31 - 1) n)"

lemma strtou_bound: "fst (strtou w b s) < 2 ^ w"
  by (auto simp: strtou_def Let_def split: prod.splits)

lemma strtoul_value_bound: "strtoul_value s b < 2 ^ 32"
  using strtou_bound [of 32 b s] by (simp add: strtoul_value_def)

lemma atoi_range: "- (2 ^ 31) \<le> atoi s \<and> atoi s < 2 ^ 31"
  by (auto simp: atoi_def Let_def split: prod.splits)

section \<open>Numbers written as text\<close>

fun show_nat :: "nat \<Rightarrow> string" where
  "show_nat n =
     (if n < 10 then [char_of (48 + n)] else show_nat (n div 10) @ [char_of (48 + n mod 10)])"

declare show_nat.simps [simp del]

definition show_int :: "int \<Rightarrow> string" where
  "show_int i = (if i < 0 then CHR ''-'' # show_nat (nat (- i)) else show_nat (nat i))"

text \<open>\<open>%0<w>d\<close> of a non-negative number.\<close>

definition show_pad0 :: "nat \<Rightarrow> nat \<Rightarrow> string" where
  "show_pad0 w n = replicate (w - length (show_nat n)) (CHR ''0'') @ show_nat n"

text \<open>\<open>snprintf\<close> into a buffer of \<open>n\<close> bytes keeps at most \<open>n - 1\<close> characters.\<close>

definition snprintf :: "nat \<Rightarrow> string \<Rightarrow> string" where
  "snprintf n s = take (n - 1) s"

lemma code_of_digit: "(d::nat) < 10 \<Longrightarrow> code_of (char_of (48 + d)) = 48 + d"
  by (simp add: code_of_def)

lemma digit_value_char: "(d::nat) < 10 \<Longrightarrow> digit_value (char_of (48 + d)) = d"
  by (simp add: digit_value_def code_of_digit Let_def)

lemma is_base_digit_char: "(d::nat) < 10 \<Longrightarrow> is_base_digit 10 (char_of (48 + d))"
  by (simp add: is_base_digit_def digit_value_char)

lemma num_value_snoc: "num_value b (ds @ [c]) = num_value b ds * b + digit_value c"
  by (simp add: num_value_def)

lemma num_value_show_nat: "num_value 10 (show_nat n) = n"
proof (induction n rule: show_nat.induct)
  case (1 n)
  show ?case
  proof (cases "n < 10")
    case True
    then show ?thesis
      by (simp add: show_nat.simps [of n] num_value_def digit_value_char)
  next
    case False
    with 1 have "num_value 10 (show_nat (n div 10)) = n div 10" by simp
    with False show ?thesis
      by (simp add: show_nat.simps [of n] num_value_snoc digit_value_char)
  qed
qed

lemma show_nat_digits: "c \<in> set (show_nat n) \<Longrightarrow> \<exists>d::nat. d < 10 \<and> c = char_of (48 + d)"
proof (induction n rule: show_nat.induct)
  case (1 n)
  show ?case
  proof (cases "n < 10")
    case True
    with "1.prems" show ?thesis by (auto simp: show_nat.simps [of n])
  next
    case False
    with "1.prems" consider "c \<in> set (show_nat (n div 10))" | "c = char_of (48 + n mod 10)"
      by (auto simp: show_nat.simps [of n])
    then show ?thesis
    proof cases
      case 1
      then show ?thesis using "1.IH" False by blast
    next
      case 2
      then show ?thesis by (intro exI [of _ "n mod 10"]) simp
    qed
  qed
qed

lemma show_nat_base_digit: "c \<in> set (show_nat n) \<Longrightarrow> is_base_digit 10 c"
  by (drule show_nat_digits) (auto simp: is_base_digit_char)

lemma show_nat_nonempty [simp]: "show_nat n \<noteq> []"
  by (subst show_nat.simps) simp

lemma show_nat_nonempty' [simp]: "[] \<noteq> show_nat n"
  by (metis show_nat_nonempty)

lemma show_nat_no_char: "\<not> is_base_digit 10 c \<Longrightarrow> c \<notin> set (show_nat n)"
  using show_nat_base_digit by blast

lemma takeWhile_digits_show:
  assumes "rest = [] \<or> \<not> is_base_digit 10 (hd rest)"
  shows "takeWhile (is_base_digit 10) (show_nat n @ rest) = show_nat n"
    and "dropWhile (is_base_digit 10) (show_nat n @ rest) = rest"
  using assms
  by (cases rest; simp add: takeWhile_append dropWhile_append show_nat_base_digit)+

lemma digit_not_space: "is_base_digit 10 c \<Longrightarrow> \<not> isspace c"
  by (auto simp: is_base_digit_def digit_value_def isspace_def Let_def split: if_splits)

lemma digit_not_sign: "is_base_digit 10 c \<Longrightarrow> c \<noteq> CHR ''-'' \<and> c \<noteq> CHR ''+''"
  by (auto simp: is_base_digit_def digit_value_def code_of_def)

lemma show_nat_hd: "is_base_digit 10 (hd (show_nat n))"
  using hd_in_set [OF show_nat_nonempty] by (rule show_nat_base_digit)

lemma skip_blank_show_nat:
  "skip_sign (dropWhile isspace (show_nat n @ rest)) = (False, show_nat n @ rest)"
  using show_nat_hd [of n] digit_not_space digit_not_sign
  by (cases "show_nat n") (auto simp: skip_sign_def)

lemma skip_0x_10 [simp]: "skip_0x 10 s = s"
  by (auto simp: skip_0x_def split: list.splits)

lemma strtou_show_nat:
  assumes "rest = [] \<or> \<not> is_base_digit 10 (hd rest)" and "n < 2 ^ w"
  shows "strtou w 10 (show_nat n @ rest) = (n, rest, False)"
  using assms(2) takeWhile_digits_show [OF assms(1), of n]
  by (simp add: strtou_def skip_blank_show_nat num_value_show_nat)

lemma atoi_show_int:
  assumes "rest = [] \<or> \<not> is_base_digit 10 (hd rest)" and "- (2 ^ 31) \<le> i" "i < 2 ^ 31"
  shows "atoi (show_int i @ rest) = i"
proof (cases "i < 0")
  case True
  have "\<not> isspace (CHR ''-'')" by (simp add: isspace_def code_of_def)
  with True assms(2) takeWhile_digits_show [OF assms(1), of "nat (- i)"] show ?thesis
    by (simp add: atoi_def show_int_def skip_sign_def num_value_show_nat)
next
  case False
  with assms(3) takeWhile_digits_show [OF assms(1), of "nat i"] show ?thesis
    by (simp add: atoi_def show_int_def skip_blank_show_nat num_value_show_nat)
qed

text \<open>Lengths of printed numbers.\<close>

lemma length_show_nat: "n < 10 ^ k \<Longrightarrow> 0 < k \<Longrightarrow> length (show_nat n) \<le> k"
proof (induction n arbitrary: k rule: show_nat.induct)
  case (1 n)
  show ?case
  proof (cases "n < 10")
    case True
    with "1.prems" show ?thesis by (simp add: show_nat.simps [of n])
  next
    case False
    then obtain j where j: "k = Suc j" "0 < j" using "1.prems" by (cases k; cases "k = 1") auto
    with "1.prems" have "n div 10 < 10 ^ j" by (simp add: div_less_iff_less_mult mult.commute)
    with "1.IH" [OF False _ j(2)] j show ?thesis by (simp add: show_nat.simps [of n])
  qed
qed

lemma length_show_nat_ge: "10 ^ k \<le> n \<Longrightarrow> k < length (show_nat n)"
proof (induction n arbitrary: k rule: show_nat.induct)
  case (1 n)
  show ?case
  proof (cases "n < 10")
    case True
    have "k = 0"
    proof (rule ccontr)
      assume "k \<noteq> 0"
      then have "10 ^ 1 \<le> (10::nat) ^ k" by (intro power_increasing) auto
      with True "1.prems" show False by simp
    qed
    then show ?thesis by simp
  next
    case False
    show ?thesis
    proof (cases k)
      case (Suc j)
      with "1.prems" have "10 ^ j \<le> n div 10" by (simp add: less_eq_div_iff_mult_less_eq mult.commute)
      with "1.IH" [OF False] Suc show ?thesis by (simp add: show_nat.simps [of n] False)
    qed simp
  qed
qed

lemma length_show_pad0: "0 < w \<Longrightarrow> n < 10 ^ w \<Longrightarrow> length (show_pad0 w n) = w"
  using length_show_nat [of n w] by (simp add: show_pad0_def)

lemma length_show_int: "0 \<le> i \<Longrightarrow> i < 10 ^ k \<Longrightarrow> 0 < k \<Longrightarrow> length (show_int i) \<le> k"
  using length_show_nat [of "nat i" k] by (simp add: show_int_def nat_less_iff)

lemma show_int_no_CR: "CHR 0x0D \<notin> set (show_int i)"
proof -
  have "\<not> is_base_digit 10 (CHR 0x0D)" by (simp add: is_base_digit_def digit_value_def code_of_def)
  then show ?thesis by (simp add: show_int_def show_nat_no_char)
qed

lemma show_int_nonempty: "1 \<le> length (show_int i)"
  by (cases "show_nat (nat i)") (simp_all add: show_int_def)

section \<open>Results that may fail\<close>

definition bind_res :: "'e + 'a \<Rightarrow> ('a \<Rightarrow> 'e + 'b) \<Rightarrow> 'e + 'b" where
  "bind_res m f = (case m of Inl e \<Rightarrow> Inl e | Inr x \<Rightarrow> f x)"

lemma bind_res_simps [simp]: "bind_res (Inl e) f = Inl e" "bind_res (Inr x) f = f x"
  by (simp_all add: bind_res_def)

lemma bind_res_Inl_iff:
  "bind_res m f = Inl e \<longleftrightarrow> m = Inl e \<or> (\<exists>x. m = Inr x \<and> f x = Inl e)"
  by (cases m) simp_all

lemma bind_res_Inr_iff:
  "bind_res m f = Inr y \<longleftrightarrow> (\<exists>x. m = Inr x \<and> f x = Inr y)"
  by (cases m) auto

text \<open>The errors C++ does not report: an access outside the object.\<close>

datatype fault =
    OutOfBounds \<comment> \<open>a read or write outside the buffer\<close>
  | Uninitialised \<comment> \<open>a read of memory nothing was stored to\<close>
  | AssertFailed
  | NullPointer \<comment> \<open>a null pointer is read\<close>
  | NoReturn \<comment> \<open>the bound on the rounds of a loop is used up\<close>

text \<open>A forced restart: \<open>delay\<close> and \<open>ESP.restart\<close>.\<close>

datatype reboot_action = RebootDelay nat | Restart

text \<open>A heap array as \<open>malloc\<close> returns it: cells without a value until they are written.\<close>

definition malloc_cells :: "nat \<Rightarrow> 'a option list" where
  "malloc_cells n = replicate n None"

lemma length_malloc_cells [simp]: "length (malloc_cells n) = n"
  by (simp add: malloc_cells_def)

definition store_cell :: "'a option list \<Rightarrow> nat \<Rightarrow> 'a \<Rightarrow> fault + 'a option list" where
  "store_cell a i v = (if i < length a then Inr (a[i := Some v]) else Inl OutOfBounds)"

definition load_cell :: "'a option list \<Rightarrow> nat \<Rightarrow> fault + 'a" where
  "load_cell a i =
     (if i < length a then (case a ! i of Some v \<Rightarrow> Inr v | None \<Rightarrow> Inl Uninitialised)
      else Inl OutOfBounds)"

text \<open>\<open>vals\<close> stored from index \<open>n\<close> on.\<close>

definition cells_with :: "'a option list \<Rightarrow> nat \<Rightarrow> 'a list \<Rightarrow> 'a option list" where
  "cells_with a n vals = take n a @ map Some vals @ drop (n + length vals) a"

lemma cells_with_Nil [simp]: "cells_with a n [] = a"
  by (simp add: cells_with_def)

lemma length_cells_with [simp]: "n + length vals \<le> length a \<Longrightarrow> length (cells_with a n vals) = length a"
  by (simp add: cells_with_def)

lemma cells_with_Cons:
  "n < length a \<Longrightarrow> cells_with (a[n := Some v]) (Suc n) vals = cells_with a n (v # vals)"
  by (simp add: cells_with_def take_Suc_conv_app_nth)

lemma load_cells_with:
  "n + length vals \<le> length a \<Longrightarrow> i < length vals \<Longrightarrow> load_cell (cells_with a n vals) (n + i) = Inr (vals ! i)"
  by (simp add: load_cell_def cells_with_def nth_append)

end
