(* ===== verification/Util.thy ===== *)
theory Util
  imports Prelude
begin

text \<open>
  The two header-only helpers of \<open>src/lib/util\<close>: \<open>bitIsSetAndNoHigherPrioTask\<close>
  (\<open>event_bits.hpp\<close>), which decides whether a LED pattern may go on, and \<open>replacechar\<close>
  (\<open>string_util.hpp\<close>). The lemmas read the bit trick as "bit set and no lower bit set" and the
  pointer loop as a map over the string with a count.
\<close>

unbundle bit_operations_syntax

section \<open>Event bits\<close>

text \<open>The mask is a C \<open>int\<close>, \<open>eventBits\<close> a \<open>uint32_t\<close>: the conjunction converts the mask to unsigned.\<close>

definition bitIsSetAndNoHigherPrioTask :: "u32 \<Rightarrow> u32 \<Rightarrow> bool" where
  "bitIsSetAndNoHigherPrioTask m eventBits =
     (if eventBits AND m = 0 then False
      else if sint m \<le> 1 then True
      else eventBits AND (m - 1) = 0)"

lemma sint_exp_le_1:
  assumes "k < 31"
  shows "sint (2 ^ k :: u32) \<le> 1 \<longleftrightarrow> k = 0"
proof -
  have "(2::int) ^ k \<le> 2 ^ 30" using assms by (intro power_increasing) auto
  then have b: "(2 ^ k :: int) < 2 ^ 31" by simp
  have "sint (word_of_int (2 ^ k) :: u32) = signed_take_bit 31 (2 ^ k)"
    by transfer simp
  also have "\<dots> = 2 ^ k"
  proof (rule signed_take_bit_int_eq_self)
    show "- (2 ^ 31) \<le> (2 ^ k :: int)" by (rule order_trans [of _ 0]) simp_all
  qed (rule b)
  finally have "sint (2 ^ k :: u32) = 2 ^ k" by simp
  moreover have "(2::int) ^ k \<le> 1 \<longleftrightarrow> k = 0"
  proof (cases "k = 0")
    case False
    then have "(1::int) < 2 ^ k" by (intro one_less_power) auto
    with False show ?thesis by linarith
  qed simp
  ultimately show ?thesis by simp
qed
lemma take_bit_0_iff: "take_bit k (b::u32) = 0 \<longleftrightarrow> (\<forall>j < k. \<not> bit b j)"
proof -
  have "j < 32" if "bit b j" for j using bit_imp_le_length [OF that] by simp
  then show ?thesis by (auto simp: bit_eq_iff bit_take_bit_iff)
qed

text \<open>
  For the one-bit masks of the LED patterns the test says that bit \<open>k\<close> is set and that no
  bit of a higher priority (a lower bit) is.
\<close>

theorem bitIsSet_iff_lowest:
  assumes "k < 31"
  shows "bitIsSetAndNoHigherPrioTask (2 ^ k) bits \<longleftrightarrow> bit bits k \<and> (\<forall>j < k. \<not> bit bits j)"
proof -
  have low: "bits AND (2 ^ k - 1) = 0 \<longleftrightarrow> (\<forall>j < k. \<not> bit bits j)"
  proof -
    have "bits AND (2 ^ k - 1) = take_bit k bits"
      by (simp add: take_bit_eq_mask mask_eq_decr_exp)
    then show ?thesis by (simp add: take_bit_0_iff)
  qed
  show ?thesis
    using and_exp_eq_0_iff_not_bit [of bits 0]
    by (cases "k = 0")
       (simp_all add: bitIsSetAndNoHigherPrioTask_def and_exp_eq_0_iff_not_bit sint_exp_le_1 assms low)
qed

section \<open>Replacing characters\<close>

text \<open>
  The loop of \<open>replacechar\<close>: \<open>ix\<close> is the pointer, \<open>strchr\<close> moves it to the next occurrence, the
  store and the increment go on behind it.
\<close>

function replace_from :: "string \<Rightarrow> char \<Rightarrow> char \<Rightarrow> nat \<times> string" where
  "replace_from ix orig rep =
     (case strchr ix orig of
        None \<Rightarrow> (0, ix)
      | Some ix' \<Rightarrow>
          (let (n, rest) = replace_from (tl ix') orig rep
           in (Suc n, take (ptr_diff ix' ix) ix @ rep # rest)))"
  by pat_completeness auto
termination
  by (relation "measure (\<lambda>(ix, orig, rep). length ix)") (auto dest: strchr_tl_less)
declare replace_from.simps [simp del]

definition replacechar :: "string option \<Rightarrow> char \<Rightarrow> char \<Rightarrow> nat \<times> string option" where
  "replacechar str orig rep =
     (case str of None \<Rightarrow> (0, None)
      | Some s \<Rightarrow> (let (n, s') = replace_from s orig rep in (n, Some s')))"

lemma replace_from_eq:
  "replace_from s orig rep =
     (count_list s orig, map (\<lambda>c. if c = orig then rep else c) s)"
proof (induction s orig rep rule: replace_from.induct)
  case (1 ix orig rep)
  show ?case
  proof (cases "strchr ix orig")
    case None
    then have "orig \<notin> set ix" by (simp add: strchr_None_iff)
    then have "map (\<lambda>c. if c = orig then rep else c) ix = ix" by (auto intro: map_idI)
    with None \<open>orig \<notin> set ix\<close> show ?thesis
      by (simp add: replace_from.simps [of ix] count_list_0_iff)
  next
    case (Some t)
    then obtain pre where pre: "ix = pre @ t" "orig \<notin> set pre" "t = orig # tl t"
      by (auto dest!: strchr_SomeD)
    have "map (\<lambda>c. if c = orig then rep else c) pre = pre" using pre(2) by (auto intro: map_idI)
    moreover have "take (ptr_diff t ix) ix = pre" using pre(1) by (simp add: ptr_diff_def)
    moreover have "count_list ix orig = Suc (count_list (tl t) orig)"
      by (subst pre(1), subst pre(3)) (simp add: pre(2) count_list_0_iff)
    moreover have "map f ix = map f pre @ f orig # map f (tl t)" for f :: "char \<Rightarrow> char"
      by (subst pre(1), subst pre(3)) simp
    ultimately show ?thesis
      using 1 [OF Some] Some by (simp add: replace_from.simps [of ix])
  qed
qed
text \<open>
  \<open>replacechar\<close> returns the number of occurrences and leaves the string with each of them
  replaced; a null pointer gives 0.
\<close>

theorem replacechar_correct:
  "replacechar str orig rep =
     (case str of None \<Rightarrow> (0, None)
      | Some s \<Rightarrow> (count_list s orig, Some (map (\<lambda>c. if c = orig then rep else c) s)))"
  by (simp add: replacechar_def replace_from_eq split: option.split)

theorem bitIsSet_iff_lowest_witness:
  "bitIsSetAndNoHigherPrioTask 0x1000 0x5000 \<longleftrightarrow> bit (0x5000 :: u32) 12 \<and> (\<forall>j < 12. \<not> bit (0x5000 :: u32) j)"
  using bitIsSet_iff_lowest [of 12 "0x5000"] by simp

end
