(* ===== verification/IrCodes.thy ===== *)
theory IrCodes
  imports Prelude
begin

text \<open>
  \<open>src/lib/util/ir_codes.hpp\<close>: the data of an IR send request, the parser of the
  \<open>protocol;hex;bits;repeat\<close> format, and the two routines that turn a comma or space separated
  text into a heap array of \<open>uint16_t\<close> (PRONTO and Global Cache codes).

  The array routines are modelled with their heap array (\<open>malloc_cells\<close>, \<open>store_cell\<close>,
  \<open>load_cell\<close>), so that a write past the allocation, a read of an unwritten cell and a read past
  the string (\<open>int16_t\<close> index wrap after 32767 characters) are results. \<open>mem\<close> says for which sizes
  \<open>malloc\<close> succeeds.
\<close>

section \<open>Data\<close>

datatype IRFormat = IR_UNKNOWN | UNFOLDED_CIRCLE | PRONTO | GLOBAL_CACHE

record IRSendMessage =
  sm_clientId :: int
  sm_msgId :: u32
  sm_format :: IRFormat
  sm_message :: string
  sm_repeat :: u16
  sm_pin_mask :: u32
  sm_gcSocket :: int

record IRHexData =
  hx_protocol :: int
  hx_command :: u64
  hx_bits :: u16
  hx_repeat :: u16

section \<open>Arduino strings\<close>

definition indexOf :: "string \<Rightarrow> char \<Rightarrow> int \<Rightarrow> int" where
  "indexOf s c from =
     (if int (length s) \<le> from then -1
      else case strchr (drop (nat from) s) c of
        None \<Rightarrow> -1
      | Some p \<Rightarrow> int (ptr_diff p s))"

text \<open>\<open>substring\<close> swaps reversed bounds and cuts at the end of the string.\<close>

definition substring :: "string \<Rightarrow> int \<Rightarrow> int \<Rightarrow> string" where
  "substring s left right =
     (let l = nat (min left right); r = nat (max left right) in take (r - l) (drop l s))"

section \<open>The hexadecimal format\<close>

text \<open>
  The three results are the value, the error flag and \<open>errno = ERANGE\<close> afterwards; \<open>en\<close> is
  \<open>errno = ERANGE\<close> before, which \<open>strtoul\<close> sets and never clears.
\<close>

definition parseULong :: "bool \<Rightarrow> string option \<Rightarrow> nat \<Rightarrow> nat \<times> bool \<times> bool" where
  "parseULong en number base =
     (case number of
        None \<Rightarrow> (0, True, en)
      | Some s \<Rightarrow>
          (let (value, end_ptr, range) = strtou 32 base s; en' = (en \<or> range) in
           if end_ptr = s \<or> end_ptr \<noteq> [] \<or> en' then (0, True, en') else (value, False, en')))"

definition buildIRHexData :: "string \<Rightarrow> IRHexData option" where
  "buildIRHexData message =
     (let firstIndex = indexOf message (CHR '';'') 0;
          secondIndex = indexOf message (CHR '';'') (firstIndex + 1);
          thirdIndex = indexOf message (CHR '';'') (secondIndex + 1)
      in if firstIndex = -1 \<or> secondIndex = -1 \<or> thirdIndex = -1 then None
      else let protocol = atoi (substring message 0 firstIndex)
      in if protocol = 0 then None
      else let str = substring message (firstIndex + 1) secondIndex;
               (command, end_ptr, range) = strtou 64 16 str
      in if command = 0 \<and> end_ptr = str then None
      else if command = 2 ^ 64 - 1 \<and> range then None
      else if end_ptr \<noteq> [] then None
      else let (value, error, en) =
                 parseULong range (Some (substring message (secondIndex + 1) thirdIndex)) 10
      in if error \<or> value > 0xFFFF then None
      else if (of_nat value :: u16) = 0 then None
      else let (rep, error2, en2) =
                 parseULong en (Some (substring message (thirdIndex + 1) (int (length message)))) 10
      in if error2 \<or> rep > 0xFFFF \<or> rep > 20 then None
      else Some \<lparr>hx_protocol = protocol, hx_command = of_nat command,
                 hx_bits = of_nat value, hx_repeat = of_nat rep\<rparr>)"

text \<open>The four fields of a message, each but the last closed by a semicolon.\<close>

definition hex_message :: "string \<Rightarrow> string \<Rightarrow> string \<Rightarrow> string \<Rightarrow> string" where
  "hex_message a b c d = a @ CHR '';'' # b @ CHR '';'' # c @ CHR '';'' # d"

lemma indexOf_append:
  assumes "c \<notin> set mid" and "from = int (length pre)"
  shows "indexOf (pre @ mid @ c # post) c from = int (length pre + length mid)"
  using assms by (simp add: indexOf_def strchr_append ptr_diff_def)

lemma substring_append:
  assumes "left = int (length pre)" and "right = int (length pre + length mid)"
  shows "substring (pre @ mid @ post) left right = mid"
  using assms by (simp add: substring_def Let_def nat_add_distrib)

text \<open>Where the separators of a message are, and the pieces between them.\<close>

lemma hex_message_pieces:
  fixes a b c d :: string
  defines "m \<equiv> hex_message a b c d" and "i \<equiv> int (length a)"
    and "j \<equiv> int (length a + length b + 1)" and "k \<equiv> int (length a + length b + length c + 2)"
  assumes "CHR '';'' \<notin> set a" "CHR '';'' \<notin> set b" "CHR '';'' \<notin> set c"
  shows "indexOf m (CHR '';'') 0 = i" "indexOf m (CHR '';'') (i + 1) = j"
    "indexOf m (CHR '';'') (j + 1) = k" "substring m 0 i = a" "substring m (i + 1) j = b"
    "substring m (j + 1) k = c" "substring m (k + 1) (int (length m)) = d"
proof -
  let ?s = "CHR '';''"
  have m1: "m = [] @ a @ ?s # (b @ ?s # c @ ?s # d)"
    and m2: "m = (a @ [?s]) @ b @ ?s # (c @ ?s # d)"
    and m3: "m = (a @ ?s # b @ [?s]) @ c @ ?s # d"
    and m4: "m = (a @ ?s # b @ ?s # c @ [?s]) @ d @ []"
    by (simp_all add: m_def hex_message_def)
  show "indexOf m ?s 0 = i" unfolding m1 by (subst indexOf_append) (simp_all add: assms i_def)
  show "indexOf m ?s (i + 1) = j"
    unfolding m2 by (subst indexOf_append) (simp_all add: assms i_def j_def)
  show "indexOf m ?s (j + 1) = k"
    unfolding m3 by (subst indexOf_append) (simp_all add: assms j_def k_def)
  show "substring m 0 i = a" unfolding m1 by (rule substring_append) (simp_all add: i_def)
  show "substring m (i + 1) j = b"
    unfolding m2 by (rule substring_append) (simp_all add: i_def j_def)
  show "substring m (j + 1) k = c"
    unfolding m3 by (rule substring_append) (simp_all add: j_def k_def)
  show "substring m (k + 1) (int (length m)) = d"
    by (subst (1) m4, rule substring_append) (simp_all add: k_def m4)
qed

lemma parseULong_show_nat: "n < 2 ^ 32 \<Longrightarrow> parseULong False (Some (show_nat n)) 10 = (n, False, False)"
  using strtou_show_nat [of "[]" n 32] by (simp add: parseULong_def)

lemma semicolon_not_digit: "\<not> is_base_digit 10 (CHR '';'')"
  by (simp add: is_base_digit_def digit_value_def code_of_def)

lemma semicolon_not_in_show_int: "CHR '';'' \<notin> set (show_int i)"
  by (simp add: show_int_def show_nat_no_char semicolon_not_digit)

lemma hex_message_parses:
  assumes "p \<noteq> 0" "- (2 ^ 31) \<le> p" "p < 2 ^ 31"
    and hex: "strtou 64 16 h = (v, [], False)" "h \<noteq> []" "CHR '';'' \<notin> set h"
    and "0 < b" "b < 2 ^ 16" "r \<le> 20"
  shows "buildIRHexData (hex_message (show_int p) h (show_nat b) (show_nat r)) =
     Some \<lparr>hx_protocol = p, hx_command = of_nat v, hx_bits = of_nat b, hx_repeat = of_nat r\<rparr>"
proof -
  note pieces = hex_message_pieces [OF semicolon_not_in_show_int hex(3)
      show_nat_no_char [OF semicolon_not_digit], of p b "show_nat r"]
  have "atoi (show_int p) = p"
    using atoi_show_int [of "[]" p] assms(2,3) by simp
  moreover have "(of_nat b :: u16) \<noteq> 0"
    using assms(7,8) by (simp add: word_of_nat_eq_0_iff) (auto dest: dvd_imp_le)
  ultimately show ?thesis
    using assms pieces
    by (simp add: buildIRHexData_def Let_def parseULong_show_nat)
qed

section \<open>Counting values\<close>

text \<open>
  The loop reads \<open>str[index]\<close> with an \<open>int16_t\<close> index: incrementing 32767 gives -32768, and the
  next read is outside the string.
\<close>

fun count_loop :: "char \<Rightarrow> string \<Rightarrow> nat \<Rightarrow> nat \<Rightarrow> fault + nat" where
  "count_loop sep [] index count = Inr count"
| "count_loop sep (c # cs) index count =
     (let count' = (if c = sep then (count + 1) mod 2 ^ 16 else count) in
      if index = 32767 then Inl OutOfBounds else count_loop sep cs (index + 1) count')"

definition countValuesInCStr :: "string option \<Rightarrow> char \<Rightarrow> fault + nat" where
  "countValuesInCStr str sep =
     (case str of
        None \<Rightarrow> Inr 0
      | Some s \<Rightarrow> if s = [] then Inr 0
          else bind_res (count_loop sep s 0 0) (\<lambda>count. Inr ((count + 1) mod 2 ^ 16)))"

lemma count_loop_eq:
  assumes "index + length s \<le> 32767" and "count \<le> index"
  shows "count_loop sep s index count = Inr (count + count_list s sep)"
  using assms
proof (induction s arbitrary: index count)
  case Nil
  then show ?case by simp
next
  case (Cons c cs)
  then show ?case by simp
qed

lemma countValuesInCStr_eq:
  assumes "length s \<le> 32767" and "s \<noteq> []"
  shows "countValuesInCStr (Some s) sep = Inr (count_list s sep + 1)"
proof -
  have "count_list s sep \<le> length s" by (rule count_le_length)
  with assms show ?thesis by (simp add: countValuesInCStr_def count_loop_eq)
qed

section \<open>PRONTO codes\<close>

text \<open>
  \<open>msg + startFrom\<close> is the start of the current value; \<open>rest\<close> is \<open>msg + index\<close>. The loop
  returns the final \<open>index\<close>, \<open>startFrom\<close>, \<open>count\<close> and array.
\<close>

fun pronto_loop ::
  "string \<Rightarrow> char \<Rightarrow> string \<Rightarrow> nat \<Rightarrow> nat \<Rightarrow> nat \<Rightarrow> u16 option list
   \<Rightarrow> fault + (nat \<times> nat \<times> nat \<times> u16 option list)" where
  "pronto_loop msg separator [] index startFrom count codeArray =
     Inr (index, startFrom, count, codeArray)"
| "pronto_loop msg separator (c # cs) index startFrom count codeArray =
     bind_res
       (if c = separator
        then bind_res (store_cell codeArray count (of_nat (strtoul_value (drop startFrom msg) 16)))
               (\<lambda>a. Inr (index + 1, count + 1, a))
        else Inr (startFrom, count, codeArray))
       (\<lambda>(startFrom', count', a).
          if index = 32767 then Inl OutOfBounds
          else pronto_loop msg separator cs (index + 1) startFrom' count' a)"

text \<open>What follows the last separator is stored when it is not empty.\<close>

definition store_last ::
  "nat \<Rightarrow> string \<Rightarrow> nat \<Rightarrow> nat \<Rightarrow> nat \<Rightarrow> u16 option list \<Rightarrow> fault + (nat \<times> u16 option list)" where
  "store_last base msg index startFrom count codeArray =
     (if startFrom < index
      then bind_res (store_cell codeArray count (of_nat (strtoul_value (drop startFrom msg) base)))
             (\<lambda>a. Inr (count + 1, a))
      else Inr (count, codeArray))"

text \<open>
  The validation: raw codes only, and both burst sequences inside the array. The lengths are
  \<open>uint16_t\<close> products, so they wrap.
\<close>

definition pronto_validate ::
  "nat \<Rightarrow> u16 option list \<Rightarrow> fault + ((nat \<times> u16 option list) option \<times> bool)" where
  "pronto_validate count codeArray =
     bind_res (load_cell codeArray 0) (\<lambda>raw.
     if raw \<noteq> 0 then Inr (None, False)
     else bind_res (load_cell codeArray 2) (\<lambda>pairs1.
     bind_res (load_cell codeArray 3) (\<lambda>pairs2.
     let seq1Len = pairs1 * 2; seq2Len = pairs2 * 2;
         seq1Start = (4 :: u16); seq2Start = seq1Start + seq1Len
     in if 0 < seq1Len \<and> count < unat seq1Len + unat seq1Start then Inr (None, False)
        else if 0 < seq2Len \<and> count < unat seq2Len + unat seq2Start then Inr (None, False)
        else Inr (Some (count, codeArray), False))))"

text \<open>
  The result is the returned array with \<open>codeCount\<close>, or \<open>None\<close> for a null pointer, and the
  memory error flag.
\<close>

definition prontoBufferToArray ::
  "(nat \<Rightarrow> bool) \<Rightarrow> string \<Rightarrow> char \<Rightarrow> fault + ((nat \<times> u16 option list) option \<times> bool)" where
  "prontoBufferToArray mem msg separator =
     bind_res (countValuesInCStr (Some msg) separator) (\<lambda>count0.
     if count0 < 6 then Inr (None, False)
     else if \<not> mem (count0 * 2) then Inr (None, True)
     else bind_res (pronto_loop msg separator msg 0 0 0 (malloc_cells count0))
       (\<lambda>(index, startFrom, count1, a1).
     bind_res (store_last 16 msg index startFrom count1 a1)
       (\<lambda>(count, codeArray). pronto_validate count codeArray)))"

section \<open>Global Cache codes\<close>

fun gc_loop ::
  "string \<Rightarrow> char \<Rightarrow> nat \<Rightarrow> string \<Rightarrow> nat \<Rightarrow> nat \<Rightarrow> nat \<Rightarrow> nat \<Rightarrow> u16 option list
   \<Rightarrow> fault + (nat \<times> nat \<times> nat \<times> u16 option list)" where
  "gc_loop msg separator startIndex [] msgIndex codeIndex startFrom count codeArray =
     Inr (msgIndex, codeIndex, startFrom, codeArray)"
| "gc_loop msg separator startIndex (c # cs) msgIndex codeIndex startFrom count codeArray =
     bind_res
       (if c = separator
        then bind_res
          (if startIndex \<le> count
           then bind_res (store_cell codeArray codeIndex
                    (of_nat (strtoul_value (drop startFrom msg) 10)))
                  (\<lambda>a. Inr (codeIndex + 1, a))
           else Inr (codeIndex, codeArray))
          (\<lambda>(codeIndex', a). Inr (codeIndex', msgIndex + 1, count + 1, a))
        else Inr (codeIndex, startFrom, count, codeArray))
       (\<lambda>(codeIndex', startFrom', count', a).
          if msgIndex = 32767 then Inl OutOfBounds
          else gc_loop msg separator startIndex cs (msgIndex + 1) codeIndex' startFrom' count' a)"

definition globalCacheBufferToArray ::
  "(nat \<Rightarrow> bool) \<Rightarrow> string \<Rightarrow> fault + ((nat \<times> u16 option list) option \<times> bool)" where
  "globalCacheBufferToArray mem msg =
     bind_res (countValuesInCStr (Some msg) (CHR '','')) (\<lambda>count0.
     let sendir = strncmp_eq msg ''sendir'' 6;
         count = (if sendir then (of_nat count0 - 3 :: u16) else of_nat count0);
         startIndex = (if sendir then 3 else 0 :: nat)
     in if unat count < 6 then Inr (None, False)
     else if \<not> mem (unat count * 2) then Inr (None, True)
     else bind_res (gc_loop msg (CHR '','') startIndex msg 0 0 0 0 (malloc_cells (unat count)))
       (\<lambda>(msgIndex, codeIndex, startFrom, a1).
     bind_res (store_last 10 msg msgIndex startFrom codeIndex a1)
       (\<lambda>(codeIndex', codeArray). Inr (Some (codeIndex', codeArray), False))))"

section \<open>What the array routines compute\<close>

text \<open>
  The values of a text, as a list: \<open>closed_values\<close> are those ended by a separator, \<open>last_field\<close> is
  the start of what follows the last separator.
\<close>

fun closed_values :: "(string \<Rightarrow> 'v) \<Rightarrow> char \<Rightarrow> string \<Rightarrow> string \<Rightarrow> 'v list" where
  "closed_values conv sep start [] = []"
| "closed_values conv sep start (c # cs) =
     (if c = sep then conv start # closed_values conv sep cs cs
      else closed_values conv sep start cs)"

fun last_field :: "char \<Rightarrow> string \<Rightarrow> string \<Rightarrow> string" where
  "last_field sep start [] = start"
| "last_field sep start (c # cs) = (if c = sep then last_field sep cs cs else last_field sep start cs)"

definition open_value :: "(string \<Rightarrow> 'v) \<Rightarrow> string \<Rightarrow> 'v list" where
  "open_value conv start = (if start = [] then [] else [conv start])"

definition text_values :: "(string \<Rightarrow> 'v) \<Rightarrow> char \<Rightarrow> nat \<Rightarrow> string \<Rightarrow> 'v list" where
  "text_values conv sep skip s =
     drop skip (closed_values conv sep s s) @ open_value conv (last_field sep s s)"

definition u16_of_text :: "nat \<Rightarrow> string \<Rightarrow> u16" where
  "u16_of_text base s = of_nat (strtoul_value s base)"

definition pronto_valid :: "u16 list \<Rightarrow> bool" where
  "pronto_valid vs \<longleftrightarrow>
     vs ! 0 = 0 \<and>
     (vs ! 2 * 2 = 0 \<or> unat (vs ! 2 * 2) + 4 \<le> length vs) \<and>
     (vs ! 3 * 2 = 0 \<or> unat (vs ! 3 * 2) + unat (4 + vs ! 2 * 2) \<le> length vs)"

lemma length_closed_values [simp]: "length (closed_values conv sep start s) = count_list s sep"
  by (induction conv sep start s rule: closed_values.induct) simp_all

lemma length_text_values:
  "length (text_values conv sep k s) =
     count_list s sep - k + (if last_field sep s s = [] then 0 else 1)"
  by (simp add: text_values_def open_value_def)

lemma length_open_value: "length (open_value conv s) \<le> 1"
  by (simp add: open_value_def)

lemma length_last_field: "length s \<le> length start \<Longrightarrow> length (last_field sep start s) \<le> length start"
  by (induction sep start s rule: last_field.induct) auto

lemma drop_SucI:
  assumes "c # cs = drop i xs"
  shows "drop (Suc i) xs = cs" "i < length xs"
  using assms by (metis drop_Suc list.sel(3) tl_drop) (metis assms drop_all leI list.simps(3))

lemma last_field_suffix:
  assumes "rest = drop index msg" "startFrom \<le> index" "index \<le> length msg"
  shows "drop (length msg - length (last_field sep (drop startFrom msg) rest)) msg =
         last_field sep (drop startFrom msg) rest"
  using assms
proof (induction rest arbitrary: index startFrom)
  case Nil
  then show ?case by simp
next
  case (Cons c cs)
  note cs = drop_SucI [OF Cons.prems(1)]
  show ?case
    using Cons.IH [OF cs(1) [symmetric], of startFrom] Cons.IH [OF cs(1) [symmetric], of "Suc index"]
      cs Cons.prems(2) by simp
qed

lemma store_at_cell: "n < length a \<Longrightarrow> store_cell a n v = Inr (a[n := Some v])"
  by (simp add: store_cell_def)

lemma pronto_loop_eq:
  fixes msg :: string and sep :: char
  defines "conv \<equiv> u16_of_text 16"
  assumes "rest = drop index msg" "startFrom \<le> index" "index \<le> length msg" "length msg \<le> 32767"
    and "n + count_list rest sep \<le> length a"
  shows "pronto_loop msg sep rest index startFrom n a =
     Inr (length msg, length msg - length (last_field sep (drop startFrom msg) rest),
          n + count_list rest sep, cells_with a n (closed_values conv sep (drop startFrom msg) rest))"
  using assms(2-)
proof (induction rest arbitrary: index startFrom n a)
  case Nil
  then show ?case by simp
next
  case (Cons c cs)
  note cs = drop_SucI [OF Cons.prems(1)]
  show ?case
    using Cons.IH [OF cs(1) [symmetric], of "Suc index" "Suc n" "a[n := Some (conv (drop startFrom msg))]"]
      Cons.IH [OF cs(1) [symmetric], of startFrom n a] cs Cons.prems(2-)
    by (cases "c = sep")
       (simp_all add: store_at_cell cells_with_Cons conv_def u16_of_text_def)
qed

lemma gc_loop_eq:
  fixes msg :: string and sep :: char
  defines "conv \<equiv> u16_of_text 10"
  assumes "rest = drop index msg" "startFrom \<le> index" "index \<le> length msg" "length msg \<le> 32767"
    and "n + (count_list rest sep - (si - count)) \<le> length a"
  shows "gc_loop msg sep si rest index n startFrom count a =
     Inr (length msg, n + (count_list rest sep - (si - count)),
          length msg - length (last_field sep (drop startFrom msg) rest),
          cells_with a n (drop (si - count) (closed_values conv sep (drop startFrom msg) rest)))"
  using assms(2-)
proof (induction rest arbitrary: index startFrom count n a)
  case Nil
  then show ?case by simp
next
  case (Cons c cs)
  note cs = drop_SucI [OF Cons.prems(1)]
  note IH = Cons.IH [OF cs(1) [symmetric]]
  consider (store) "c = sep" "si \<le> count" | (skip) "c = sep" "count < si" | (other) "c \<noteq> sep"
    by linarith
  then show ?case
  proof cases
    case store
    then show ?thesis
      using IH [of "Suc index" "Suc n" "Suc count" "a[n := Some (conv (drop startFrom msg))]"]
        cs Cons.prems(2-)
      by (simp add: store_at_cell cells_with_Cons conv_def u16_of_text_def)
  next
    case skip
    then have "si - count = Suc (si - Suc count)" by simp
    with skip show ?thesis
      using IH [of "Suc index" n "Suc count" a] cs Cons.prems(2-) by simp
  next
    case other
    then show ?thesis using IH [of startFrom n count a] cs Cons.prems(2-) by simp
  qed
qed

lemma cells_with_append:
  "n + length xs + length ys \<le> length a \<Longrightarrow>
   cells_with (cells_with a n xs) (n + length xs) ys = cells_with a n (xs @ ys)"
  by (simp add: cells_with_def ac_simps)

text \<open>The store of the value after the last separator, shared by both routines.\<close>

lemma store_last_eq:
  fixes a :: "u16 option list"
  assumes "length vs < length a" and "drop (length msg - length p) msg = p" "length p \<le> length msg"
  shows "store_last base msg (length msg) (length msg - length p) (length vs) (cells_with a 0 vs) =
     Inr (length (vs @ open_value (u16_of_text base) p),
          cells_with a 0 (vs @ open_value (u16_of_text base) p))"
proof (cases "p = []")
  case True
  then show ?thesis by (simp add: open_value_def store_last_def)
next
  case False
  have "(cells_with a 0 vs)[length vs := Some v] = cells_with a 0 (vs @ [v])" for v
    using cells_with_append [of 0 vs "[v]" a] assms(1)
    by (simp add: cells_with_def upd_conv_take_nth_drop)
  moreover have "length msg - length p < length msg" using False assms(3) by (cases p) auto
  ultimately show ?thesis
    using False assms by (simp add: open_value_def store_at_cell store_last_def u16_of_text_def)
qed

definition pronto_values :: "char \<Rightarrow> string \<Rightarrow> u16 list" where
  "pronto_values sep s = text_values (u16_of_text 16) sep 0 s"

lemma pronto_validate_eq:
  assumes "5 \<le> length vs" "length vs \<le> length a"
  shows "pronto_validate (length vs) (cells_with a 0 vs) =
     Inr (if pronto_valid vs then Some (length vs, cells_with a 0 vs) else None, False)"
proof -
  have "load_cell (cells_with a 0 vs) i = Inr (vs ! i)" if "i < 5" for i
    using load_cells_with [of 0 vs a i] that assms by simp
  then show ?thesis
    by (auto simp: pronto_validate_def pronto_valid_def Let_def not_less word_neq_0_conv)
qed

lemma pronto_array:
  assumes "length msg \<le> 32767" and "msg \<noteq> []" and n: "n = count_list msg sep + 1"
    and vs: "vs = pronto_values sep msg"
  shows "prontoBufferToArray mem msg sep =
     (if n < 6 then Inr (None, False)
      else if \<not> mem (n * 2) then Inr (None, True)
      else Inr (if pronto_valid vs then Some (length vs, cells_with (malloc_cells n) 0 vs) else None,
                False))"
proof -
  let ?p = "last_field sep msg msg" and ?a = "malloc_cells n :: u16 option list"
  let ?cl = "closed_values (u16_of_text 16) sep msg msg"
  have vs': "?cl @ open_value (u16_of_text 16) ?p = vs"
    by (simp add: vs pronto_values_def text_values_def)
  have lenvs: "length vs \<le> n \<and> n \<le> length vs + 1"
    using length_open_value [of "u16_of_text 16" ?p] by (simp add: vs' [symmetric] n)
  have cnt: "countValuesInCStr (Some msg) sep = Inr n"
    by (simp add: countValuesInCStr_eq assms)
  have loop: "pronto_loop msg sep msg 0 0 0 ?a =
      Inr (length msg, length msg - length ?p, length ?cl, cells_with ?a 0 ?cl)"
    using pronto_loop_eq [of msg 0 msg 0 0 sep ?a] assms by simp
  have "store_last 16 msg (length msg) (length msg - length ?p) (length ?cl) (cells_with ?a 0 ?cl) =
      Inr (length vs, cells_with ?a 0 vs)"
    using store_last_eq [of ?cl ?a msg ?p 16] last_field_suffix [of msg 0 msg 0 sep]
    by (simp add: vs' length_last_field n del: length_append)
  with loop lenvs show ?thesis
    by (simp add: prontoBufferToArray_def cnt pronto_validate_eq)
qed

text \<open>
  The Global Cache routine: a \<open>sendir\<close> request skips its first three values. The allocation is
  the \<open>uint16_t\<close> count, which wraps for a \<open>sendir\<close> text of fewer than three values.
\<close>

definition gc_skip :: "string \<Rightarrow> nat" where
  "gc_skip msg = (if strncmp_eq msg ''sendir'' 6 then 3 else 0)"

definition gc_count :: "string \<Rightarrow> nat" where
  "gc_count msg = unat (of_nat (count_list msg (CHR '','') + 1) - of_nat (gc_skip msg) :: u16)"

definition gc_values :: "string \<Rightarrow> u16 list" where
  "gc_values msg = text_values (u16_of_text 10) (CHR '','') (gc_skip msg) msg"

lemma gc_count_eq:
  assumes "length msg \<le> 32767"
  shows "gc_count msg =
     (if gc_skip msg \<le> count_list msg (CHR '','') + 1
      then count_list msg (CHR '','') + 1 - gc_skip msg
      else count_list msg (CHR '','') + 1 + 2 ^ 16 - gc_skip msg)"
proof -
  let ?n = "count_list msg (CHR '','') + 1"
  have n: "?n < 2 ^ 16" using count_le_length [of msg "CHR '',''"] assms by simp
  have k: "gc_skip msg < 2 ^ 16" by (simp add: gc_skip_def)
  have "unat (of_nat m :: u16) = m" if "m < 2 ^ 16" for m
    using that by (simp add: unat_of_nat)
  note this [OF n] this [OF k]
  then show ?thesis
    unfolding gc_count_def unat_sub_if' by auto
qed

text \<open>A \<open>sendir\<close> text that is shorter than its three address values fills one cell at most.\<close>

lemma length_gc_values:
  assumes "length msg \<le> 32767" and "gc_count msg \<noteq> 0"
  shows "length (gc_values msg) \<le> gc_count msg"
  using assms(2)
  by (auto simp: gc_values_def length_text_values gc_count_eq [OF assms(1)] gc_skip_def split: if_splits)

lemma gc_array:
  assumes "length msg \<le> 32767" and "msg \<noteq> []"
  shows "globalCacheBufferToArray mem msg =
     (if gc_count msg < 6 then Inr (None, False)
      else if \<not> mem (gc_count msg * 2) then Inr (None, True)
      else Inr (Some (length (gc_values msg),
                      cells_with (malloc_cells (gc_count msg)) 0 (gc_values msg)), False))"
proof -
  let ?sep = "CHR '',''" and ?k = "gc_skip msg" and ?n = "gc_count msg"
  let ?p = "last_field ?sep msg msg" and ?a = "malloc_cells ?n :: u16 option list"
  let ?cl = "drop ?k (closed_values (u16_of_text 10) ?sep msg msg)"
  have room: "length ?cl \<le> ?n" "?n \<noteq> 0 \<Longrightarrow> length ?cl < ?n"
    by (auto simp: gc_count_eq [OF assms(1)])
  have loop: "gc_loop msg ?sep ?k msg 0 0 0 0 ?a =
      Inr (length msg, length ?cl, length msg - length ?p, cells_with ?a 0 ?cl)"
    using gc_loop_eq [of msg 0 msg 0 0 ?sep ?k 0 ?a] assms(1) room by simp
  have "store_last 10 msg (length msg) (length msg - length ?p) (length ?cl) (cells_with ?a 0 ?cl) =
      Inr (length (gc_values msg), cells_with ?a 0 (gc_values msg))" if "?n \<noteq> 0"
    using store_last_eq [of ?cl ?a msg ?p 10] last_field_suffix [of msg 0 msg 0 ?sep] room(2) [OF that]
    by (simp add: gc_values_def text_values_def length_last_field)
  moreover have "globalCacheBufferToArray mem msg =
     (if ?n < 6 then Inr (None, False) else if \<not> mem (?n * 2) then Inr (None, True)
      else bind_res (gc_loop msg ?sep ?k msg 0 0 0 0 ?a) (\<lambda>(msgIndex, codeIndex, startFrom, a1).
        bind_res (store_last 10 msg msgIndex startFrom codeIndex a1)
          (\<lambda>(codeIndex', codeArray). Inr (Some (codeIndex', codeArray), False))))"
    using countValuesInCStr_eq [OF assms, of ?sep]
    by (cases "strncmp_eq msg ''sendir'' 6")
       (simp_all add: globalCacheBufferToArray_def gc_count_def gc_skip_def Let_def)
  ultimately show ?thesis using loop by simp
qed

section \<open>Properties\<close>

text \<open>
  C38. A message built from a protocol number, a hexadecimal text, a bit count and a repeat count
  of at most 20 is accepted by \<open>buildIRHexData\<close> and parses back to exactly these values.
\<close>

theorem buildIRHexData_print:
  assumes "p \<noteq> 0" "- (2 ^ 31) \<le> p" "p < 2 ^ 31"
    and hex: "strtou 64 16 h = (v, [], False)" "h \<noteq> []" "CHR '';'' \<notin> set h"
    and "0 < b" "b < 2 ^ 16" "r \<le> 20"
  shows "buildIRHexData (hex_message (show_int p) h (show_nat b) (show_nat r)) =
     Some \<lparr>hx_protocol = p, hx_command = of_nat v, hx_bits = of_nat b, hx_repeat = of_nat r\<rparr>"
  using assms by (rule hex_message_parses)

text \<open>
  C19. The PRONTO routine, for texts an \<open>int16_t\<close> can index: no access is out of bounds or
  uninitialised, and it returns exactly the values of the text when they form a valid raw code.
\<close>

theorem prontoBufferToArray_eq:
  assumes "length msg \<le> 32767" and "msg \<noteq> []" and n: "n = count_list msg sep + 1"
    and vs: "vs = pronto_values sep msg"
  shows "prontoBufferToArray mem msg sep =
     (if n < 6 then Inr (None, False)
      else if \<not> mem (n * 2) then Inr (None, True)
      else Inr (if pronto_valid vs then Some (length vs, cells_with (malloc_cells n) 0 vs) else None,
                False))"
  using assms by (rule pronto_array)

text \<open>
  C20. The Global Cache routine, for texts an \<open>int16_t\<close> can index: it stays inside its allocation
  and returns the values of the text, without the three address values of a \<open>sendir\<close> request.
\<close>

theorem globalCacheBufferToArray_eq:
  assumes "length msg \<le> 32767" and "msg \<noteq> []"
  shows "globalCacheBufferToArray mem msg =
     (if gc_count msg < 6 then Inr (None, False)
      else if \<not> mem (gc_count msg * 2) then Inr (None, True)
      else Inr (Some (length (gc_values msg),
                      cells_with (malloc_cells (gc_count msg)) 0 (gc_values msg)), False))"
  using assms by (rule gc_array)

section \<open>Concrete codes\<close>

lemmas text_eval = strtou_def strtoul_value_def skip_sign_def skip_0x_def isspace_def is_base_digit_def
  digit_value_def code_of_def num_value_def u16_of_text_def

lemmas values_eval = text_eval text_values_def open_value_def pronto_values_def gc_values_def gc_skip_def
  gc_count_def strncmp_eq_def

theorem buildIRHexData_print_witness:
  "buildIRHexData ''4;0x640C;15;0'' =
     Some \<lparr>hx_protocol = 4, hx_command = 0x640C, hx_bits = 15, hx_repeat = 0\<rparr>"
proof -
  have "hex_message (show_int 4) ''0x640C'' (show_nat 15) (show_nat 0) = ''4;0x640C;15;0''"
    by (simp add: hex_message_def show_int_def show_nat.simps char_of_def bit_Suc_0_iff)
  moreover have "strtou 64 16 ''0x640C'' = (0x640C, [], False)" by (simp add: text_eval)
  ultimately show ?thesis using buildIRHexData_print [of 4 "''0x640C''" "0x640C" 15 0] by simp
qed

abbreviation ex_pronto :: string where
  "ex_pronto \<equiv> ''0000 006D 0001 0000 0010 0020''"

theorem prontoBufferToArray_eq_witness:
  "prontoBufferToArray (\<lambda>_. True) ex_pronto (CHR '' '') =
     Inr (Some (6, map Some [0, 0x6D, 1, 0, 0x10, 0x20]), False)"
proof -
  have "pronto_values (CHR '' '') ex_pronto = [0, 0x6D, 1, 0, 0x10, 0x20]" by (simp add: values_eval)
  moreover have "pronto_valid [0, 0x6D, 1, 0, 0x10, 0x20]" by (simp add: pronto_valid_def)
  ultimately show ?thesis
    using prontoBufferToArray_eq [of ex_pronto 6 "CHR '' ''" "[0, 0x6D, 1, 0, 0x10, 0x20]" "\<lambda>_. True"]
    by (simp add: cells_with_def malloc_cells_def)
qed

theorem globalCacheBufferToArray_eq_witness:
  "globalCacheBufferToArray (\<lambda>_. True) ''sendir,1:1,1,38000,1,1,96,24,8'' =
     Inr (Some (6, map Some [38000, 1, 1, 96, 24, 8]), False)"
proof -
  let ?m = "''sendir,1:1,1,38000,1,1,96,24,8''"
  have "gc_count ?m = 6" "gc_values ?m = [38000, 1, 1, 96, 24, 8]" by (simp_all add: values_eval)
  then show ?thesis
    using globalCacheBufferToArray_eq [of ?m "\<lambda>_. True"] by (simp add: cells_with_def malloc_cells_def)
qed

text \<open>
  The burst counts of a PRONTO code are doubled in a \<open>uint16_t\<close>: the count 0x8000 doubles
  to 0, so the length checks are skipped and a code of six values that announces 32768 pairs is
  accepted.
\<close>

theorem pronto_pair_count_wraps:
  "prontoBufferToArray (\<lambda>_. True) ''0000 006D 8000 8000 0010 0020'' (CHR '' '') =
     Inr (Some (6, map Some [0, 0x6D, 0x8000, 0x8000, 0x10, 0x20]), False)"
proof -
  let ?m = "''0000 006D 8000 8000 0010 0020''" and ?vs = "[0, 0x6D, 0x8000, 0x8000, 0x10, 0x20] :: u16 list"
  have "pronto_values (CHR '' '') ?m = ?vs" by (simp add: values_eval)
  moreover have "pronto_valid ?vs" by (simp add: pronto_valid_def)
  ultimately show ?thesis
    using pronto_array [of ?m 6 "CHR '' ''" ?vs "\<lambda>_. True"]
    by (simp add: cells_with_def malloc_cells_def)
qed

text \<open>
  A \<open>sendir\<close> text with fewer than three values makes the \<open>uint16_t\<close> count wrap: the minimum
  length check passes and 128 KB are requested from the heap for no value at all.
\<close>

theorem gc_short_sendir_wraps:
  "globalCacheBufferToArray mem ''sendir,1:1'' =
     (if mem 131070 then Inr (Some (1, Some 1 # malloc_cells 65534), False) else Inr (None, True))"
proof -
  have "gc_count ''sendir,1:1'' = 65535" "gc_values ''sendir,1:1'' = [1]"
    by (simp_all add: values_eval unsigned_minus_1_eq_mask mask_eq_exp_minus_1)
  then show ?thesis
    using gc_array [of "''sendir,1:1''" mem]
    by (simp add: cells_with_def malloc_cells_def)
qed

end
