(* ===== verification/Platform.thy ===== *)
theory Platform
  imports Prelude
begin

text \<open>
  The services the firmware calls and this repository does not contain: FreeRTOS queues and event
  groups, and the Arduino \<open>Preferences\<close> key-value store in flash. Each is a record of operations that
  the definitions of the components take as an argument. What their documentation promises is a
  predicate (\<open>queue_spec\<close>, \<open>eventgroup_spec\<close>, \<open>nvs_spec\<close>) that the theorems which need it state as a
  hypothesis. The \<open>list_queue\<close>, \<open>word_eventgroup\<close> and \<open>map_nvs\<close> instances show that the hypotheses
  can hold; they are used in witnesses only.
\<close>

unbundle bit_operations_syntax

section \<open>FreeRTOS queues\<close>

text \<open>\<open>q_send\<close> is \<open>xQueueSendToBack\<close> (\<open>None\<close>: \<open>errQUEUE_FULL\<close>), \<open>q_waiting\<close> is \<open>uxQueueMessagesWaiting\<close>.\<close>

record ('q, 'm) queue_ops =
  q_waiting :: "'q \<Rightarrow> nat"
  q_send :: "'q \<Rightarrow> 'm \<Rightarrow> 'q option"
  q_peek :: "'q \<Rightarrow> 'm option"
  q_receive :: "'q \<Rightarrow> ('m \<times> 'q) option"
  q_reset :: "'q \<Rightarrow> 'q"

text \<open>A queue of length \<open>n\<close> whose elements, front first, are \<open>contents q\<close>.\<close>

definition queue_spec :: "nat \<Rightarrow> ('q \<Rightarrow> 'm list) \<Rightarrow> ('q, 'm) queue_ops \<Rightarrow> bool" where
  "queue_spec n contents ops \<longleftrightarrow>
     (\<forall>q. length (contents q) \<le> n) \<and>
     (\<forall>q. q_waiting ops q = length (contents q)) \<and>
     (\<forall>q m. if length (contents q) < n
            then (\<exists>q'. q_send ops q m = Some q' \<and> contents q' = contents q @ [m])
            else q_send ops q m = None) \<and>
     (\<forall>q. q_peek ops q = (case contents q of [] \<Rightarrow> None | m # _ \<Rightarrow> Some m)) \<and>
     (\<forall>q. case q_receive ops q of
            None \<Rightarrow> contents q = []
          | Some (m, q') \<Rightarrow> contents q = m # contents q') \<and>
     (\<forall>q. contents (q_reset ops q) = [])"

lemma queue_waiting: "queue_spec n contents ops \<Longrightarrow> q_waiting ops q = length (contents q)"
  and queue_length: "queue_spec n contents ops \<Longrightarrow> length (contents q) \<le> n"
  and queue_peek:
    "queue_spec n contents ops \<Longrightarrow>
     q_peek ops q = (case contents q of [] \<Rightarrow> None | m # _ \<Rightarrow> Some m)"
  and queue_reset: "queue_spec n contents ops \<Longrightarrow> contents (q_reset ops q) = []"
  by (auto simp: queue_spec_def)

lemma queue_send_Some:
  "queue_spec n contents ops \<Longrightarrow> q_send ops q m = Some q' \<Longrightarrow>
   length (contents q) < n \<and> contents q' = contents q @ [m]"
  unfolding queue_spec_def by (metis option.distinct(1) option.inject)

lemma queue_send_ok:
  "queue_spec n contents ops \<Longrightarrow> length (contents q) < n \<Longrightarrow> \<exists>q'. q_send ops q m = Some q'"
  unfolding queue_spec_def by metis

lemma queue_send_full:
  "queue_spec n contents ops \<Longrightarrow> \<not> length (contents q) < n \<Longrightarrow> q_send ops q m = None"
  unfolding queue_spec_def by metis

lemma queue_receive:
  "queue_spec n contents ops \<Longrightarrow>
   (case q_receive ops q of
      None \<Rightarrow> contents q = []
    | Some (m, q') \<Rightarrow> contents q = m # contents q')"
  by (simp add: queue_spec_def)

definition list_queue :: "nat \<Rightarrow> ('m list, 'm) queue_ops" where
  "list_queue n = \<lparr>
     q_waiting = (\<lambda>q. length (take n q)),
     q_send = (\<lambda>q m. if length (take n q) < n then Some (q @ [m]) else None),
     q_peek = (\<lambda>q. case take n q of [] \<Rightarrow> None | m # _ \<Rightarrow> Some m),
     q_receive = (\<lambda>q. case take n q of [] \<Rightarrow> None | m # ms \<Rightarrow> Some (m, ms)),
     q_reset = (\<lambda>q. [])\<rparr>"

lemma list_queue_spec: "queue_spec n (take n) (list_queue n)"
proof -
  have "take n ms = ms" if "take n q = m # ms" for q :: "'a list" and m ms
  proof -
    have "length (take n q) \<le> n" by simp
    with that show ?thesis by simp
  qed
  then show ?thesis
    by (auto simp: queue_spec_def list_queue_def split: list.split)
qed

section \<open>FreeRTOS event groups\<close>

record 'e eventgroup_ops =
  eg_get :: "'e \<Rightarrow> u32"
  eg_set :: "'e \<Rightarrow> u32 \<Rightarrow> 'e"
  eg_clear :: "'e \<Rightarrow> u32 \<Rightarrow> 'e"

text \<open>The lower 24 bits are the application's.\<close>

definition app_bits :: "u32 \<Rightarrow> bool" where
  "app_bits b \<longleftrightarrow> b AND 0xFF000000 = 0"

definition eventgroup_spec :: "'e eventgroup_ops \<Rightarrow> bool" where
  "eventgroup_spec ops \<longleftrightarrow>
     (\<forall>e b. app_bits b \<longrightarrow> eg_get ops (eg_set ops e b) = eg_get ops e OR b) \<and>
     (\<forall>e b. app_bits b \<longrightarrow> eg_get ops (eg_clear ops e b) = eg_get ops e AND NOT b)"

lemma eg_get_set:
  "eventgroup_spec ops \<Longrightarrow> app_bits b \<Longrightarrow> eg_get ops (eg_set ops e b) = eg_get ops e OR b"
  and eg_get_clear:
  "eventgroup_spec ops \<Longrightarrow> app_bits b \<Longrightarrow> eg_get ops (eg_clear ops e b) = eg_get ops e AND NOT b"
  by (simp_all add: eventgroup_spec_def)

definition word_eventgroup :: "u32 eventgroup_ops" where
  "word_eventgroup = \<lparr>eg_get = (\<lambda>e. e), eg_set = (\<lambda>e b. e OR b), eg_clear = (\<lambda>e b. e AND NOT b)\<rparr>"

lemma word_eventgroup_spec: "eventgroup_spec word_eventgroup"
  by (simp add: eventgroup_spec_def word_eventgroup_def)

section \<open>The flash key-value store\<close>

datatype nvs_value = NvsStr string | NvsInt int | NvsUShort u16 | NvsBool bool

record 'n nvs_ops =
  nvs_begin :: "'n \<Rightarrow> string \<Rightarrow> bool"
  nvs_get :: "'n \<Rightarrow> string \<Rightarrow> string \<Rightarrow> nvs_value option"
  nvs_put :: "'n \<Rightarrow> string \<Rightarrow> string \<Rightarrow> nvs_value \<Rightarrow> 'n"
  nvs_clear :: "'n \<Rightarrow> string \<Rightarrow> 'n"
  nvs_erase :: "'n \<Rightarrow> 'n"

text \<open>A store with space left: what was put is read back, other keys are left alone.\<close>

definition nvs_spec :: "'n nvs_ops \<Rightarrow> bool" where
  "nvs_spec ops \<longleftrightarrow>
     (\<forall>n ns k v ns' k'. nvs_get ops (nvs_put ops n ns k v) ns' k' =
        (if ns' = ns \<and> k' = k then Some v else nvs_get ops n ns' k')) \<and>
     (\<forall>n ns k v. nvs_begin ops (nvs_put ops n ns k v) = nvs_begin ops n) \<and>
     (\<forall>n ns ns' k. nvs_get ops (nvs_clear ops n ns) ns' k =
        (if ns' = ns then None else nvs_get ops n ns' k)) \<and>
     (\<forall>n ns. nvs_begin ops (nvs_clear ops n ns) = nvs_begin ops n) \<and>
     (\<forall>n ns k. nvs_get ops (nvs_erase ops n) ns k = None)"

lemma nvs_get_put:
    "nvs_spec ops \<Longrightarrow> nvs_get ops (nvs_put ops n ns k v) ns' k' =
       (if ns' = ns \<and> k' = k then Some v else nvs_get ops n ns' k')"
  and nvs_begin_put: "nvs_spec ops \<Longrightarrow> nvs_begin ops (nvs_put ops n ns k v) = nvs_begin ops n"
  and nvs_get_clear:
    "nvs_spec ops \<Longrightarrow> nvs_get ops (nvs_clear ops n ns) ns' k =
       (if ns' = ns then None else nvs_get ops n ns' k)"
  and nvs_begin_clear: "nvs_spec ops \<Longrightarrow> nvs_begin ops (nvs_clear ops n ns) = nvs_begin ops n"
  and nvs_get_erase: "nvs_spec ops \<Longrightarrow> nvs_get ops (nvs_erase ops n) ns k = None"
  by (simp_all add: nvs_spec_def)

lemmas nvs_laws = nvs_get_put nvs_begin_put nvs_get_clear nvs_begin_clear nvs_get_erase

definition map_nvs :: "(string \<times> string \<Rightarrow> nvs_value option) nvs_ops" where
  "map_nvs = \<lparr>
     nvs_begin = (\<lambda>n ns. True),
     nvs_get = (\<lambda>n ns k. n (ns, k)),
     nvs_put = (\<lambda>n ns k v. n((ns, k) := Some v)),
     nvs_clear = (\<lambda>n ns (ns', k). if ns' = ns then None else n (ns', k)),
     nvs_erase = (\<lambda>n _. None)\<rparr>"

lemma map_nvs_spec: "nvs_spec map_nvs"
  by (auto simp: nvs_spec_def map_nvs_def)

end
