(* ===== verification/Log.thy ===== *)
theory Log
  imports Prelude
begin

text \<open>
  \<open>src/lib/log\<close>: the logger's level filter and its two outputs, the serial line and syslog. The
  other components call it only to report; their models leave those calls out.
\<close>

unbundle bit_operations_syntax

datatype Level = EMERG | ALERT | CRIT | LOG_ERROR | WARN | NOTICE | INFO | DEBUG

primrec level_num :: "Level \<Rightarrow> nat" where
  "level_num EMERG = 0"
| "level_num ALERT = 1"
| "level_num CRIT = 2"
| "level_num LOG_ERROR = 3"
| "level_num WARN = 4"
| "level_num NOTICE = 5"
| "level_num INFO = 6"
| "level_num DEBUG = 7"

text \<open>\<open>static_cast<UCLog::Level>\<close>, which the callers apply to 0..7 only.\<close>

definition level_of_num :: "nat \<Rightarrow> Level" where
  "level_of_num n =
     (if n = 0 then EMERG else if n = 1 then ALERT else if n = 2 then CRIT
      else if n = 3 then LOG_ERROR else if n = 4 then WARN else if n = 5 then NOTICE
      else if n = 6 then INFO else DEBUG)"

lemma level_num_le: "level_num l \<le> 7"
  by (cases l) simp_all

lemma level_of_num_num [simp]: "level_of_num (level_num l) = l"
  by (cases l) (simp_all add: level_of_num_def)

lemma level_num_of_num: "n \<le> 7 \<Longrightarrow> level_num (level_of_num n) = n"
  by (auto simp: level_of_num_def)

text \<open>Levels are ordered by their number, as the enumeration is.\<close>

instantiation Level :: linorder
begin

definition less_eq_Level :: "Level \<Rightarrow> Level \<Rightarrow> bool" where
  "less_eq_Level a b \<longleftrightarrow> level_num a \<le> level_num b"

definition less_Level :: "Level \<Rightarrow> Level \<Rightarrow> bool" where
  "less_Level a b \<longleftrightarrow> level_num a < level_num b"

instance
proof
  fix a b :: Level
  assume "a \<le> b" "b \<le> a"
  then have "level_num a = level_num b" by (simp add: less_eq_Level_def)
  then show "a = b" by (metis level_of_num_num)
qed (auto simp: less_eq_Level_def less_Level_def)

end

record UCLog =
  log_filter :: Level
  log_serial :: bool
  log_syslog :: bool
  log_hostname :: string
  log_server :: string
  log_port :: u16

text \<open>The members' initial values; the strings are empty, the port is not initialised by the code.\<close>

definition log_init :: "u16 \<Rightarrow> UCLog" where
  "log_init port = \<lparr>log_filter = INFO, log_serial = True, log_syslog = False,
     log_hostname = [], log_server = [], log_port = port\<rparr>"

text \<open>\<open>SyslogText\<close> is the line of the overload for texts in flash memory: it has no context.\<close>

datatype LogOut =
    SerialLine string nat string string
  | SyslogLine Level string string
  | SyslogText Level string

definition setSyslog :: "string \<Rightarrow> string \<Rightarrow> u16 \<Rightarrow> UCLog \<Rightarrow> UCLog" where
  "setSyslog hostname server port l =
     l\<lparr>log_hostname := hostname, log_server := server, log_port := port\<rparr>"

definition log_enableSyslog_server :: "string \<Rightarrow> string \<Rightarrow> u16 \<Rightarrow> UCLog \<Rightarrow> UCLog" where
  "log_enableSyslog_server hostname server port l =
     l\<lparr>log_hostname := hostname, log_server := server, log_port := port, log_syslog := True\<rparr>"

definition log_enableSyslog :: "bool \<Rightarrow> UCLog \<Rightarrow> UCLog" where
  "log_enableSyslog enable l = l\<lparr>log_syslog := enable\<rparr>"

definition setFilterLevel :: "Level \<Rightarrow> UCLog \<Rightarrow> UCLog" where
  "setFilterLevel level l = l\<lparr>log_filter := level\<rparr>"

definition getFilterLevel :: "UCLog \<Rightarrow> Level" where
  "getFilterLevel l = log_filter l"

definition enableSerial :: "bool \<Rightarrow> UCLog \<Rightarrow> UCLog" where
  "enableSerial enable l = l\<lparr>log_serial := enable\<rparr>"

text \<open>The WiFi library's status bits, whose values are its own.\<close>

record wifi_status_bits =
  ETH_CONNECTED_BIT :: u32
  STA_CONNECTED_BIT :: u32
  ETH_HAS_IP_BIT :: u32
  ETH_HAS_IP6_BIT :: u32
  STA_HAS_IP_BIT :: u32
  STA_HAS_IP6_BIT :: u32

definition isNetworkConnected :: "wifi_status_bits \<Rightarrow> u32 \<Rightarrow> bool" where
  "isNetworkConnected w status \<longleftrightarrow>
     status AND (ETH_CONNECTED_BIT w OR STA_CONNECTED_BIT w) \<noteq> 0 \<and>
     (status AND (ETH_HAS_IP_BIT w OR ETH_HAS_IP6_BIT w) \<noteq> 0 \<or>
      status AND (STA_HAS_IP_BIT w OR STA_HAS_IP6_BIT w) \<noteq> 0)"

definition log_levels :: "string list" where
  "log_levels = [''F'', ''A'', ''C'', ''E'', ''W'', ''N'', ''I'', ''D'']"

text \<open>\<open>millis\<close> is the time stamp, \<open>net\<close> the answer of \<open>isNetworkConnected\<close>.\<close>

definition writeLog :: "UCLog \<Rightarrow> nat \<Rightarrow> bool \<Rightarrow> Level \<Rightarrow> string \<Rightarrow> string \<Rightarrow> LogOut list" where
  "writeLog l millis net level ctx message =
     (if log_filter l < level then []
      else (if log_serial l
            then [SerialLine (log_levels ! level_num level) millis ctx message] else []) @
           (if log_syslog l \<and> net then [SyslogLine level ctx message] else []))"

definition writeLog_flash :: "UCLog \<Rightarrow> nat \<Rightarrow> bool \<Rightarrow> Level \<Rightarrow> string \<Rightarrow> string \<Rightarrow> LogOut list" where
  "writeLog_flash l millis net level ctx message =
     (if log_filter l < level then []
      else (if log_serial l
            then [SerialLine (log_levels ! level_num level) millis ctx message] else []) @
           (if log_syslog l \<and> net then [SyslogText level message] else []))"

text \<open>The overloads of \<open>log\<close> and its abbreviations.\<close>

definition log_text :: "UCLog \<Rightarrow> nat \<Rightarrow> bool \<Rightarrow> Level \<Rightarrow> string \<Rightarrow> string \<Rightarrow> LogOut list" where
  "log_text l millis net level ctx message = writeLog l millis net level ctx message"

definition log_flash :: "UCLog \<Rightarrow> nat \<Rightarrow> bool \<Rightarrow> Level \<Rightarrow> string \<Rightarrow> string \<Rightarrow> LogOut list" where
  "log_flash l millis net level ctx message = writeLog_flash l millis net level ctx message"

definition log_debug :: "UCLog \<Rightarrow> nat \<Rightarrow> bool \<Rightarrow> string \<Rightarrow> string \<Rightarrow> LogOut list" where
  "log_debug l millis net ctx message = log_text l millis net DEBUG ctx message"

definition log_info :: "UCLog \<Rightarrow> nat \<Rightarrow> bool \<Rightarrow> string \<Rightarrow> string \<Rightarrow> LogOut list" where
  "log_info l millis net ctx message = log_text l millis net INFO ctx message"

definition log_warn :: "UCLog \<Rightarrow> nat \<Rightarrow> bool \<Rightarrow> string \<Rightarrow> string \<Rightarrow> LogOut list" where
  "log_warn l millis net ctx message = log_text l millis net WARN ctx message"

definition log_error :: "UCLog \<Rightarrow> nat \<Rightarrow> bool \<Rightarrow> string \<Rightarrow> string \<Rightarrow> LogOut list" where
  "log_error l millis net ctx message = log_text l millis net LOG_ERROR ctx message"

text \<open>
  \<open>vlogf\<close> formats twice when the first buffer, sized by the format string, is too short:
  \<open>rendered\<close> is the complete text of the format and its arguments.
\<close>

definition vlogf ::
  "UCLog \<Rightarrow> nat \<Rightarrow> bool \<Rightarrow> Level \<Rightarrow> string \<Rightarrow> string \<Rightarrow> string \<Rightarrow> LogOut list" where
  "vlogf l millis net level ctx fmt rendered =
     (if log_filter l < level then []
      else let initialLen = length fmt;
               message = snprintf (initialLen + 1) rendered;
               len = length rendered;
               message' = (if initialLen < len then snprintf (len + 1) rendered else message)
           in writeLog l millis net level ctx message')"

definition logf ::
  "UCLog \<Rightarrow> nat \<Rightarrow> bool \<Rightarrow> Level \<Rightarrow> string \<Rightarrow> string \<Rightarrow> string \<Rightarrow> LogOut list" where
  "logf l millis net level ctx fmt rendered =
     (if log_filter l < level then [] else vlogf l millis net level ctx fmt rendered)"

text \<open>
  Logging a format writes exactly what writing the complete formatted text would: the message
  is never cut, whatever the lengths of the format and of the result, and nothing is written
  above the filter level.
\<close>

theorem logf_eq: "logf l millis net level ctx fmt rendered = writeLog l millis net level ctx rendered"
  by (simp add: logf_def vlogf_def snprintf_def Let_def) (simp add: writeLog_def)

text \<open>
  A text in flash memory is written under the same conditions and to the same outputs; only its
  syslog line lacks the context.
\<close>

lemma log_flash_without_context:
  "log_flash l millis net level ctx message =
     map (\<lambda>out. case out of SyslogLine lv c m \<Rightarrow> SyslogText lv m | _ \<Rightarrow> out)
       (log_text l millis net level ctx message)"
  by (simp add: log_flash_def log_text_def writeLog_flash_def writeLog_def)

text \<open>
  With the filter at \<open>WARN\<close> warnings and errors are written, information and debug texts are not.
\<close>

lemma log_filter_warn:
  assumes "log_filter l = WARN" "log_serial l"
  shows "log_debug l millis net ctx m = []" "log_info l millis net ctx m = []"
    "log_warn l millis net ctx m \<noteq> []" "log_error l millis net ctx m \<noteq> []"
  using assms
  by (simp_all add: log_debug_def log_info_def log_warn_def log_error_def log_text_def writeLog_def less_Level_def)

lemma writeLog_filtered: "level > log_filter l \<Longrightarrow> writeLog l millis net level ctx message = []"
  by (simp add: writeLog_def)

end
