(* ===== verification/Config.thy ===== *)
theory Config
  imports Platform Log
begin

text \<open>
  \<open>src/lib/config/config.cpp\<close> and \<open>src/lib/efuse\<close>: the persistent settings of the dock, each a key of
  the flash store with a default and a validating setter, and the identity burnt into the fuses.

  \<open>Preferences\<close> is the argument \<open>ops\<close> (theory \<open>Platform\<close>). A call between a failed \<open>begin\<close> and
  \<open>end\<close> does nothing, and the reads give the default.
\<close>

section \<open>Fuses\<close>

record device_desc =
  dd_serial :: string
  dd_model :: string
  dd_revision :: string

text \<open>
  The fields hold 8, 7 and 6 bytes in zeroed arrays one byte longer, so each is a terminated
  string: the bytes before the first zero.
\<close>

definition c_string :: "nat \<Rightarrow> string \<Rightarrow> string" where
  "c_string n blob = takeWhile (\<lambda>c. code_of c \<noteq> 0) (take n blob)"

definition Efuse_init :: "string \<Rightarrow> string \<Rightarrow> string \<Rightarrow> device_desc" where
  "Efuse_init serial model revision =
     (let s = c_string 8 serial in
      \<lparr>dd_serial = (if s = [] then ''00000000'' else s),
       dd_model = c_string 7 model, dd_revision = c_string 6 revision\<rparr>)"

section \<open>State\<close>

record 'n config =
  cfg_nvs :: 'n
  cfg_hostname :: string
  cfg_swVersion :: string
  cfg_efuse :: device_desc
  cfg_hwModel :: string \<comment> \<open>the build flag \<open>HW_MODEL\<close>\<close>
  cfg_hwRevision :: string \<comment> \<open>the build flag \<open>HW_REVISION\<close>\<close>
  cfg_maxPriorities :: u16 \<comment> \<open>FreeRTOS's \<open>configMAX_PRIORITIES\<close>\<close>

abbreviation prefGeneral :: string where "prefGeneral \<equiv> ''general''"
abbreviation prefWifi :: string where "prefWifi \<equiv> ''wifi''"

definition defaultLedBrightness :: int where "defaultLedBrightness = 50"
definition defToken :: string where "defToken = ''0000''"

section \<open>Typed access\<close>

definition cfg_open :: "'n nvs_ops \<Rightarrow> 'n config \<Rightarrow> string \<Rightarrow> bool" where
  "cfg_open ops c ns = nvs_begin ops (cfg_nvs c) ns"

definition cfg_lookup :: "'n nvs_ops \<Rightarrow> 'n config \<Rightarrow> string \<Rightarrow> string \<Rightarrow> nvs_value option" where
  "cfg_lookup ops c ns key = (if cfg_open ops c ns then nvs_get ops (cfg_nvs c) ns key else None)"

definition cfg_store :: "'n nvs_ops \<Rightarrow> string \<Rightarrow> string \<Rightarrow> nvs_value \<Rightarrow> 'n config \<Rightarrow> 'n config" where
  "cfg_store ops ns key v c =
     (if cfg_open ops c ns then c\<lparr>cfg_nvs := nvs_put ops (cfg_nvs c) ns key v\<rparr> else c)"

definition getStringSetting :: "'n nvs_ops \<Rightarrow> 'n config \<Rightarrow> string \<Rightarrow> string \<Rightarrow> string \<Rightarrow> string" where
  "getStringSetting ops c ns key dflt =
     (case cfg_lookup ops c ns key of Some (NvsStr s) \<Rightarrow> s | _ \<Rightarrow> dflt)"

definition getBoolSetting :: "'n nvs_ops \<Rightarrow> 'n config \<Rightarrow> string \<Rightarrow> string \<Rightarrow> bool \<Rightarrow> bool" where
  "getBoolSetting ops c ns key dflt =
     (case cfg_lookup ops c ns key of Some (NvsBool b) \<Rightarrow> b | _ \<Rightarrow> dflt)"

definition getUShortSetting :: "'n nvs_ops \<Rightarrow> 'n config \<Rightarrow> string \<Rightarrow> string \<Rightarrow> u16 \<Rightarrow> u16" where
  "getUShortSetting ops c ns key dflt =
     (case cfg_lookup ops c ns key of Some (NvsUShort w) \<Rightarrow> w | _ \<Rightarrow> dflt)"

definition getIntSetting :: "'n nvs_ops \<Rightarrow> 'n config \<Rightarrow> string \<Rightarrow> string \<Rightarrow> int \<Rightarrow> int" where
  "getIntSetting ops c ns key dflt =
     (case cfg_lookup ops c ns key of Some (NvsInt i) \<Rightarrow> i | _ \<Rightarrow> dflt)"

section \<open>LED brightness\<close>

definition clampBrightness :: "int \<Rightarrow> int" where
  "clampBrightness value = (if value < 0 \<or> value > 255 then defaultLedBrightness else value)"

definition getLedBrightness :: "'n nvs_ops \<Rightarrow> 'n config \<Rightarrow> int" where
  "getLedBrightness ops c = getIntSetting ops c prefGeneral ''brightness'' defaultLedBrightness"

definition setLedBrightness :: "'n nvs_ops \<Rightarrow> int \<Rightarrow> 'n config \<Rightarrow> 'n config" where
  "setLedBrightness ops value = cfg_store ops prefGeneral ''brightness'' (NvsInt (clampBrightness value))"

definition getEthLedBrightness :: "'n nvs_ops \<Rightarrow> 'n config \<Rightarrow> int" where
  "getEthLedBrightness ops c = getIntSetting ops c prefGeneral ''eth_brightness'' defaultLedBrightness"

definition setEthLedBrightness :: "'n nvs_ops \<Rightarrow> int \<Rightarrow> 'n config \<Rightarrow> 'n config" where
  "setEthLedBrightness ops value =
     cfg_store ops prefGeneral ''eth_brightness'' (NvsInt (clampBrightness value))"

section \<open>Names\<close>

definition getHostName :: "'n config \<Rightarrow> string" where
  "getHostName c = cfg_hostname c"

definition getFriendlyName :: "'n nvs_ops \<Rightarrow> 'n config \<Rightarrow> string" where
  "getFriendlyName ops c =
     (let friendlyName = getStringSetting ops c prefGeneral ''friendly_name'' [];
          friendlyName' = (if friendlyName = ''null'' then [] else friendlyName)
      in if friendlyName' = [] then getHostName c else friendlyName')"

definition setFriendlyName :: "'n nvs_ops \<Rightarrow> string \<Rightarrow> 'n config \<Rightarrow> 'n config" where
  "setFriendlyName ops value =
     cfg_store ops prefGeneral ''friendly_name''
       (NvsStr (take 40 (if value = ''null'' then [] else value)))"

definition hex_digit :: "nat \<Rightarrow> char" where
  "hex_digit n = (if n < 10 then char_of (48 + n) else char_of (55 + n))"

definition show_02X :: "u8 \<Rightarrow> string" where
  "show_02X b = [hex_digit (unat b div 16), hex_digit (unat b mod 16)]"

definition dockHostName :: "u8 list \<Rightarrow> string" where
  "dockHostName baseMac = snprintf 21 (''UC-Dock-'' @ concat (map show_02X (take 6 baseMac)))"

definition Config_init ::
  "'n nvs_ops \<Rightarrow> 'n \<Rightarrow> u8 list \<Rightarrow> device_desc \<Rightarrow> string \<Rightarrow> string \<Rightarrow> string \<Rightarrow> u16
   \<Rightarrow> 'n config" where
  "Config_init ops nvs baseMac efuse version hwModel hwRevision maxPrio =
     (let c = \<lparr>cfg_nvs = nvs, cfg_hostname = dockHostName baseMac, cfg_swVersion = version,
               cfg_efuse = efuse, cfg_hwModel = hwModel, cfg_hwRevision = hwRevision,
               cfg_maxPriorities = maxPrio\<rparr>
      in if getFriendlyName ops c = [] then setFriendlyName ops (cfg_hostname c) c else c)"

definition getSerial :: "'n config \<Rightarrow> string" where
  "getSerial c = dd_serial (cfg_efuse c)"

definition getModel :: "'n config \<Rightarrow> string" where
  "getModel c = (if dd_model (cfg_efuse c) \<noteq> [] then dd_model (cfg_efuse c) else cfg_hwModel c)"

definition getRevision :: "'n config \<Rightarrow> string" where
  "getRevision c =
     (if dd_revision (cfg_efuse c) \<noteq> [] then dd_revision (cfg_efuse c) else cfg_hwRevision c)"

definition getSoftwareVersion :: "'n config \<Rightarrow> string" where
  "getSoftwareVersion c =
     (case cfg_swVersion c of v # r \<Rightarrow> if v = CHR ''v'' then r else v # r | [] \<Rightarrow> [])"

section \<open>Settings whose setter reports success\<close>

definition cfg_try ::
  "'n nvs_ops \<Rightarrow> string \<Rightarrow> (string \<times> nvs_value) list \<Rightarrow> 'n config \<Rightarrow> bool \<times> 'n config" where
  "cfg_try ops ns kvs c =
     (if cfg_open ops c ns
      then (True, c\<lparr>cfg_nvs := fold (\<lambda>(k, v) n. nvs_put ops n ns k v) kvs (cfg_nvs c)\<rparr>)
      else (False, c))"

definition getWifiSsid :: "'n nvs_ops \<Rightarrow> 'n config \<Rightarrow> string" where
  "getWifiSsid ops c = getStringSetting ops c prefWifi ''ssid'' []"

definition getWifiPassword :: "'n nvs_ops \<Rightarrow> 'n config \<Rightarrow> string" where
  "getWifiPassword ops c = getStringSetting ops c prefWifi ''password'' []"

definition setWifi :: "'n nvs_ops \<Rightarrow> string \<Rightarrow> string \<Rightarrow> 'n config \<Rightarrow> bool \<times> 'n config" where
  "setWifi ops ssid password c =
     (if length ssid > 32 \<or> length password > 63 then (False, c)
      else cfg_try ops prefWifi [(''ssid'', NvsStr ssid), (''password'', NvsStr password)] c)"

definition setLogLevel :: "'n nvs_ops \<Rightarrow> Level \<Rightarrow> 'n config \<Rightarrow> bool \<times> 'n config" where
  "setLogLevel ops level =
     cfg_try ops prefGeneral [(''log_level'', NvsUShort (of_nat (level_num level)))]"

definition setSyslogServer :: "'n nvs_ops \<Rightarrow> string \<Rightarrow> u16 \<Rightarrow> 'n config \<Rightarrow> bool \<times> 'n config" where
  "setSyslogServer ops server port c =
     (if length server > 64 then (False, c)
      else cfg_try ops prefGeneral
             [(''syslog_server'', NvsStr server),
              (''syslog_port'', NvsUShort (if port = 0 then 514 else port))] c)"

definition enableSyslog :: "'n nvs_ops \<Rightarrow> bool \<Rightarrow> 'n config \<Rightarrow> bool \<times> 'n config" where
  "enableSyslog ops enable = cfg_try ops prefGeneral [(''syslog_enabled'', NvsBool enable)]"

definition getTestMode :: "'n nvs_ops \<Rightarrow> 'n config \<Rightarrow> bool" where
  "getTestMode ops c = getBoolSetting ops c prefGeneral ''testmode'' False"

definition setTestMode :: "'n nvs_ops \<Rightarrow> bool \<Rightarrow> 'n config \<Rightarrow> bool \<times> 'n config" where
  "setTestMode ops enable = cfg_try ops prefGeneral [(''testmode'', NvsBool enable)]"

definition getToken :: "'n nvs_ops \<Rightarrow> 'n config \<Rightarrow> string" where
  "getToken ops c = getStringSetting ops c prefGeneral ''token'' defToken"

definition setToken :: "'n nvs_ops \<Rightarrow> string \<Rightarrow> 'n config \<Rightarrow> bool \<times> 'n config" where
  "setToken ops value c =
     (if length value > 64 then (False, c) else cfg_try ops prefGeneral [(''token'', NvsStr value)] c)"

definition getLogLevel :: "'n nvs_ops \<Rightarrow> 'n config \<Rightarrow> Level" where
  "getLogLevel ops c =
     (let level = getUShortSetting ops c prefGeneral ''log_level'' (of_nat (level_num DEBUG))
      in if unat level \<le> 7 then level_of_num (unat level) else DEBUG)"

definition getSyslogServer :: "'n nvs_ops \<Rightarrow> 'n config \<Rightarrow> string" where
  "getSyslogServer ops c = getStringSetting ops c prefGeneral ''syslog_server'' []"

definition getSyslogServerPort :: "'n nvs_ops \<Rightarrow> 'n config \<Rightarrow> u16" where
  "getSyslogServerPort ops c = getUShortSetting ops c prefGeneral ''syslog_port'' 514"

definition isSyslogEnabled :: "'n nvs_ops \<Rightarrow> 'n config \<Rightarrow> bool" where
  "isSyslogEnabled ops c = getBoolSetting ops c prefGeneral ''syslog_enabled'' False"

definition enableNtp :: "'n nvs_ops \<Rightarrow> bool \<Rightarrow> 'n config \<Rightarrow> bool \<times> 'n config" where
  "enableNtp ops enable = cfg_try ops prefGeneral [(''ntp_enabled'', NvsBool enable)]"

definition isNtpEnabled :: "'n nvs_ops \<Rightarrow> 'n config \<Rightarrow> bool" where
  "isNtpEnabled ops c = getBoolSetting ops c prefGeneral ''ntp_enabled'' False"

definition setNtpServer :: "'n nvs_ops \<Rightarrow> string \<Rightarrow> string \<Rightarrow> 'n config \<Rightarrow> bool \<times> 'n config" where
  "setNtpServer ops server1 server2 c =
     (if length server1 > 32 \<or> length server2 > 32 then (False, c)
      else cfg_try ops prefGeneral
             [(''ntp_server1'', NvsStr server1), (''ntp_server2'', NvsStr server2)] c)"

definition getNtpServer1 :: "'n nvs_ops \<Rightarrow> 'n config \<Rightarrow> string" where
  "getNtpServer1 ops c = getStringSetting ops c prefGeneral ''ntp_server1'' ''pool.ntp.org''"

definition getNtpServer2 :: "'n nvs_ops \<Rightarrow> 'n config \<Rightarrow> string" where
  "getNtpServer2 ops c = getStringSetting ops c prefGeneral ''ntp_server2'' []"

section \<open>IR task settings\<close>

definition clampCore :: "u16 \<Rightarrow> u16" where
  "clampCore core = (if core > 1 then 1 else core)"

definition clampPriority :: "u16 \<Rightarrow> u16 \<Rightarrow> u16" where
  "clampPriority maxPrio priority = (if maxPrio \<le> priority then maxPrio - 1 else priority)"

definition getIrSendCore :: "'n nvs_ops \<Rightarrow> 'n config \<Rightarrow> u16" where
  "getIrSendCore ops c = getUShortSetting ops c prefGeneral ''irsend_core'' 1"

definition setIrSendCore :: "'n nvs_ops \<Rightarrow> u16 \<Rightarrow> 'n config \<Rightarrow> bool \<times> 'n config" where
  "setIrSendCore ops core = cfg_try ops prefGeneral [(''irsend_core'', NvsUShort (clampCore core))]"

definition getIrSendPriority :: "'n nvs_ops \<Rightarrow> 'n config \<Rightarrow> u16" where
  "getIrSendPriority ops c = getUShortSetting ops c prefGeneral ''irsend_prio'' 12"

definition setIrSendPriority :: "'n nvs_ops \<Rightarrow> u16 \<Rightarrow> 'n config \<Rightarrow> bool \<times> 'n config" where
  "setIrSendPriority ops priority c =
     cfg_try ops prefGeneral
       [(''irsend_prio'', NvsUShort (clampPriority (cfg_maxPriorities c) priority))] c"

definition getIrLearnCore :: "'n nvs_ops \<Rightarrow> 'n config \<Rightarrow> u16" where
  "getIrLearnCore ops c = getUShortSetting ops c prefGeneral ''irlearn_core'' 1"

definition setIrLearnCore :: "'n nvs_ops \<Rightarrow> u16 \<Rightarrow> 'n config \<Rightarrow> bool \<times> 'n config" where
  "setIrLearnCore ops core = cfg_try ops prefGeneral [(''irlearn_core'', NvsUShort (clampCore core))]"

definition getIrLearnPriority :: "'n nvs_ops \<Rightarrow> 'n config \<Rightarrow> u16" where
  "getIrLearnPriority ops c = getUShortSetting ops c prefGeneral ''irlearn_prio'' 5"

definition setIrLearnPriority :: "'n nvs_ops \<Rightarrow> u16 \<Rightarrow> 'n config \<Rightarrow> bool \<times> 'n config" where
  "setIrLearnPriority ops priority c =
     cfg_try ops prefGeneral
       [(''irlearn_prio'', NvsUShort (clampPriority (cfg_maxPriorities c) priority))] c"

text \<open>The reset clears both namespaces, erases the partition and restarts the ESP.\<close>

definition clear_namespace :: "'n nvs_ops \<Rightarrow> string \<Rightarrow> 'n config \<Rightarrow> 'n config" where
  "clear_namespace ops ns c =
     (if cfg_open ops c ns then c\<lparr>cfg_nvs := nvs_clear ops (cfg_nvs c) ns\<rparr> else c)"

definition Config_reset :: "'n nvs_ops \<Rightarrow> 'n config \<Rightarrow> 'n config" where
  "Config_reset ops c =
     (let c1 = clear_namespace ops prefGeneral c;
          c2 = clear_namespace ops prefWifi c1
      in c2\<lparr>cfg_nvs := nvs_erase ops (cfg_nvs c2)\<rparr>)"

section \<open>The store behind the settings\<close>

lemma cfg_open_try [frame_simps]: "nvs_spec ops \<Longrightarrow> cfg_open ops (snd (cfg_try ops ns kvs c)) = cfg_open ops c"
proof -
  assume spec: "nvs_spec ops"
  have "nvs_begin ops (fold (\<lambda>(k, v) n. nvs_put ops n ns k v) kvs n) = nvs_begin ops n" for n
    by (induction kvs arbitrary: n) (auto simp: nvs_begin_put [OF spec])
  then show ?thesis by (auto simp: cfg_try_def cfg_open_def fun_eq_iff)
qed

lemma cfg_lookup_try:
  assumes spec: "nvs_spec ops"
  shows "cfg_lookup ops (snd (cfg_try ops ns kvs c)) ns' k =
     (if ns' = ns \<and> cfg_open ops c ns
      then (case map_of (rev kvs) k of Some v \<Rightarrow> Some v | None \<Rightarrow> cfg_lookup ops c ns' k)
      else cfg_lookup ops c ns' k)"
proof -
  have "nvs_get ops (fold (\<lambda>(k, v) n. nvs_put ops n ns k v) kvs n) ns' k =
      (if ns' = ns then (case map_of (rev kvs) k of Some v \<Rightarrow> Some v | None \<Rightarrow> nvs_get ops n ns' k)
       else nvs_get ops n ns' k)" for n
    by (induction kvs arbitrary: n) (auto simp: nvs_get_put [OF spec] map_add_def split: option.splits)
  then show ?thesis
    using cfg_open_try [OF spec, of ns kvs c]
    by (auto simp: cfg_lookup_def cfg_try_def split: option.splits)
qed

lemma cfg_store_try: "cfg_store ops ns k v c = snd (cfg_try ops ns [(k, v)] c)"
  by (simp add: cfg_store_def cfg_try_def)

lemma cfg_try_fields [frame_simps]:
  "cfg_hostname (snd (cfg_try ops ns kvs c)) = cfg_hostname c"
  "cfg_swVersion (snd (cfg_try ops ns kvs c)) = cfg_swVersion c"
  "cfg_efuse (snd (cfg_try ops ns kvs c)) = cfg_efuse c"
  "cfg_maxPriorities (snd (cfg_try ops ns kvs c)) = cfg_maxPriorities c"
  by (simp_all add: cfg_try_def)

text \<open>Definitions of the readers and of the writers, for proofs that compute with them.\<close>

lemmas getter_defs = getStringSetting_def getBoolSetting_def getUShortSetting_def getIntSetting_def
  getLedBrightness_def getEthLedBrightness_def getFriendlyName_def getWifiSsid_def
  getWifiPassword_def getTestMode_def getToken_def getLogLevel_def getSyslogServer_def
  getSyslogServerPort_def isSyslogEnabled_def isNtpEnabled_def getNtpServer1_def getNtpServer2_def
  getIrSendCore_def getIrSendPriority_def getIrLearnCore_def getIrLearnPriority_def getHostName_def

lemmas setter_defs = cfg_store_try setLedBrightness_def setEthLedBrightness_def setFriendlyName_def
  setWifi_def setLogLevel_def setSyslogServer_def enableSyslog_def setTestMode_def setToken_def
  enableNtp_def setNtpServer_def setIrSendCore_def setIrSendPriority_def setIrLearnCore_def
  setIrLearnPriority_def

section \<open>The interface of a setting\<close>

text \<open>
  What the API relies on for every setting: a write of an accepted value is read back, as the
  setter normalises it; a rejected one changes nothing. \<open>usable\<close> says that the store can be opened.
\<close>

locale setting =
  fixes usable :: "'c \<Rightarrow> bool"
    and get :: "'c \<Rightarrow> 'v"
    and put :: "'v \<Rightarrow> 'c \<Rightarrow> 'c"
    and accepts :: "'v \<Rightarrow> bool"
    and norm :: "'c \<Rightarrow> 'v \<Rightarrow> 'v"
  assumes get_put: "usable c \<Longrightarrow> accepts v \<Longrightarrow> get (put v c) = norm c v"
    and put_rejected: "\<not> accepts v \<Longrightarrow> put v c = c"
    and usable_put: "usable c \<Longrightarrow> usable (put v c)"
    and norm_put: "norm (put w c) v = norm c v"
begin

lemma get_put_put: "usable c \<Longrightarrow> accepts v \<Longrightarrow> get (put v (put w c)) = norm c v"
  by (simp add: get_put usable_put norm_put)

text \<open>After any sequence of writes the last accepted one counts.\<close>

lemma get_fold_put:
  "usable c \<Longrightarrow> get (fold put vs c) =
     (if filter accepts vs = [] then get c else norm c (last (filter accepts vs)))"
proof (induction vs arbitrary: c)
  case Nil
  then show ?case by simp
next
  case (Cons v vs)
  then show ?case
    by (cases "accepts v") (auto simp: usable_put norm_put get_put put_rejected)
qed

end

definition cfg_usable :: "'n nvs_ops \<Rightarrow> string \<Rightarrow> 'n config \<Rightarrow> bool" where
  "cfg_usable ops ns c \<longleftrightarrow> nvs_spec ops \<and> cfg_open ops c ns"

lemma cfg_usable_try:
  "cfg_usable ops ns c \<Longrightarrow> cfg_usable ops ns (snd (cfg_try ops ns' kvs c))"
  by (simp add: cfg_usable_def frame_simps)

interpretation led_brightness: setting "cfg_usable ops prefGeneral" "getLedBrightness ops"
    "setLedBrightness ops" "\<lambda>_. True" "\<lambda>_. clampBrightness" for ops
  by unfold_locales
    (auto simp: getter_defs setter_defs cfg_lookup_try cfg_usable_def frame_simps)

interpretation eth_brightness: setting "cfg_usable ops prefGeneral" "getEthLedBrightness ops"
    "setEthLedBrightness ops" "\<lambda>_. True" "\<lambda>_. clampBrightness" for ops
  by unfold_locales
    (auto simp: getter_defs setter_defs cfg_lookup_try cfg_usable_def frame_simps)

interpretation token: setting "cfg_usable ops prefGeneral" "getToken ops"
    "\<lambda>v c. snd (setToken ops v c)" "\<lambda>v. length v \<le> 64" "\<lambda>_ v. v" for ops
  by unfold_locales
    (auto simp: getter_defs setter_defs cfg_lookup_try cfg_usable_def frame_simps)

interpretation wifi: setting "cfg_usable ops prefWifi"
    "\<lambda>c. (getWifiSsid ops c, getWifiPassword ops c)"
    "\<lambda>v c. snd (setWifi ops (fst v) (snd v) c)"
    "\<lambda>v. length (fst v) \<le> 32 \<and> length (snd v) \<le> 63" "\<lambda>_ v. v" for ops
  by unfold_locales
    (auto simp: getter_defs setter_defs cfg_lookup_try cfg_usable_def frame_simps)

definition shownName :: "'n config \<Rightarrow> string \<Rightarrow> string" where
  "shownName c v = (if v = [] \<or> v = ''null'' then cfg_hostname c else take 40 v)"

interpretation friendly_name: setting "cfg_usable ops prefGeneral" "getFriendlyName ops"
    "setFriendlyName ops" "\<lambda>_. True" shownName for ops
proof unfold_locales
  fix c v
  assume "cfg_usable ops prefGeneral c"
  moreover have "take 40 v \<noteq> ''null'' \<or> v = ''null''"
  proof (cases "length v \<le> 40")
    case False
    then have "length (take 40 v) \<noteq> length ''null''" by simp
    then show ?thesis by metis
  qed auto
  ultimately show "getFriendlyName ops (setFriendlyName ops v c) = shownName c v"
    by (auto simp: getter_defs setter_defs cfg_lookup_try cfg_usable_def frame_simps shownName_def)
qed (auto simp: setter_defs cfg_usable_def frame_simps shownName_def)

section \<open>Properties of the configuration\<close>

text \<open>
  After any sequence of \<open>setToken\<close> calls \<open>getToken\<close> returns the last token of at most 64
  characters; when all were longer, what it returned before.
\<close>

theorem token_last_accepted:
  assumes "nvs_spec ops" and "cfg_open ops c prefGeneral"
  shows "getToken ops (fold (\<lambda>v c. snd (setToken ops v c)) vs c) =
     (case filter (\<lambda>v. length v \<le> 64) vs of [] \<Rightarrow> getToken ops c | w # ws \<Rightarrow> last (w # ws))"
  using token.get_fold_put [of ops c vs] assms by (simp add: cfg_usable_def split: list.split)

text \<open>
  After any sequence of \<open>setFriendlyName\<close> calls the name is the last one cut to 40
  characters, or the host name when the last one was empty or the text null.
\<close>

theorem friendly_name_last:
  assumes "nvs_spec ops" and "cfg_open ops c prefGeneral"
  shows "getFriendlyName ops (fold (setFriendlyName ops) (vs @ [v]) c) =
     (if v = [] \<or> v = ''null'' then getHostName c else take 40 v)"
  using friendly_name.get_fold_put [of ops c "vs @ [v]"] assms
  by (simp add: cfg_usable_def shownName_def getHostName_def)

text \<open>
  \<open>reset\<close> brings every setting back to its default, whatever was stored: no credential, token
  or name survives a factory reset.
\<close>

theorem Config_reset_defaults:
  assumes "nvs_spec ops" and "d = Config_reset ops c"
  shows "getToken ops d = defToken \<and> getWifiSsid ops d = [] \<and> getWifiPassword ops d = [] \<and>
     getFriendlyName ops d = getHostName c \<and>
     getLedBrightness ops d = defaultLedBrightness \<and> getEthLedBrightness ops d = defaultLedBrightness \<and>
     getLogLevel ops d = DEBUG \<and> \<not> isSyslogEnabled ops d \<and> \<not> isNtpEnabled ops d \<and>
     \<not> getTestMode ops d \<and> getIrSendCore ops d = 1 \<and> getIrSendPriority ops d = 12 \<and>
     getIrLearnCore ops d = 1 \<and> getIrLearnPriority ops d = 5"
  unfolding assms(2) using nvs_get_erase [OF assms(1)]
  by (simp add: getter_defs cfg_lookup_def Config_reset_def clear_namespace_def Let_def level_of_num_def)

definition ex_config :: "(string \<times> string \<Rightarrow> nvs_value option) config" where
  "ex_config = \<lparr>cfg_nvs = (\<lambda>_. None)((''general'', ''token'') := Some (NvsStr ''1234'')),
     cfg_hostname = ''UC-Dock-1'', cfg_swVersion = ''v0.6.0'',
     cfg_efuse = \<lparr>dd_serial = ''12345678'', dd_model = [], dd_revision = []\<rparr>,
     cfg_hwModel = ''UCD2'', cfg_hwRevision = ''5.4'', cfg_maxPriorities = 25\<rparr>"

lemma ex_config_open: "cfg_open map_nvs ex_config ns"
  by (simp add: cfg_open_def map_nvs_def)

theorem token_last_accepted_witness:
  "getToken map_nvs (fold (\<lambda>v c. snd (setToken map_nvs v c)) [''abcd'', replicate 65 (CHR ''x'')] ex_config) =
     ''abcd''"
  using token_last_accepted [OF map_nvs_spec ex_config_open, of "[''abcd'', replicate 65 (CHR ''x'')]"]
  by simp

theorem friendly_name_last_witness:
  "getFriendlyName map_nvs (fold (setFriendlyName map_nvs) [''Kitchen'', ''null''] ex_config) = ''UC-Dock-1''"
  using friendly_name_last [OF map_nvs_spec ex_config_open, of "[''Kitchen'']" "''null''"]
  by (simp add: getHostName_def ex_config_def)

theorem Config_reset_defaults_witness:
  "getToken map_nvs ex_config = ''1234'' \<and> getToken map_nvs (Config_reset map_nvs ex_config) = ''0000''"
proof
  show "getToken map_nvs ex_config = ''1234''"
    using ex_config_open [of prefGeneral]
    by (simp add: getter_defs cfg_lookup_def) (simp add: map_nvs_def ex_config_def)
  show "getToken map_nvs (Config_reset map_nvs ex_config) = ''0000''"
    using Config_reset_defaults [OF map_nvs_spec refl, of ex_config] by (simp add: defToken_def)
qed

end
