(* ===== verification/GlobalCache.thy ===== *)
theory GlobalCache
  imports Prelude
begin

text \<open>
  \<open>src/lib/util/globalcache.hpp\<close> and \<open>util_types.h\<close>: the parser of a Global Cache (iTach) request
  \<open>command[,module:port[,parameters]]\<close>. Pointers into the request are suffixes of it.
\<close>

record GCMsg =
  gm_command :: string
  gm_module :: int
  gm_port :: int
  gm_param :: "string option"

text \<open>\<open>char command[17]\<close>: sixteen characters and the terminating zero.\<close>

definition command_size :: nat where "command_size = 17"

text \<open>
  The returned code is 0 or an iTach error; the message is written as far as the parser got. A
  null argument returns \<open>false\<close>, which is 0.
\<close>

definition parseGcRequest :: "string option \<Rightarrow> GCMsg option \<Rightarrow> nat \<times> GCMsg option" where
  "parseGcRequest request_ptr msg_ptr =
     (case (request_ptr, msg_ptr) of
        (Some request, Some msg) \<Rightarrow>
          (case strchr request (CHR '','') of
             None \<Rightarrow>
               (let cmdLen = length request in
                if command_size \<le> cmdLen then (1, Some msg)
                else (0, Some \<lparr>gm_command = take (min command_size cmdLen) request,
                              gm_module = 0, gm_port = 0, gm_param = None\<rparr>))
           | Some next \<Rightarrow>
               if command_size \<le> ptr_diff next request then (1, Some msg)
               else let msg1 = msg\<lparr>gm_command := take (ptr_diff next request) request\<rparr>;
                        current = tl next
                    in if strchr current (CHR '','') = None \<and> strchr current (CHR '':'') = None
                       then (0, Some (msg1\<lparr>gm_module := 0, gm_port := 0, gm_param := Some current\<rparr>))
                       else if atoi current \<noteq> 1 then (2, Some msg1)
                       else let msg2 = msg1\<lparr>gm_module := 1\<rparr>
                       in case strchr current (CHR '':'') of
                            None \<Rightarrow> (3, Some msg2)
                          | Some colon \<Rightarrow>
                              let port = atoi (tl colon) in
                              if port < 1 \<or> port > 15 then (3, Some msg2)
                              else (0, Some (msg2\<lparr>gm_port := port,
                                gm_param := map_option tl (strchr (tl colon) (CHR '',''))\<rparr>)))
      | _ \<Rightarrow> (0, msg_ptr))"

text \<open>A parsed request: the command fits its array, module and port are both absent or in range.\<close>

definition gc_wf :: "GCMsg \<Rightarrow> bool" where
  "gc_wf m \<longleftrightarrow>
     length (gm_command m) < command_size \<and> CHR '','' \<notin> set (gm_command m) \<and>
     (gm_module m = 0 \<and> gm_port m = 0 \<or> gm_module m = 1 \<and> 1 \<le> gm_port m \<and> gm_port m \<le> 15)"

lemma take_ptr_diff:
  "strchr s c = Some t \<Longrightarrow> length (take (ptr_diff t s) s) = ptr_diff t s \<and> c \<notin> set (take (ptr_diff t s) s)"
  using strchr_prefix by (force simp: ptr_diff_def)

lemma parsed_wf:
  assumes "parseGcRequest (Some request) (Some msg) = (0, Some m)"
  shows "gc_wf m"
  using assms take_ptr_diff [of request "CHR '',''"]
  by (auto simp: parseGcRequest_def gc_wf_def Let_def not_le strchr_None_iff
      split: option.splits if_splits)

lemma parse_codes: "fst (parseGcRequest r m) \<in> {0, 1, 2, 3}"
  by (auto simp: parseGcRequest_def Let_def split: option.splits)

text \<open>The printed form of an addressed request and its parse.\<close>

definition gc_request :: "string \<Rightarrow> int \<Rightarrow> string option \<Rightarrow> string" where
  "gc_request cmd port params =
     cmd @ '',1:'' @ show_int port @ (case params of None \<Rightarrow> [] | Some p \<Rightarrow> CHR '','' # p)"

lemma comma_not_digit: "\<not> is_base_digit 10 (CHR '','')"
  and colon_not_digit: "\<not> is_base_digit 10 (CHR '':'')"
  by (simp_all add: is_base_digit_def digit_value_def code_of_def)

lemma atoi_1_colon: "atoi (CHR ''1'' # CHR '':'' # rest) = 1"
  by (simp add: atoi_def skip_sign_def is_base_digit_def digit_value_def code_of_def isspace_def
      num_value_def)

lemma comma_not_in_show_int: "0 \<le> i \<Longrightarrow> CHR '','' \<notin> set (show_int i)"
  by (simp add: show_int_def show_nat_no_char comma_not_digit)

text \<open>
  C39. A request printed as \<open>command,1:port[,parameters]\<close> parses back to its command, port and
  parameters.
\<close>

theorem parse_gc_request:
  assumes "CHR '','' \<notin> set cmd" "length cmd < command_size" "1 \<le> port" "port \<le> 15"
  shows "parseGcRequest (Some (gc_request cmd port params)) (Some msg) =
     (0, Some \<lparr>gm_command = cmd, gm_module = 1, gm_port = port, gm_param = params\<rparr>)"
proof -
  define tail where "tail = (case params of None \<Rightarrow> [] | Some p \<Rightarrow> CHR '','' # p)"
  have req: "gc_request cmd port params =
      cmd @ CHR '','' # CHR ''1'' # CHR '':'' # show_int port @ tail"
    by (simp add: gc_request_def tail_def)
  have "tail = [] \<or> \<not> is_base_digit 10 (hd tail)"
    by (auto simp: tail_def comma_not_digit split: option.split)
  then have port: "atoi (show_int port @ tail) = port"
    using atoi_show_int [of tail port] assms(3,4) by simp
  have param: "map_option tl (strchr (show_int port @ tail) (CHR '','')) = params"
    using assms(3)
    by (simp add: strchr_append_notin comma_not_in_show_int tail_def split: option.split)
  show ?thesis
    using assms port param
    by (cases msg) (simp add: parseGcRequest_def req strchr_append ptr_diff_def Let_def atoi_1_colon)
qed

theorem parse_gc_request_witness:
  "parseGcRequest (Some ''sendir,1:2,7,38000'') (Some \<lparr>gm_command = [], gm_module = 0, gm_port = 0, gm_param = None\<rparr>) =
     (0, Some \<lparr>gm_command = ''sendir'', gm_module = 1, gm_port = 2, gm_param = Some ''7,38000''\<rparr>)"
proof -
  have "gc_request ''sendir'' 2 (Some ''7,38000'') = ''sendir,1:2,7,38000''" by code_simp
  then show ?thesis
    using parse_gc_request [of "''sendir''" 2 "Some ''7,38000''"
        "\<lparr>gm_command = [], gm_module = 0, gm_port = 0, gm_param = None\<rparr>"]
    by (simp add: command_size_def)
qed

text \<open>
  C40. A request accepted by the parser is well formed: the command name fits its 17-byte array
  and has no comma, and module and port are both absent or module 1 with a port from 1 to 15.
\<close>

theorem parse_wf:
  assumes "parseGcRequest (Some request) (Some msg) = (0, Some m)"
  shows "gc_wf m"
  using assms by (rule parsed_wf)

theorem parse_wf_witness:
  "gc_wf \<lparr>gm_command = ''stopir'', gm_module = 1, gm_port = 15, gm_param = None\<rparr>"
proof (rule parse_wf)
  show "parseGcRequest (Some ''stopir,1:15'') (Some \<lparr>gm_command = [], gm_module = 0, gm_port = 0, gm_param = None\<rparr>) =
     (0, Some \<lparr>gm_command = ''stopir'', gm_module = 1, gm_port = 15, gm_param = None\<rparr>)"
    by code_simp
qed

end
