(* ===== verification/UpdateProcessors.thy ===== *)
theory UpdateProcessors
  imports Prelude
begin

text \<open>
  \<open>src/lib/Update/src/UpdateProcessor*.h/.cpp\<close> and \<open>src/lib/service_ota/DeviceCheckProcessor\<close>: the
  chain of processors an uploaded image goes through. A processor is a class with four virtual
  functions; here a record of four functions over the state of the object. A header function
  reads and rewrites the updater's sector buffer, given as the whole array with the number of
  valid bytes, and every access outside an array is the fault \<open>OutOfBounds\<close>.

  mbedtls is a parameter (\<open>crypto\<close>): message digests, certificate parsing and chain verification,
  the RFC 3161 reply parser and the success of \<open>malloc\<close>.
\<close>

section \<open>The interface\<close>

datatype proc_err = PROC_OK | PROC_AGAIN | PROC_DECLINED | PROC_ERROR

definition U_FLASH :: u32 where "U_FLASH = 0"
definition U_SPIFFS :: u32 where "U_SPIFFS = 100"

definition ESP_IMAGE_HEADER_MAGIC :: u8 where "ESP_IMAGE_HEADER_MAGIC = 0xE9"

type_synonym 's header_result = "fault + proc_err \<times> 's \<times> u8 list \<times> nat"

record 's processor =
  pr_reset :: "'s \<Rightarrow> 's"
  pr_header :: "'s \<Rightarrow> u32 \<Rightarrow> u8 list \<Rightarrow> nat \<Rightarrow> 's header_result"
  pr_payload :: "'s \<Rightarrow> u8 list \<Rightarrow> nat \<Rightarrow> fault + proc_err \<times> 's"
  pr_end :: "'s \<Rightarrow> fault + proc_err \<times> 's"

section \<open>Bytes in memory\<close>

definition rd :: "u8 list \<Rightarrow> nat \<Rightarrow> fault + u8" where
  "rd buf i = (if i < length buf then Inr (buf ! i) else Inl OutOfBounds)"

fun index_of :: "u8 \<Rightarrow> u8 list \<Rightarrow> nat option" where
  "index_of c [] = None"
| "index_of c (x # xs) = (if x = c then Some 0 else map_option Suc (index_of c xs))"

definition memchr :: "u8 list \<Rightarrow> u8 \<Rightarrow> nat \<Rightarrow> nat option" where
  "memchr buf c n = index_of c (take n buf)"

text \<open>The C string at the start of a memory area that holds a zero byte.\<close>

definition char_of_byte :: "u8 \<Rightarrow> char" where "char_of_byte b = char_of (unat b)"

definition cstr :: "u8 list \<Rightarrow> string" where
  "cstr bytes = map char_of_byte (takeWhile (\<lambda>b. b \<noteq> 0) bytes)"

fun strstr :: "string \<Rightarrow> string \<Rightarrow> string option" where
  "strstr s t =
     (if take (length t) s = t then Some s
      else case s of [] \<Rightarrow> None | _ # r \<Rightarrow> strstr r t)"

declare strstr.simps [simp del]

text \<open>\<open>bcopy(buf + from, buf, n)\<close>: the areas may overlap.\<close>

definition move_down :: "u8 list \<Rightarrow> nat \<Rightarrow> nat \<Rightarrow> u8 list" where
  "move_down buf from n = take n (drop from buf) @ drop n buf"

lemma index_of_Some: "index_of c xs = Some i \<Longrightarrow> i < length xs \<and> xs ! i = c \<and> c \<notin> set (take i xs)"
  by (induction xs arbitrary: i) (auto split: if_splits)

lemma index_of_None: "index_of c xs = None \<longleftrightarrow> c \<notin> set xs"
  by (induction xs) auto

lemma index_of_append: "c \<notin> set xs \<Longrightarrow> index_of c (xs @ c # ys) = Some (length xs)"
  by (induction xs) auto

lemma memchr_Some: "memchr buf c n = Some i \<Longrightarrow> i < n \<and> i < length buf \<and> buf ! i = c"
  by (auto simp: memchr_def dest: index_of_Some)

lemma length_move_down [simp]:
  "from + n \<le> length buf \<Longrightarrow> length (move_down buf from n) = length buf"
  by (simp add: move_down_def)

lemma take_move_down:
  "from + n \<le> length buf \<Longrightarrow> take n (move_down buf from n) = take n (drop from buf)"
  by (simp add: move_down_def)

section \<open>\<open>UpdateProcessorLegacy\<close>\<close>

definition legacy_header :: "unit \<Rightarrow> u32 \<Rightarrow> u8 list \<Rightarrow> nat \<Rightarrow> unit header_result" where
  "legacy_header s command buffer len =
     (if command = U_SPIFFS then Inr (PROC_OK, s, buffer, len)
      else if command = U_FLASH then
        bind_res (rd buffer 0) (\<lambda>b.
          Inr (if b = ESP_IMAGE_HEADER_MAGIC then PROC_OK else PROC_ERROR, s, buffer, len))
      else Inr (PROC_ERROR, s, buffer, len))"

definition UpdateProcessorLegacy :: "unit processor" where
  "UpdateProcessorLegacy = \<lparr>
     pr_reset = (\<lambda>s. s),
     pr_header = legacy_header,
     pr_payload = (\<lambda>s buffer len. Inr (PROC_OK, s)),
     pr_end = (\<lambda>s. Inr (PROC_OK, s))\<rparr>"

section \<open>The cryptographic library\<close>

text \<open>The parts of \<open>mbedtls_ts_reply\<close> that are used: \<open>payload_digest\<close> points into the reply, so it
  is given as the bytes from there on.\<close>

record 'c ts_reply =
  rp_digest_type :: nat
  rp_payload_digest :: "u8 list"
  rp_chain :: "'c list"

text \<open>
  \<open>md_start\<close> is \<open>mbedtls_md_setup\<close> followed by \<open>mbedtls_md_starts\<close>; its argument is the \<open>md_info\<close>
  pointer, \<open>None\<close> for a null pointer. Digest types are the numbers of \<open>mbedtls_md_type_t\<close>.
\<close>

record ('c, 'd) crypto =
  ts_reply_parse :: "u8 list \<Rightarrow> 'c ts_reply option"
  md_known :: "nat \<Rightarrow> bool"
  md_get_size :: "nat \<Rightarrow> nat"
  md_start :: "nat option \<Rightarrow> 'd option"
  md_starts :: "'d \<Rightarrow> 'd"
  md_update :: "'d \<Rightarrow> u8 list \<Rightarrow> 'd option"
  md_finish :: "'d \<Rightarrow> u8 list option"
  crt_parse :: "u8 list \<Rightarrow> int + 'c list"
  crt_verify :: "'c list \<Rightarrow> 'c list \<Rightarrow> bool"
  malloc_ok :: "nat \<Rightarrow> bool"
  sizeof_crt :: nat

definition MD_MD5 :: nat where "MD_MD5 = 3"
definition MD_SHA1 :: nat where "MD_SHA1 = 4"
definition MD_SHA224 :: nat where "MD_SHA224 = 5"
definition MD_SHA256 :: nat where "MD_SHA256 = 6"
definition MD_SHA512 :: nat where "MD_SHA512 = 8"

text \<open>
  What the digest functions promise when they succeed: a context stands for the digest type and
  the bytes absorbed so far (\<open>absorbed\<close>), \<open>hash\<close> is the digest of a byte string. \<open>mbedtls_md_setup\<close>
  refuses a null \<open>md_info\<close>.
\<close>

definition md_spec :: "('d \<Rightarrow> nat \<times> u8 list) \<Rightarrow> (nat \<Rightarrow> u8 list \<Rightarrow> u8 list) \<Rightarrow> ('c, 'd) crypto \<Rightarrow> bool" where
  "md_spec absorbed hash cr \<longleftrightarrow>
     (\<forall>t d. md_start cr (Some t) = Some d \<longrightarrow> absorbed d = (t, [])) \<and>
     md_start cr None = None \<and>
     (\<forall>d bs d'. md_update cr d bs = Some d' \<longrightarrow>
        absorbed d' = (fst (absorbed d), snd (absorbed d) @ bs)) \<and>
     (\<forall>d h. md_finish cr d = Some h \<longrightarrow> h = hash (fst (absorbed d)) (snd (absorbed d))) \<and>
     (\<forall>t bs. length (hash t bs) = md_get_size cr t)"

lemma md_start_absorbed:
    "md_spec absorbed hash cr \<Longrightarrow> md_start cr (Some t) = Some d \<Longrightarrow> absorbed d = (t, [])"
  and md_start_null: "md_spec absorbed hash cr \<Longrightarrow> md_start cr None = None"
  and md_update_absorbed:
    "md_spec absorbed hash cr \<Longrightarrow> md_update cr d bs = Some d' \<Longrightarrow>
     absorbed d' = (fst (absorbed d), snd (absorbed d) @ bs)"
  and md_finish_hash:
    "md_spec absorbed hash cr \<Longrightarrow> md_finish cr d = Some h \<Longrightarrow>
     h = hash (fst (absorbed d)) (snd (absorbed d))"
  and length_hash: "md_spec absorbed hash cr \<Longrightarrow> length (hash t bs) = md_get_size cr t"
  by (simp_all add: md_spec_def)

section \<open>\<open>UpdateProcessorRFC3161\<close>\<close>

datatype rfc_state = INIT | RFC | POST

text \<open>
  \<open>_rfc3161\<close> is filled front to back and read once it is full: \<open>rf_blob\<close> holds the bytes stored so
  far, \<open>rf_len\<close> its allocated size. \<open>rf_md_ctx\<close> is \<open>None\<close> for a null or not yet started context.
\<close>

record ('c, 'd, 'n) rfc3161 =
  rf_state :: rfc_state
  rf_blob :: "u8 list option"
  rf_at :: nat
  rf_len :: nat
  rf_md_info :: "nat option"
  rf_md_ctx :: "'d option"
  rf_payload_len :: nat
  rf_reply :: "'c ts_reply option"
  rf_trustChain :: "'c list"
  rf_legacyAllowed :: bool
  rf_next :: 'n

text \<open>\<open>RedWax/1.\<close>\<close>

definition REDWAX_MAGIC_HEADER :: "u8 list" where
  "REDWAX_MAGIC_HEADER = [82, 101, 100, 87, 97, 120, 47, 49, 46]"

definition rfc_init :: "'n \<Rightarrow> ('c, 'd, 'n) rfc3161" where
  "rfc_init next = \<lparr>rf_state = INIT, rf_blob = None, rf_at = 0, rf_len = 0, rf_md_info = None,
     rf_md_ctx = None, rf_payload_len = 0, rf_reply = None, rf_trustChain = [],
     rf_legacyAllowed = False, rf_next = next\<rparr>"

definition rfc_reset :: "('c, 'd, 'n) rfc3161 \<Rightarrow> ('c, 'd, 'n) rfc3161" where
  "rfc_reset s = s\<lparr>rf_md_ctx := None, rf_blob := None, rf_len := 0, rf_at := 0,
     rf_payload_len := 0, rf_state := INIT\<rparr>"

text \<open>\<open>MBEDTLS_ERR_X509_ALLOC_FAILED\<close>\<close>

definition X509_ALLOC_FAILED :: int where "X509_ALLOC_FAILED = - 0x2880"

definition addTrustedCerts ::
  "('c, 'd) crypto \<Rightarrow> u8 list \<Rightarrow> ('c, 'd, 'n) rfc3161 \<Rightarrow> int \<times> ('c, 'd, 'n) rfc3161" where
  "addTrustedCerts cr der s =
     (if \<not> malloc_ok cr (sizeof_crt cr) then (X509_ALLOC_FAILED, s)
      else case crt_parse cr der of
             Inl ret \<Rightarrow> (ret, s)
           | Inr crts \<Rightarrow> (0, s\<lparr>rf_trustChain := crts @ rf_trustChain s\<rparr>))"

definition setTrustedCerts :: "'c list \<Rightarrow> ('c, 'd, 'n) rfc3161 \<Rightarrow> int \<times> ('c, 'd, 'n) rfc3161" where
  "setTrustedCerts chain s = (0, s\<lparr>rf_trustChain := chain\<rparr>)"

definition setAllowLegacyUploads :: "bool \<Rightarrow> ('c, 'd, 'n) rfc3161 \<Rightarrow> int \<times> ('c, 'd, 'n) rfc3161" where
  "setAllowLegacyUploads allowed s = (0, s\<lparr>rf_legacyAllowed := allowed\<rparr>)"

text \<open>The call of the next processor, its state put back into this one.\<close>

definition rfc_next_header ::
  "'n processor \<Rightarrow> ('c, 'd, 'n) rfc3161 \<Rightarrow> u32 \<Rightarrow> u8 list \<Rightarrow> nat \<Rightarrow> ('c, 'd, 'n) rfc3161 header_result" where
  "rfc_next_header nx s command buffer len =
     bind_res (pr_header nx (rf_next s) command buffer len) (\<lambda>(e, n, b, l).
       Inr (e, s\<lparr>rf_next := n\<rparr>, b, l))"

text \<open>\<open>case INIT\<close>: the text line, then the start of the DER blob that gives its length.\<close>

definition rfc_header_init ::
  "('c, 'd) crypto \<Rightarrow> 'n processor \<Rightarrow> ('c, 'd, 'n) rfc3161 \<Rightarrow> u32 \<Rightarrow> u8 list \<Rightarrow> nat \<Rightarrow>
   ('c, 'd, 'n) rfc3161 header_result" where
  "rfc_header_init cr nx s command buffer len =
     (if len < 128 then Inr (PROC_AGAIN, s, buffer, len)
      else if take (length REDWAX_MAGIC_HEADER) buffer \<noteq> REDWAX_MAGIC_HEADER then
        (if rf_legacyAllowed s then rfc_next_header nx s command buffer len
         else Inr (PROC_ERROR, s, buffer, len))
      else case memchr buffer 10 len of
        None \<Rightarrow> Inr (PROC_ERROR, s, buffer, len)
      | Some i \<Rightarrow>
          let buffer = buffer[i := 0]; p = i + 1 in
          bind_res (rd buffer p) (\<lambda>p0.
          if p0 \<noteq> 0x30 then Inr (PROC_ERROR, s, buffer, len)
          else bind_res (rd buffer (p + 1)) (\<lambda>p1.
          if p1 \<noteq> 0x82 then Inr (PROC_ERROR, s, buffer, len)
          else bind_res (rd buffer (p + 2)) (\<lambda>p2. bind_res (rd buffer (p + 3)) (\<lambda>p3.
          let n = unat p2 * 256 + unat p3 + 4; s1 = s\<lparr>rf_len := n\<rparr> in
          if rf_blob s \<noteq> None then Inl AssertFailed
          else if n > 16 * 1024 \<or> \<not> malloc_ok cr n then Inr (PROC_ERROR, s1, buffer, len)
          else
            let len' = len - p in
            if length buffer < p + len' then Inl OutOfBounds
            else Inr (PROC_AGAIN, s1\<lparr>rf_blob := Some [], rf_at := 0, rf_state := RFC\<rparr>,
                      move_down buffer p len', len'))))))"

text \<open>The blob is complete: parse it, start the payload digest, verify the signer's chain.\<close>

definition rfc_verify_reply ::
  "('c, 'd) crypto \<Rightarrow> u8 list \<Rightarrow> ('c, 'd, 'n) rfc3161 \<Rightarrow> proc_err \<times> ('c, 'd, 'n) rfc3161" where
  "rfc_verify_reply cr blob s =
     (case ts_reply_parse cr blob of
        None \<Rightarrow> (PROC_ERROR, s)
      | Some reply \<Rightarrow>
          let s1 = s\<lparr>rf_reply := Some reply\<rparr>; t = rp_digest_type reply in
          if t < MD_SHA256 then (PROC_ERROR, s1)
          else if \<not> md_known cr t then (PROC_ERROR, s1\<lparr>rf_md_info := None\<rparr>)
          else let s2 = s1\<lparr>rf_md_info := Some t\<rparr> in
          (case md_start cr (Some t) of
            None \<Rightarrow> (PROC_ERROR, s2)
          | Some d \<Rightarrow>
              let s3 = s2\<lparr>rf_md_ctx := Some d\<rparr> in
              if rf_trustChain s = [] then (PROC_ERROR, s3)
              else if \<not> crt_verify cr (rp_chain reply) (rf_trustChain s) then (PROC_ERROR, s3)
              else (PROC_AGAIN, s3\<lparr>rf_state := POST\<rparr>)))"

text \<open>\<open>case RFC\<close>: move bytes from the sector buffer into the blob.\<close>

definition rfc_header_rfc ::
  "('c, 'd) crypto \<Rightarrow> ('c, 'd, 'n) rfc3161 \<Rightarrow> u8 list \<Rightarrow> nat \<Rightarrow> ('c, 'd, 'n) rfc3161 header_result" where
  "rfc_header_rfc cr s buffer len =
     (case rf_blob s of
        None \<Rightarrow> Inl OutOfBounds
      | Some blob \<Rightarrow>
          let l = min len (rf_len s - rf_at s) in
          if length buffer < len then Inl OutOfBounds
          else
            let blob' = take (rf_at s) blob @ take l buffer; at = rf_at s + l; len' = len - l;
                buffer' = (if rf_len s \<le> at \<and> len' \<noteq> 0 then move_down buffer l len' else buffer);
                s1 = s\<lparr>rf_blob := Some blob', rf_at := at\<rparr>
            in if at \<noteq> rf_len s then Inr (PROC_AGAIN, s1, buffer', len')
               else case rfc_verify_reply cr blob' s1 of (e, s2) \<Rightarrow> Inr (e, s2, buffer', len'))"

definition rfc_process_header ::
  "('c, 'd) crypto \<Rightarrow> 'n processor \<Rightarrow> ('c, 'd, 'n) rfc3161 \<Rightarrow> u32 \<Rightarrow> u8 list \<Rightarrow> nat \<Rightarrow>
   ('c, 'd, 'n) rfc3161 header_result" where
  "rfc_process_header cr nx s command buffer len =
     (case rf_state s of
        INIT \<Rightarrow> rfc_header_init cr nx s command buffer len
      | RFC \<Rightarrow> rfc_header_rfc cr s buffer len
      | POST \<Rightarrow> rfc_next_header nx s command buffer len)"

definition rfc_process_payload ::
  "('c, 'd) crypto \<Rightarrow> 'n processor \<Rightarrow> ('c, 'd, 'n) rfc3161 \<Rightarrow> u8 list \<Rightarrow> nat \<Rightarrow>
   fault + proc_err \<times> ('c, 'd, 'n) rfc3161" where
  "rfc_process_payload cr nx s buffer len =
     (if rf_blob s = None then
        (if rf_legacyAllowed s then
           bind_res (pr_payload nx (rf_next s) buffer len) (\<lambda>(e, n). Inr (e, s\<lparr>rf_next := n\<rparr>))
         else Inr (PROC_ERROR, s))
      else if length buffer < len then Inl OutOfBounds
      else case Option.bind (rf_md_ctx s) (\<lambda>d. md_update cr d (take len buffer)) of
             None \<Rightarrow> Inr (PROC_ERROR, s)
           | Some d \<Rightarrow> Inr (PROC_OK, s\<lparr>rf_md_ctx := Some d, rf_payload_len := rf_payload_len s + len\<rparr>))"

definition rfc_process_end ::
  "('c, 'd) crypto \<Rightarrow> 'n processor \<Rightarrow> ('c, 'd, 'n) rfc3161 \<Rightarrow> fault + proc_err \<times> ('c, 'd, 'n) rfc3161" where
  "rfc_process_end cr nx s =
     (if rf_blob s = None \<and> rf_legacyAllowed s then
        bind_res (pr_end nx (rf_next s)) (\<lambda>(e, n). Inr (e, s\<lparr>rf_next := n\<rparr>))
      else case Option.bind (rf_md_ctx s) (md_finish cr) of
             None \<Rightarrow> Inr (PROC_ERROR, s)
           | Some h \<Rightarrow>
               (case (rf_reply s, rf_md_info s) of
                  (Some reply, Some t) \<Rightarrow>
                    let n = md_get_size cr t in
                    if length (rp_payload_digest reply) < n then Inl OutOfBounds
                    else Inr (if take n (rp_payload_digest reply) = take n h then PROC_OK else PROC_ERROR,
                              s\<lparr>rf_md_ctx := None\<rparr>)
                | _ \<Rightarrow> Inl Uninitialised))"

definition UpdateProcessorRFC3161 ::
  "('c, 'd) crypto \<Rightarrow> 'n processor \<Rightarrow> ('c, 'd, 'n) rfc3161 processor" where
  "UpdateProcessorRFC3161 cr nx = \<lparr>
     pr_reset = rfc_reset,
     pr_header = rfc_process_header cr nx,
     pr_payload = rfc_process_payload cr nx,
     pr_end = rfc_process_end cr nx\<rparr>"

section \<open>\<open>DeviceCheckProcessor\<close>\<close>

record 'n device_check =
  dc_headerProcessed :: bool
  dc_model :: string
  dc_hwRev :: string
  dc_next :: 'n

definition kMaxHeaderLength :: nat where "kMaxHeaderLength = 128"

definition device_check_init :: "string \<Rightarrow> string \<Rightarrow> 'n \<Rightarrow> 'n device_check" where
  "device_check_init model hwRev chain =
     \<lparr>dc_headerProcessed = False, dc_model = model, dc_hwRev = hwRev, dc_next = chain\<rparr>"

text \<open>The value of \<open>key=\<close> up to the next blank, at most \<open>max_len\<close> characters.\<close>

definition getValueFromHeader :: "string \<Rightarrow> string \<Rightarrow> nat \<Rightarrow> string" where
  "getValueFromHeader header key max_len =
     (let search = snprintf (length key + 2) (key @ ''='') in
      case strstr header search of
        None \<Rightarrow> []
      | Some v0 \<Rightarrow>
          let v = drop (length search) v0 in
          (case strchr v (CHR '' '') of
             Some s \<Rightarrow> take (min (ptr_diff s v) max_len) v
           | None \<Rightarrow> take max_len v))"

text \<open>What follows the first blank of the header line, where the keys are looked up.\<close>

definition header_params :: "u8 list \<Rightarrow> string option" where
  "header_params buffer = strchr (cstr buffer) (CHR '' '')"

text \<open>Both keys are present and name this device.\<close>

definition header_matches :: "string \<Rightarrow> string \<Rightarrow> string \<Rightarrow> bool" where
  "header_matches q required_model required_hwRev \<longleftrightarrow>
     (let model = getValueFromHeader q ''model'' 64; hwRev = getValueFromHeader q ''hw'' 64 in
      \<not> (model = [] \<or> hwRev = []) \<and> \<not> (model \<noteq> required_model \<or> hwRev \<noteq> required_hwRev))"

definition dc_next_header ::
  "'n processor \<Rightarrow> 'n device_check \<Rightarrow> u32 \<Rightarrow> u8 list \<Rightarrow> nat \<Rightarrow> 'n device_check header_result" where
  "dc_next_header nx s command buffer len =
     bind_res (pr_header nx (dc_next s) command buffer len) (\<lambda>(e, n, b, l).
       Inr (e, s\<lparr>dc_next := n\<rparr>, b, l))"

definition dc_process_header ::
  "'n processor \<Rightarrow> 'n device_check \<Rightarrow> u32 \<Rightarrow> u8 list \<Rightarrow> nat \<Rightarrow> 'n device_check header_result" where
  "dc_process_header nx s command buffer len =
     (if dc_headerProcessed s then dc_next_header nx s command buffer len
      else if len < kMaxHeaderLength then Inr (PROC_AGAIN, s, buffer, len)
      else bind_res (rd buffer 0) (\<lambda>b0.
        if b0 \<noteq> hd REDWAX_MAGIC_HEADER then Inr (PROC_ERROR, s, buffer, len)
        else case memchr buffer 10 len of
          None \<Rightarrow> Inr (PROC_ERROR, s, buffer, len)
        | Some p \<Rightarrow>
            let buffer' = buffer[p := 0] in
            (case header_params buffer' of
               None \<Rightarrow> Inr (PROC_ERROR, s, buffer', len)
             | Some q \<Rightarrow>
                 if \<not> header_matches q (dc_model s) (dc_hwRev s) then Inr (PROC_ERROR, s, buffer', len)
                 else dc_next_header nx (s\<lparr>dc_headerProcessed := True\<rparr>) command (buffer'[p := 10]) len)))"

definition DeviceCheckProcessor :: "'n processor \<Rightarrow> 'n device_check processor" where
  "DeviceCheckProcessor nx = \<lparr>
     pr_reset = (\<lambda>s. s),
     pr_header = dc_process_header nx,
     pr_payload = (\<lambda>s buff len. Inr (PROC_OK, s)),
     pr_end = (\<lambda>s. Inr (PROC_OK, s))\<rparr>"

section \<open>\<open>UpdateProcessorWithChecksum\<close>\<close>

text \<open>
  \<open>wc_md_ctx\<close>: a null pointer (\<open>None\<close>), an allocated context that was not set up (\<open>Some None\<close>) or a
  started one.
\<close>

record ('d, 'n) with_checksum =
  wc_next :: 'n
  wc_md_info :: "nat option"
  wc_md_ctx :: "'d option option"
  wc_md :: "u8 list"

definition with_checksum_init :: "u8 list \<Rightarrow> 'n \<Rightarrow> ('d, 'n) with_checksum" where
  "with_checksum_init garbage next =
     \<lparr>wc_next = next, wc_md_info = None, wc_md_ctx = None, wc_md = garbage\<rparr>"

definition md_type_of_length :: "nat \<Rightarrow> nat option" where
  "md_type_of_length n =
     (if n = 32 then Some MD_MD5 else if n = 40 then Some MD_SHA1 else if n = 56 then Some MD_SHA224
      else if n = 64 then Some MD_SHA256 else if n = 128 then Some MD_SHA512 else None)"

definition hex_value :: "char \<Rightarrow> u8 option" where
  "hex_value c =
     (let n = code_of c in
      if 48 \<le> n \<and> n \<le> 57 then Some (of_nat (n - 48))
      else if 97 \<le> n \<and> n \<le> 102 then Some (of_nat (n - 97 + 10))
      else if 65 \<le> n \<and> n \<le> 70 then Some (of_nat (n - 65 + 10))
      else None)"

text \<open>The loop over the hex digits; the digest read so far stays in \<open>_md\<close> when a digit is bad.\<close>

fun hex_loop :: "string \<Rightarrow> nat \<Rightarrow> u8 list \<Rightarrow> bool \<times> u8 list" where
  "hex_loop [] i md = (True, md)"
| "hex_loop (ch # rest) i md =
     (case hex_value ch of
        None \<Rightarrow> (False, md)
      | Some c \<Rightarrow>
          hex_loop rest (Suc i)
            (if odd i then md[i div 2 := or (md ! (i div 2)) c] else md[i div 2 := push_bit 4 c]))"

definition setChecksum ::
  "('c, 'd) crypto \<Rightarrow> string \<Rightarrow> nat \<Rightarrow> ('d, 'n) with_checksum \<Rightarrow> proc_err \<times> ('d, 'n) with_checksum" where
  "setChecksum cr crc md_type s =
     (case (if md_type = 0 then md_type_of_length (length crc) else Some md_type) of
        None \<Rightarrow> (PROC_ERROR, s)
      | Some t \<Rightarrow>
          if \<not> md_known cr t then (PROC_ERROR, s)
          else if md_get_size cr t * 2 \<noteq> length crc then (PROC_ERROR, s)
          else case hex_loop crc 0 (wc_md s) of
            (False, md) \<Rightarrow> (PROC_ERROR, s\<lparr>wc_md := md\<rparr>)
          | (True, md) \<Rightarrow>
              let ctx = md_start cr (wc_md_info s) in
              (if ctx = None then PROC_ERROR else PROC_OK, s\<lparr>wc_md := md, wc_md_ctx := Some ctx\<rparr>))"

definition with_checksum_reset ::
  "('c, 'd) crypto \<Rightarrow> ('d, 'n) with_checksum \<Rightarrow> ('d, 'n) with_checksum" where
  "with_checksum_reset cr s = s\<lparr>wc_md_ctx := map_option (map_option (md_starts cr)) (wc_md_ctx s)\<rparr>"

definition wc_process_payload ::
  "('c, 'd) crypto \<Rightarrow> 'n processor \<Rightarrow> ('d, 'n) with_checksum \<Rightarrow> u8 list \<Rightarrow> nat \<Rightarrow>
   fault + proc_err \<times> ('d, 'n) with_checksum" where
  "wc_process_payload cr nx s buffer len =
     (case wc_md_ctx s of
        Some (Some d) \<Rightarrow>
          if length buffer < len then Inl OutOfBounds
          else (case md_update cr d (take len buffer) of
                  None \<Rightarrow> Inr (PROC_ERROR, s)
                | Some d' \<Rightarrow>
                    bind_res (pr_payload nx (wc_next s) buffer len) (\<lambda>(e, n).
                      Inr (e, s\<lparr>wc_md_ctx := Some (Some d'), wc_next := n\<rparr>)))
      | _ \<Rightarrow> Inr (PROC_ERROR, s))"

definition wc_process_end ::
  "('c, 'd) crypto \<Rightarrow> 'n processor \<Rightarrow> ('d, 'n) with_checksum \<Rightarrow> fault + proc_err \<times> ('d, 'n) with_checksum" where
  "wc_process_end cr nx s =
     (case Option.bind (wc_md_ctx s) (\<lambda>c. Option.bind c (md_finish cr)) of
        None \<Rightarrow> Inr (PROC_ERROR, s)
      | Some h \<Rightarrow>
          let n = (case wc_md_info s of None \<Rightarrow> 0 | Some t \<Rightarrow> md_get_size cr t);
              s1 = s\<lparr>wc_md_ctx := None\<rparr> in
          if take n (wc_md s) \<noteq> take n h then Inr (PROC_ERROR, s1)
          else bind_res (pr_end nx (wc_next s1)) (\<lambda>(e, m). Inr (e, s1\<lparr>wc_next := m\<rparr>)))"

definition UpdateProcessorWithChecksum ::
  "('c, 'd) crypto \<Rightarrow> 'n processor \<Rightarrow> ('d, 'n) with_checksum processor" where
  "UpdateProcessorWithChecksum cr nx = \<lparr>
     pr_reset = with_checksum_reset cr,
     pr_header = (\<lambda>s command buffer len. Inr (PROC_OK, s, buffer, len)),
     pr_payload = wc_process_payload cr nx,
     pr_end = wc_process_end cr nx\<rparr>"

text \<open>
  A checksum can never be set: \<open>setChecksum\<close> starts the digest with the member \<open>_md_info\<close>, which
  the constructor leaves null and nothing assigns, so it reports an error for every checksum and
  every digest type, also for a correct one.
\<close>

theorem setChecksum_never_ok:
  assumes "md_start cr None = None" "wc_md_info s = None"
  shows "fst (setChecksum cr crc md_type s) = PROC_ERROR \<and>
    wc_md_info (snd (setChecksum cr crc md_type s)) = None"
proof (cases "hex_loop crc 0 (wc_md s)")
  case (Pair ok md)
  with assms show ?thesis by (cases ok) (simp_all add: setChecksum_def Let_def split: option.split)
qed

lemma processor_simps [simp]:
  "pr_reset (UpdateProcessorRFC3161 cr nx) = rfc_reset"
  "pr_header (UpdateProcessorRFC3161 cr nx) = rfc_process_header cr nx"
  "pr_payload (UpdateProcessorRFC3161 cr nx) = rfc_process_payload cr nx"
  "pr_end (UpdateProcessorRFC3161 cr nx) = rfc_process_end cr nx"
  "pr_reset (DeviceCheckProcessor nx) = (\<lambda>s. s)"
  "pr_header (DeviceCheckProcessor nx) = dc_process_header nx"
  "pr_payload (DeviceCheckProcessor nx) = (\<lambda>s buff len. Inr (PROC_OK, s))"
  "pr_end (DeviceCheckProcessor nx) = (\<lambda>s. Inr (PROC_OK, s))"
  "pr_reset UpdateProcessorLegacy = (\<lambda>s. s)"
  "pr_header UpdateProcessorLegacy = legacy_header"
  "pr_payload UpdateProcessorLegacy = (\<lambda>s buffer len. Inr (PROC_OK, s))"
  "pr_end UpdateProcessorLegacy = (\<lambda>s. Inr (PROC_OK, s))"
  by (simp_all add: UpdateProcessorRFC3161_def DeviceCheckProcessor_def UpdateProcessorLegacy_def)

section \<open>The contract the updater relies on\<close>

text \<open>
  A header function keeps the size of the sector buffer and never adds valid bytes; a payload is
  never answered by \<open>AGAIN\<close>, which the updater would retry for ever.
\<close>

locale update_processor =
  fixes P :: "'s processor"
  assumes header_shape:
      "len \<le> length buffer \<Longrightarrow> pr_header P s command buffer len = Inr (e, s', buffer', len') \<Longrightarrow>
       length buffer' = length buffer \<and> len' \<le> len"
    and payload_not_again:
      "pr_payload P s buffer len = Inr (e, s') \<Longrightarrow> e \<noteq> PROC_AGAIN"
begin

lemma rfc_next_shape:
  "len \<le> length buffer \<Longrightarrow> rfc_next_header P s command buffer len = Inr (e, s', buffer', len') \<Longrightarrow>
   length buffer' = length buffer \<and> len' \<le> len"
  by (auto simp: rfc_next_header_def bind_res_Inr_iff dest!: header_shape)

lemma rfc_init_shape:
  assumes "len \<le> length buffer"
    and "rfc_header_init cr P s command buffer len = Inr (e, s', buffer', len')"
  shows "length buffer' = length buffer \<and> len' \<le> len"
proof (cases "memchr buffer 10 len")
  case None
  with assms rfc_next_shape [OF assms(1), of s command e s' buffer' len'] show ?thesis
    by (simp add: rfc_header_init_def split: if_splits)
next
  case (Some i)
  with memchr_Some have "i < len" by blast
  with Some assms rfc_next_shape [OF assms(1), of s command e s' buffer' len'] show ?thesis
    by (auto simp: rfc_header_init_def bind_res_Inr_iff Let_def split: if_splits)
qed

lemma rfc_shape:
  assumes "len \<le> length buffer"
    and "rfc_process_header cr P s command buffer len = Inr (e, s', buffer', len')"
  shows "length buffer' = length buffer \<and> len' \<le> len"
  using assms rfc_next_shape [OF assms(1), of s command e s' buffer' len']
    rfc_init_shape [OF assms(1), of cr s command e s' buffer' len']
  by (cases "rf_state s")
    (auto simp: rfc_process_header_def rfc_header_rfc_def Let_def
      split: if_splits option.splits prod.splits)

lemma dc_next_shape:
  "len \<le> length buffer \<Longrightarrow> dc_next_header P s command buffer len = Inr (e, s', buffer', len') \<Longrightarrow>
   length buffer' = length buffer \<and> len' \<le> len"
  by (auto simp: dc_next_header_def bind_res_Inr_iff dest!: header_shape)

lemma device_check_shape:
  assumes "len \<le> length buffer"
    and "dc_process_header P s command buffer len = Inr (e, s', buffer', len')"
  shows "length buffer' = length buffer \<and> len' \<le> len"
proof -
  consider (passed) b t where "dc_next_header P t command b len = Inr (e, s', buffer', len')"
      "length b = length buffer"
    | (stopped) "len' = len" "length buffer' = length buffer"
    using assms(2) unfolding dc_process_header_def Let_def
    by (cases "memchr buffer 10 len")
      (auto simp: bind_res_Inr_iff split: if_split_asm option.split_asm)
  then show ?thesis
  proof cases
    case passed
    with dc_next_shape [of len b t command e s' buffer' len'] assms(1) show ?thesis by simp
  next
    case stopped
    then show ?thesis by simp
  qed
qed

lemma rfc_processor: "update_processor (UpdateProcessorRFC3161 cr P)"
proof (unfold_locales, unfold processor_simps)
  show "length buffer' = length buffer \<and> len' \<le> len"
    if "len \<le> length buffer" "rfc_process_header cr P s command buffer len = Inr (e, s', buffer', len')"
    for len buffer s command e s' buffer' len'
    using that by (rule rfc_shape)
  show "e \<noteq> PROC_AGAIN" if "rfc_process_payload cr P s buffer len = Inr (e, s')"
    for s buffer len e s'
    using that
    by (auto simp: rfc_process_payload_def bind_res_Inr_iff
        split: if_splits option.splits dest: payload_not_again)
qed

lemma device_check_processor: "update_processor (DeviceCheckProcessor P)"
  by (unfold_locales, unfold processor_simps) (rule device_check_shape, assumption+, simp)

lemma with_checksum_processor: "update_processor (UpdateProcessorWithChecksum cr P)"
  by unfold_locales
    (auto simp: UpdateProcessorWithChecksum_def wc_process_payload_def bind_res_Inr_iff
      split: if_splits option.splits dest: payload_not_again)

end

interpretation legacy: update_processor UpdateProcessorLegacy
  by unfold_locales
    (auto simp: legacy_header_def bind_res_Inr_iff split: if_splits)

interpretation rfc: update_processor "UpdateProcessorRFC3161 cr UpdateProcessorLegacy" for cr
  by (rule legacy.rfc_processor)

text \<open>The chain the firmware installs (\<open>OtaService::init\<close>).\<close>

definition ota_processor ::
  "('c, 'd) crypto \<Rightarrow> ('c, 'd, unit) rfc3161 device_check processor" where
  "ota_processor cr = DeviceCheckProcessor (UpdateProcessorRFC3161 cr UpdateProcessorLegacy)"

interpretation ota: update_processor "ota_processor cr" for cr
  unfolding ota_processor_def by (rule rfc.device_check_processor)

interpretation checksum: update_processor "UpdateProcessorWithChecksum cr UpdateProcessorLegacy" for cr
  by (rule legacy.with_checksum_processor)

end
