(* ===== verification/Updater.thy ===== *)
theory Updater
  imports UpdateProcessors
begin

text \<open>
  \<open>src/lib/Update/src/UpdateEx.h\<close> and \<open>Updater.cpp\<close>: the class \<open>UpdateClassEx\<close> that collects an
  uploaded image in a sector buffer, passes it through a processor and writes it to a flash
  partition. The partition, the GPIO pins and \<open>malloc\<close> are the ESP32's (\<open>hardware\<close>, over a state
  \<open>'f\<close>). \<open>size_t\<close> and \<open>uint32_t\<close> counters are natural numbers with the 32-bit wrap-around written
  out (\<open>add32\<close>, \<open>sub32\<close>).
\<close>

section \<open>The machine\<close>

definition add32 :: "nat \<Rightarrow> nat \<Rightarrow> nat" where "add32 a b = (a + b) mod 2 ^ 32"
definition sub32 :: "nat \<Rightarrow> nat \<Rightarrow> nat" where "sub32 a b = (a + 2 ^ 32 - b) mod 2 ^ 32"

lemma sub32_exact: "b \<le> a \<Longrightarrow> a < 2 ^ 32 \<Longrightarrow> sub32 a b = a - b"
proof -
  assume "b \<le> a" "a < 2 ^ 32"
  then have "a + 2 ^ 32 - b = (a - b) + 2 ^ 32" "a - b < 2 ^ 32" by linarith+
  then show ?thesis by (simp only: sub32_def mod_add_self2 mod_less)
qed

lemma add32_exact: "a + b < 2 ^ 32 \<Longrightarrow> add32 a b = a + b"
  by (simp add: add32_def)

definition SPI_FLASH_SEC_SIZE :: nat where "SPI_FLASH_SEC_SIZE = 4096"
definition UPDATE_SIZE_UNKNOWN :: nat where "UPDATE_SIZE_UNKNOWN = 0xFFFFFFFF"

text \<open>
  \<open>fl_next_update\<close> is \<open>esp_ota_get_next_update_partition\<close>, \<open>fl_set_boot\<close>
  \<open>esp_ota_set_boot_partition\<close> (\<open>None\<close> when it reports an error); the other flash operations are
  \<open>ESP.partitionRead\<close>, \<open>partitionEraseRange\<close> and \<open>partitionWrite\<close>.
\<close>

record ('f, 'part) hardware =
  fl_next_update :: "'f \<Rightarrow> 'part option"
  fl_find_spiffs :: "'f \<Rightarrow> 'part option"
  fl_size :: "'part \<Rightarrow> nat"
  fl_read4 :: "'f \<Rightarrow> 'part \<Rightarrow> u8 list option"
  fl_erase :: "'f \<Rightarrow> 'part \<Rightarrow> nat \<Rightarrow> nat \<Rightarrow> 'f option"
  fl_write :: "'f \<Rightarrow> 'part \<Rightarrow> nat \<Rightarrow> u8 list \<Rightarrow> 'f option"
  fl_set_boot :: "'f \<Rightarrow> 'part \<Rightarrow> 'f option"
  hw_malloc :: "'f \<Rightarrow> nat \<Rightarrow> u8 list option"
  gpio_write :: "'f \<Rightarrow> int \<Rightarrow> bool \<Rightarrow> 'f"
  gpio_read :: "'f \<Rightarrow> int \<Rightarrow> bool"

section \<open>State\<close>

datatype update_error =
    UPDATE_ERROR_OK | UPDATE_ERROR_WRITE | UPDATE_ERROR_ERASE | UPDATE_ERROR_READ
  | UPDATE_ERROR_SPACE | UPDATE_ERROR_SIZE | UPDATE_ERROR_STREAM | UPDATE_ERROR_CHECKSUM
  | UPDATE_ERROR_MAGIC_BYTE | UPDATE_ERROR_ACTIVATE | UPDATE_ERROR_NO_PARTITION
  | UPDATE_ERROR_BAD_ARGUMENT | UPDATE_ERROR_ABORT | UPDATE_ERROR_MEMORY

record ('p, 'f, 'part) updater =
  up_processor :: 'p
  up_error :: update_error
  up_buffer :: "u8 list option"
  up_bufferLen :: nat
  up_size :: nat
  up_progress_callback :: "(nat \<Rightarrow> nat \<Rightarrow> 'f \<Rightarrow> 'f) option"
  up_progress :: nat
  up_progress_flash :: nat
  up_command :: u32
  up_partition :: "'part option"
  up_post_header :: bool
  up_ledPin :: int
  up_ledOn :: bool

text \<open>
  The constructor; its \<open>processor\<close> argument is not used, the object starts with the legacy one.
  \<open>_ledPin\<close> and \<open>_ledOn\<close> are not initialised: the only instance is a global, whose storage is zero.
\<close>

definition UpdateClassEx :: "(unit, 'f, 'part) updater" where
  "UpdateClassEx = \<lparr>up_processor = (), up_error = UPDATE_ERROR_OK, up_buffer = None,
     up_bufferLen = 0, up_size = 0, up_progress_callback = None, up_progress = 0,
     up_progress_flash = 0, up_command = U_FLASH, up_partition = None, up_post_header = False,
     up_ledPin = 0, up_ledOn = False\<rparr>"

definition hasError :: "('p, 'f, 'part) updater \<Rightarrow> bool" where
  "hasError u \<longleftrightarrow> up_error u \<noteq> UPDATE_ERROR_OK"

definition isRunning :: "('p, 'f, 'part) updater \<Rightarrow> bool" where
  "isRunning u \<longleftrightarrow> up_size u > 0"

definition isFinished :: "('p, 'f, 'part) updater \<Rightarrow> bool" where
  "isFinished u \<longleftrightarrow> up_progress u = up_size u"

definition remaining :: "('p, 'f, 'part) updater \<Rightarrow> nat" where
  "remaining u = sub32 (up_size u) (up_progress u)"

definition clearError :: "('p, 'f, 'part) updater \<Rightarrow> ('p, 'f, 'part) updater" where
  "clearError u = u\<lparr>up_error := UPDATE_ERROR_OK\<rparr>"

fun err2str :: "update_error \<Rightarrow> string" where
  "err2str UPDATE_ERROR_OK = ''No Error''"
| "err2str UPDATE_ERROR_WRITE = ''Flash Write Failed''"
| "err2str UPDATE_ERROR_ERASE = ''Flash Erase Failed''"
| "err2str UPDATE_ERROR_READ = ''Flash Read Failed''"
| "err2str UPDATE_ERROR_SPACE = ''Not Enough Space''"
| "err2str UPDATE_ERROR_SIZE = ''Bad Size Given''"
| "err2str UPDATE_ERROR_STREAM = ''Stream Read Timeout''"
| "err2str UPDATE_ERROR_MAGIC_BYTE = ''Wrong Magic Byte''"
| "err2str UPDATE_ERROR_ACTIVATE = ''Could Not Activate The Firmware''"
| "err2str UPDATE_ERROR_NO_PARTITION = ''Partition Could Not be Found''"
| "err2str UPDATE_ERROR_BAD_ARGUMENT = ''Bad Argument''"
| "err2str UPDATE_ERROR_ABORT = ''Aborted''"
| "err2str UPDATE_ERROR_CHECKSUM = ''UNKNOWN''"
| "err2str UPDATE_ERROR_MEMORY = ''UNKNOWN''"

section \<open>Reset and abort\<close>

definition updater_reset ::
  "'p processor \<Rightarrow> ('f, 'part) hardware \<Rightarrow> ('p, 'f, 'part) updater \<Rightarrow> 'f \<Rightarrow> ('p, 'f, 'part) updater \<times> 'f" where
  "updater_reset P hw u f =
     (u\<lparr>up_buffer := None, up_bufferLen := 0, up_progress := 0, up_progress_flash := 0, up_size := 0,
        up_command := U_FLASH, up_post_header := False, up_processor := pr_reset P (up_processor u)\<rparr>,
      if up_ledPin u \<noteq> - 1 then gpio_write hw f (up_ledPin u) (\<not> up_ledOn u) else f)"

definition updater_abort_with ::
  "'p processor \<Rightarrow> ('f, 'part) hardware \<Rightarrow> update_error \<Rightarrow> ('p, 'f, 'part) updater \<Rightarrow> 'f \<Rightarrow>
   ('p, 'f, 'part) updater \<times> 'f" where
  "updater_abort_with P hw err u f =
     (case updater_reset P hw u f of (u', f') \<Rightarrow> (u'\<lparr>up_error := err\<rparr>, f'))"

definition updater_abort ::
  "'p processor \<Rightarrow> ('f, 'part) hardware \<Rightarrow> ('p, 'f, 'part) updater \<Rightarrow> 'f \<Rightarrow> ('p, 'f, 'part) updater \<times> 'f" where
  "updater_abort P hw u f = updater_abort_with P hw UPDATE_ERROR_ABORT u f"

text \<open>Replacing the processor: the old one is reset and deleted.\<close>

definition setProcessor ::
  "'p processor \<Rightarrow> ('f, 'part) hardware \<Rightarrow> 'r \<Rightarrow> ('p, 'f, 'part) updater \<Rightarrow> 'f \<Rightarrow>
   ('r, 'f, 'part) updater \<times> 'f" where
  "setProcessor P hw processor u f =
     (case updater_reset P hw u f of (v, f') \<Rightarrow>
       (\<lparr>up_processor = processor, up_error = up_error v, up_buffer = up_buffer v,
         up_bufferLen = up_bufferLen v, up_size = up_size v,
         up_progress_callback = up_progress_callback v, up_progress = up_progress v,
         up_progress_flash = up_progress_flash v, up_command = up_command v,
         up_partition = up_partition v, up_post_header = up_post_header v,
         up_ledPin = up_ledPin v, up_ledOn = up_ledOn v\<rparr>, f'))"

definition onProgress ::
  "(nat \<Rightarrow> nat \<Rightarrow> 'f \<Rightarrow> 'f) \<Rightarrow> ('p, 'f, 'part) updater \<Rightarrow> ('p, 'f, 'part) updater" where
  "onProgress fn u = u\<lparr>up_progress_callback := Some fn\<rparr>"

section \<open>Partitions\<close>

definition partitionIsBootable :: "('f, 'part) hardware \<Rightarrow> 'f \<Rightarrow> 'part option \<Rightarrow> bool" where
  "partitionIsBootable hw f prt =
     (case prt of
        None \<Rightarrow> False
      | Some p \<Rightarrow> (case fl_read4 hw f p of
                    None \<Rightarrow> False
                  | Some buf \<Rightarrow> hd buf = ESP_IMAGE_HEADER_MAGIC))"

text \<open>The first byte is put back; the other three are written as they were read.\<close>

definition enablePartition :: "('f, 'part) hardware \<Rightarrow> 'f \<Rightarrow> 'part option \<Rightarrow> 'f option" where
  "enablePartition hw f prt =
     (case prt of
        None \<Rightarrow> None
      | Some p \<Rightarrow> (case fl_read4 hw f p of
                    None \<Rightarrow> None
                  | Some buf \<Rightarrow> fl_write hw f p 0 (ESP_IMAGE_HEADER_MAGIC # tl buf)))"

definition canRollBack :: "('f, 'part) hardware \<Rightarrow> ('p, 'f, 'part) updater \<Rightarrow> 'f \<Rightarrow> bool" where
  "canRollBack hw u f =
     (if up_buffer u \<noteq> None then False else partitionIsBootable hw f (fl_next_update hw f))"

definition rollBack :: "('f, 'part) hardware \<Rightarrow> ('p, 'f, 'part) updater \<Rightarrow> 'f \<Rightarrow> bool \<times> 'f" where
  "rollBack hw u f =
     (if up_buffer u \<noteq> None then (False, f)
      else case fl_next_update hw f of
             None \<Rightarrow> (False, f)
           | Some p \<Rightarrow>
               if \<not> partitionIsBootable hw f (Some p) then (False, f)
               else (case fl_set_boot hw f p of None \<Rightarrow> (False, f) | Some f' \<Rightarrow> (True, f')))"

section \<open>Starting an update\<close>

definition updater_begin ::
  "'p processor \<Rightarrow> ('f, 'part) hardware \<Rightarrow> nat \<Rightarrow> u32 \<Rightarrow> int \<Rightarrow> bool \<Rightarrow>
   ('p, 'f, 'part) updater \<Rightarrow> 'f \<Rightarrow> bool \<times> ('p, 'f, 'part) updater \<times> 'f" where
  "updater_begin P hw sz command ledPin ledOn u f =
     (if up_size u > 0 then (False, u, f)
      else case updater_reset P hw (u\<lparr>up_ledPin := ledPin, up_ledOn := ledOn\<rparr>) f of (u0, f1) \<Rightarrow>
        let u1 = u0\<lparr>up_error := UPDATE_ERROR_OK\<rparr> in
        if sz = 0 then (False, u1\<lparr>up_error := UPDATE_ERROR_SIZE\<rparr>, f1)
        else if command \<noteq> U_FLASH \<and> command \<noteq> U_SPIFFS then
          (False, u1\<lparr>up_error := UPDATE_ERROR_BAD_ARGUMENT\<rparr>, f1)
        else let part = (if command = U_FLASH then fl_next_update hw f1 else fl_find_spiffs hw f1);
                 u2 = u1\<lparr>up_partition := part\<rparr> in
        (case part of
           None \<Rightarrow> (False, u2\<lparr>up_error := UPDATE_ERROR_NO_PARTITION\<rparr>, f1)
         | Some p \<Rightarrow>
             if sz \<noteq> UPDATE_SIZE_UNKNOWN \<and> sz > fl_size hw p then
               (False, u2\<lparr>up_error := UPDATE_ERROR_SIZE\<rparr>, f1)
             else
               let n = (if sz = UPDATE_SIZE_UNKNOWN then fl_size hw p else sz) in
               (case hw_malloc hw f1 SPI_FLASH_SEC_SIZE of
                  None \<Rightarrow> (False, u2\<lparr>up_error := UPDATE_ERROR_MEMORY\<rparr>, f1)
                | Some buf \<Rightarrow>
                    (True, u2\<lparr>up_buffer := Some buf, up_size := n, up_command := command\<rparr>, f1))))"

section \<open>Flushing the sector buffer\<close>

text \<open>Before the header is accepted: the processor may consume bytes from the front of the buffer.\<close>

definition writeBuffer_header ::
  "'p processor \<Rightarrow> ('f, 'part) hardware \<Rightarrow> ('p, 'f, 'part) updater \<Rightarrow> 'f \<Rightarrow>
   fault + bool \<times> ('p, 'f, 'part) updater \<times> 'f" where
  "writeBuffer_header P hw u f =
     (case up_buffer u of
        None \<Rightarrow> Inl OutOfBounds
      | Some buf \<Rightarrow>
          let l = up_bufferLen u in
          bind_res (pr_header P (up_processor u) (up_command u) buf l) (\<lambda>(e, p, buf', l').
            let u1 = u\<lparr>up_processor := p, up_buffer := Some buf', up_bufferLen := l'\<rparr>;
                u2 = u1\<lparr>up_progress := add32 (up_progress u) (sub32 l l')\<rparr> in
            if e = PROC_AGAIN \<and> l' < SPI_FLASH_SEC_SIZE \<and> l' < up_size u then Inr (True, u2, f)
            else if e \<noteq> PROC_OK then
              Inr (False, updater_abort_with P hw UPDATE_ERROR_BAD_ARGUMENT u1 f)
            else Inr (True, u2\<lparr>up_post_header := True\<rparr>, f)))"

text \<open>
  After the header: the first byte of the first sector is blanked, so that the partition is not
  bootable before \<open>activate\<close>.
\<close>

definition flash_sector ::
  "'p processor \<Rightarrow> ('f, 'part) hardware \<Rightarrow> ('p, 'f, 'part) updater \<Rightarrow> u8 list \<Rightarrow> 'f \<Rightarrow>
   fault + bool \<times> ('p, 'f, 'part) updater \<times> 'f" where
  "flash_sector P hw u buf f =
     (case up_partition u of
        None \<Rightarrow> Inl AssertFailed
      | Some part \<Rightarrow>
          (case fl_erase hw f part (up_progress_flash u) SPI_FLASH_SEC_SIZE of
             None \<Rightarrow> Inr (False, updater_abort_with P hw UPDATE_ERROR_ERASE u f)
           | Some f1 \<Rightarrow>
               (case fl_write hw f1 part (up_progress_flash u) (take (up_bufferLen u) buf) of
                  None \<Rightarrow> Inr (False, updater_abort_with P hw UPDATE_ERROR_WRITE u f1)
                | Some f2 \<Rightarrow>
                    Inr (True, u\<lparr>up_progress_flash := add32 (up_progress_flash u) (up_bufferLen u),
                                 up_progress := add32 (up_progress u) (up_bufferLen u),
                                 up_bufferLen := 0\<rparr>, f2))))"

definition writeBuffer_payload ::
  "'p processor \<Rightarrow> ('f, 'part) hardware \<Rightarrow> ('p, 'f, 'part) updater \<Rightarrow> 'f \<Rightarrow>
   fault + bool \<times> ('p, 'f, 'part) updater \<times> 'f" where
  "writeBuffer_payload P hw u f =
     (case up_buffer u of
        None \<Rightarrow> Inl OutOfBounds
      | Some buf \<Rightarrow>
          bind_res (pr_payload P (up_processor u) buf (up_bufferLen u)) (\<lambda>(e, p).
            let u1 = u\<lparr>up_processor := p\<rparr> in
            if e = PROC_AGAIN then Inr (True, u1, f)
            else if e \<noteq> PROC_OK then Inr (False, updater_abort_with P hw UPDATE_ERROR_STREAM u1 f)
            else if up_progress_flash u = 0 then
              bind_res (rd buf 0) (\<lambda>b.
                if b \<noteq> ESP_IMAGE_HEADER_MAGIC then Inl AssertFailed
                else flash_sector P hw (u1\<lparr>up_buffer := Some (buf[0 := 0xFF])\<rparr>) (buf[0 := 0xFF]) f)
            else flash_sector P hw u1 buf f))"

definition writeBuffer ::
  "'p processor \<Rightarrow> ('f, 'part) hardware \<Rightarrow> ('p, 'f, 'part) updater \<Rightarrow> 'f \<Rightarrow>
   fault + bool \<times> ('p, 'f, 'part) updater \<times> 'f" where
  "writeBuffer P hw u f =
     (let f1 = (case up_progress_callback u of None \<Rightarrow> f | Some cb \<Rightarrow> cb (up_progress u) (up_size u) f);
          f2 = (if up_ledPin u \<noteq> - 1 then gpio_write hw f1 (up_ledPin u) (\<not> gpio_read hw f1 (up_ledPin u))
                else f1)
      in if \<not> up_post_header u then writeBuffer_header P hw u f2 else writeBuffer_payload P hw u f2)"

section \<open>Writing\<close>

text \<open>One turn of the loop of \<open>write\<close>: fill the buffer, flush it when it is full or complete.\<close>

definition fill_buffer ::
  "u8 list \<Rightarrow> nat \<Rightarrow> ('p, 'f, 'part) updater \<Rightarrow> fault + nat \<times> ('p, 'f, 'part) updater" where
  "fill_buffer data written u =
     (let l0 = length data - written; n = up_bufferLen u;
          l = (if l0 + n > SPI_FLASH_SEC_SIZE then sub32 SPI_FLASH_SEC_SIZE n else l0) in
      case up_buffer u of
        None \<Rightarrow> Inl OutOfBounds
      | Some buf \<Rightarrow>
          if n + l > length buf \<or> written + l > length data then Inl OutOfBounds
          else Inr (written + l,
                 u\<lparr>up_buffer := Some (take n buf @ take l (drop written data) @ drop (n + l) buf),
                   up_bufferLen := n + l\<rparr>))"

definition flush_if_full ::
  "'p processor \<Rightarrow> ('f, 'part) hardware \<Rightarrow> ('p, 'f, 'part) updater \<Rightarrow> 'f \<Rightarrow>
   fault + bool \<times> ('p, 'f, 'part) updater \<times> 'f" where
  "flush_if_full P hw u f =
     (if up_bufferLen u = SPI_FLASH_SEC_SIZE \<or> up_bufferLen u = remaining u then writeBuffer P hw u f
      else Inr (True, u, f))"

text \<open>The loop; \<open>None\<close> would be a loop that does not end.\<close>

partial_function (option) write_loop ::
  "'p processor \<Rightarrow> ('f, 'part) hardware \<Rightarrow> u8 list \<Rightarrow> nat \<Rightarrow> ('p, 'f, 'part) updater \<Rightarrow> 'f \<Rightarrow>
   (fault + nat \<times> ('p, 'f, 'part) updater \<times> 'f) option" where
  "write_loop P hw data written u f =
     (if written < length data then
        (case fill_buffer data written u of
           Inl e \<Rightarrow> Some (Inl e)
         | Inr r1 \<Rightarrow>
             (case flush_if_full P hw (snd r1) f of
                Inl e \<Rightarrow> Some (Inl e)
              | Inr r2 \<Rightarrow>
                  if fst r2 then write_loop P hw data (fst r1) (fst (snd r2)) (snd (snd r2))
                  else Some (Inr (fst r1, snd r2))))
      else Some (Inr (written, u, f)))"

definition updater_write ::
  "'p processor \<Rightarrow> ('f, 'part) hardware \<Rightarrow> u8 list \<Rightarrow> ('p, 'f, 'part) updater \<Rightarrow> 'f \<Rightarrow>
   (fault + nat \<times> ('p, 'f, 'part) updater \<times> 'f) option" where
  "updater_write P hw data u f =
     (if hasError u \<or> \<not> isRunning u then Some (Inr (0, u, f))
      else if length data > remaining u then
        Some (Inr (0, updater_abort_with P hw UPDATE_ERROR_SPACE u f))
      else write_loop P hw data 0 u f)"

section \<open>Finishing\<close>

text \<open>The pieces of \<open>end\<close>: what is left in the buffer is flushed and the result of that is not looked at.\<close>

definition end_abort ::
  "'p processor \<Rightarrow> ('f, 'part) hardware \<Rightarrow> ('p, 'f, 'part) updater \<Rightarrow> 'f \<Rightarrow> ('p, 'f, 'part) updater \<times> 'f" where
  "end_abort P hw u f =
     (case updater_abort_with P hw UPDATE_ERROR_ABORT u f of (u1, f1) \<Rightarrow> updater_reset P hw u1 f1)"

definition end_flush ::
  "'p processor \<Rightarrow> ('f, 'part) hardware \<Rightarrow> ('p, 'f, 'part) updater \<Rightarrow> 'f \<Rightarrow>
   fault + ('p, 'f, 'part) updater \<times> 'f" where
  "end_flush P hw u f =
     bind_res (if up_bufferLen u > 0 then writeBuffer P hw u f else Inr (True, u, f))
       (\<lambda>(_, u1, f1). Inr (u1\<lparr>up_size := up_progress u1\<rparr>, f1))"

definition end_process ::
  "'p processor \<Rightarrow> ('f, 'part) hardware \<Rightarrow> ('p, 'f, 'part) updater \<Rightarrow> 'f \<Rightarrow>
   fault + bool \<times> ('p, 'f, 'part) updater \<times> 'f" where
  "end_process P hw u f =
     bind_res (pr_end P (up_processor u)) (\<lambda>(e, p).
       if e \<noteq> PROC_OK then Inr (False, end_abort P hw (u\<lparr>up_processor := p\<rparr>) f)
       else Inr (True, u\<lparr>up_processor := p\<rparr>, f))"

definition updater_end ::
  "'p processor \<Rightarrow> ('f, 'part) hardware \<Rightarrow> bool \<Rightarrow> ('p, 'f, 'part) updater \<Rightarrow> 'f \<Rightarrow>
   fault + bool \<times> ('p, 'f, 'part) updater \<times> 'f" where
  "updater_end P hw evenIfRemaining u f =
     (if hasError u \<or> up_size u = 0 then Inr (False, updater_reset P hw u f)
      else if \<not> isFinished u \<and> \<not> evenIfRemaining then Inr (False, end_abort P hw u f)
      else bind_res (if evenIfRemaining then end_flush P hw u f else Inr (u, f))
             (\<lambda>(u2, f2). end_process P hw u2 f2))"

definition updater_activate ::
  "'p processor \<Rightarrow> ('f, 'part) hardware \<Rightarrow> ('p, 'f, 'part) updater \<Rightarrow> 'f \<Rightarrow>
   bool \<times> ('p, 'f, 'part) updater \<times> 'f" where
  "updater_activate P hw u f =
     (if up_command u = U_FLASH then
        (case enablePartition hw f (up_partition u) of
           None \<Rightarrow> (False, updater_abort_with P hw UPDATE_ERROR_READ u f)
         | Some f1 \<Rightarrow>
             if \<not> partitionIsBootable hw f1 (up_partition u) then
               (False, updater_abort_with P hw UPDATE_ERROR_READ u f1)
             else (case Option.bind (up_partition u) (fl_set_boot hw f1) of
                     None \<Rightarrow> (False, updater_abort_with P hw UPDATE_ERROR_ACTIVATE u f1)
                   | Some f2 \<Rightarrow> (True, updater_reset P hw u f2)))
      else if up_command u = U_SPIFFS then (True, updater_reset P hw u f)
      else (False, u, f))"

section \<open>Every write returns\<close>

text \<open>A running update has a whole sector buffer, with at most that many valid bytes.\<close>

definition up_ok :: "('p, 'f, 'part) updater \<Rightarrow> bool" where
  "up_ok u \<longleftrightarrow> (isRunning u \<longrightarrow>
     (\<exists>buf. up_buffer u = Some buf \<and> length buf = SPI_FLASH_SEC_SIZE) \<and>
     up_bufferLen u \<le> SPI_FLASH_SEC_SIZE)"

text \<open>How often the loop can turn without taking a byte: a full buffer is flushed at most twice.\<close>

definition full_rank :: "('p, 'f, 'part) updater \<Rightarrow> nat" where
  "full_rank u =
     (if up_bufferLen u < SPI_FLASH_SEC_SIZE then 0 else if up_post_header u then 1 else 2)"

lemma not_running_reset [simp]: "\<not> isRunning (fst (updater_reset P hw u f))"
  by (simp add: updater_reset_def isRunning_def)

lemma abort_with_simps [simp]:
  "\<not> isRunning (fst (updater_abort_with P hw err u f))"
  "up_error (fst (updater_abort_with P hw err u f)) = err"
  by (simp_all add: updater_abort_with_def updater_reset_def isRunning_def)

lemma up_ok_not_running [simp]: "\<not> isRunning u \<Longrightarrow> up_ok u"
  by (simp add: up_ok_def)

lemma fill_buffer_ok:
  assumes "up_ok u" "isRunning u" "written < length data"
  shows "\<exists>w u1. fill_buffer data written u = Inr (w, u1) \<and> up_ok u1 \<and> isRunning u1 \<and>
    written \<le> w \<and> w \<le> length data \<and> up_post_header u1 = up_post_header u \<and>
    (w = written \<longrightarrow> up_bufferLen u = SPI_FLASH_SEC_SIZE \<and> up_bufferLen u1 = SPI_FLASH_SEC_SIZE)"
proof -
  obtain buf where buf: "up_buffer u = Some buf" "length buf = SPI_FLASH_SEC_SIZE"
    "up_bufferLen u \<le> SPI_FLASH_SEC_SIZE"
    using assms(1,2) by (auto simp: up_ok_def)
  have sub: "sub32 SPI_FLASH_SEC_SIZE (up_bufferLen u) = SPI_FLASH_SEC_SIZE - up_bufferLen u"
    using buf(3) by (intro sub32_exact) (simp_all add: SPI_FLASH_SEC_SIZE_def)
  show ?thesis
    using assms buf
    by (cases "length data - written + up_bufferLen u > SPI_FLASH_SEC_SIZE")
      (auto simp: fill_buffer_def sub up_ok_def isRunning_def Let_def)
qed

text \<open>What filling and flushing preserve, the whole loop preserves.\<close>

lemma write_loop_invariant:
  assumes "write_loop P hw data written u f = Some (Inr (n, st'))" "Q (u, f)"
    and fill: "\<And>w w' u u1 f. Q (u, f) \<Longrightarrow> fill_buffer data w u = Inr (w', u1) \<Longrightarrow> Q (u1, f)"
    and flush: "\<And>u f b st. Q (u, f) \<Longrightarrow> flush_if_full P hw u f = Inr (b, st) \<Longrightarrow> Q st"
  shows "Q st'"
proof -
  define Good where "Good = (\<lambda>(((((P', hw'), data'), written' :: nat), u'), f') (r :: fault + nat \<times> _).
    P' = P \<longrightarrow> hw' = hw \<longrightarrow> data' = data \<longrightarrow> Q (u', f') \<longrightarrow> (\<forall>n st'. r = Inr (n, st') \<longrightarrow> Q st'))"
  have "Good (((((P, hw), data), written), u), f) (Inr (n, st'))"
  proof (rule write_loop.raw_induct [OF _ assms(1)])
    fix loop P' hw' data' written' u' f' r
    assume IH: "\<And>P hw data written u f y. loop P hw data written u f = Some y \<Longrightarrow>
        Good (((((P, hw), data), written), u), f) y"
      and body: "(if written' < length data' then
        case fill_buffer data' written' u' of Inl e \<Rightarrow> Some (Inl e)
        | Inr r1 \<Rightarrow> case flush_if_full P' hw' (snd r1) f' of Inl e \<Rightarrow> Some (Inl e)
          | Inr r2 \<Rightarrow> if fst r2 then loop P' hw' data' (fst r1) (fst (snd r2)) (snd (snd r2))
                     else Some (Inr (fst r1, snd r2))
        else Some (Inr (written', u', f'))) = Some r"
    show "Good (((((P', hw'), data'), written'), u'), f') r"
    proof (cases "P' = P \<and> hw' = hw \<and> data' = data \<and> Q (u', f')")
      case True
      then have Q: "Q (u', f')" and eqs: "P' = P" "hw' = hw" "data' = data" by simp_all
      show ?thesis
      proof (cases "written' < length data")
        case False
        with body eqs Q show ?thesis by (auto simp: Good_def)
      next
        case len: True
        show ?thesis
        proof (cases "fill_buffer data written' u'")
          case (Inl e)
          with body eqs len show ?thesis by (auto simp: Good_def)
        next
          case (Inr r1)
          have Q1: "Q (snd r1, f')" using fill [OF Q] Inr by (cases r1) auto
          show ?thesis
          proof (cases "flush_if_full P hw (snd r1) f'")
            case Inl': (Inl e)
            with body eqs len Inr show ?thesis by (auto simp: Good_def)
          next
            case Inr': (Inr r2)
            have Q2: "Q (snd r2)" using flush [OF Q1] Inr' by (cases r2) auto
            with body eqs len Inr Inr' IH show ?thesis
              by (cases "fst r2") (auto simp: Good_def)
          qed
        qed
      qed
    qed (auto simp: Good_def)
  qed
  with assms(2) show ?thesis by (cases st') (simp add: Good_def)
qed

text \<open>A write that exactly fills the sector buffer flushes it once.\<close>

lemma write_sector:
  assumes "up_buffer u = Some buf" "length buf = SPI_FLASH_SEC_SIZE" "isRunning u" "\<not> hasError u"
    and "data \<noteq> []" "up_bufferLen u + length data = SPI_FLASH_SEC_SIZE" "length data \<le> remaining u"
    and "writeBuffer P hw (u\<lparr>up_buffer := Some (take (up_bufferLen u) buf @ data),
           up_bufferLen := SPI_FLASH_SEC_SIZE\<rparr>) f = Inr (ok, st)"
  shows "updater_write P hw data u f = Some (Inr (length data, st))"
proof -
  have "fill_buffer data 0 u = Inr (length data, u\<lparr>up_buffer := Some (take (up_bufferLen u) buf @ data),
      up_bufferLen := SPI_FLASH_SEC_SIZE\<rparr>)"
    using assms(1,2,6) by (simp add: fill_buffer_def Let_def)
  with assms(8) have step: "write_loop P hw data 0 u f =
      (if ok then write_loop P hw data (length data) (fst st) (snd st) else Some (Inr (length data, st)))"
    using assms(5) by (subst write_loop.simps) (simp add: flush_if_full_def)
  have "write_loop P hw data (length data) (fst st) (snd st) = Some (Inr (length data, st))"
    by (subst write_loop.simps) simp
  with step assms(3,4,7) show ?thesis by (simp add: updater_write_def)
qed

context update_processor
begin

lemma writeBuffer_false:
  "writeBuffer P hw u f = Inr (False, u', f') \<Longrightarrow> hasError u' \<and> \<not> isRunning u'"
  by (auto simp: writeBuffer_def writeBuffer_header_def writeBuffer_payload_def flash_sector_def
      bind_res_Inr_iff Let_def hasError_def
      split: if_splits option.splits dest!: arg_cong [of _ _ fst])

lemma writeBuffer_true:
  assumes "up_ok u" "isRunning u" "writeBuffer P hw u f = Inr (True, u', f')"
  shows "up_ok u' \<and> isRunning u' \<and>
    (up_bufferLen u = SPI_FLASH_SEC_SIZE \<longrightarrow> full_rank u' < full_rank u) \<and>
    (up_post_header u \<longrightarrow> up_post_header u')"
proof -
  obtain buf where buf: "up_buffer u = Some buf" "length buf = SPI_FLASH_SEC_SIZE"
    "up_bufferLen u \<le> SPI_FLASH_SEC_SIZE"
    using assms(1,2) by (auto simp: up_ok_def)
  obtain f2 where f2: "writeBuffer P hw u f =
      (if \<not> up_post_header u then writeBuffer_header P hw u f2 else writeBuffer_payload P hw u f2)"
    by (simp add: writeBuffer_def Let_def)
  show ?thesis
  proof (cases "up_post_header u")
    case True
    with assms buf f2 show ?thesis
      by (auto simp: writeBuffer_payload_def flash_sector_def bind_res_Inr_iff Let_def
          up_ok_def isRunning_def full_rank_def SPI_FLASH_SEC_SIZE_def
          split: if_splits option.splits dest: payload_not_again)
  next
    case False
    have shape: "length ab = SPI_FLASH_SEC_SIZE \<and> b \<le> SPI_FLASH_SEC_SIZE"
      if "pr_header P (up_processor u) (up_command u) buf (up_bufferLen u) = Inr (e, p, ab, b)" for e p ab b
      using header_shape [OF _ that] buf by simp
    with False assms buf f2 show ?thesis
      by (auto simp: writeBuffer_header_def bind_res_Inr_iff up_ok_def isRunning_def full_rank_def Let_def
          split: if_splits option.splits dest!: shape)
  qed
qed

lemma flush_ok:
  assumes "up_ok u" "isRunning u" "flush_if_full P hw u f = Inr (b, u', f')"
  shows "if b then up_ok u' \<and> isRunning u' \<and>
           (up_bufferLen u = SPI_FLASH_SEC_SIZE \<longrightarrow> full_rank u' < full_rank u)
         else hasError u' \<and> \<not> isRunning u'"
  using assms writeBuffer_true [OF assms(1,2), of hw f u' f'] writeBuffer_false [of hw u f u' f']
  by (cases b) (auto simp: flush_if_full_def split: if_splits)

text \<open>The number of turns is bounded by three times the bytes to write, plus two.\<close>

lemma write_loop_returns:
  assumes "up_ok u" "isRunning u" "written \<le> length data"
  shows "\<exists>r. write_loop P hw data written u f = Some r \<and>
    (\<forall>n u' f'. r = Inr (n, u', f') \<longrightarrow>
       n \<le> length data \<and> up_ok u' \<and> (hasError u' \<or> n = length data))"
  using assms
proof (induction "3 * (length data - written) + full_rank u" arbitrary: written u f
    rule: less_induct)
  case less
  show ?case
  proof (cases "written < length data")
    case False
    with less.prems show ?thesis by (subst write_loop.simps) auto
  next
    case True
    with fill_buffer_ok [OF less.prems(1,2)] obtain w u1 where
      fill: "fill_buffer data written u = Inr (w, u1)" "up_ok u1" "isRunning u1"
        "written \<le> w" "w \<le> length data" "up_post_header u1 = up_post_header u"
        "w = written \<longrightarrow> up_bufferLen u = SPI_FLASH_SEC_SIZE \<and> up_bufferLen u1 = SPI_FLASH_SEC_SIZE"
      by blast
    show ?thesis
    proof (cases "flush_if_full P hw u1 f")
      case (Inl e)
      with True fill(1) show ?thesis by (subst write_loop.simps) simp
    next
      case (Inr r2)
      obtain b u2 f2 where r2: "r2 = (b, u2, f2)" by (cases r2) auto
      note flush = flush_ok [OF fill(2,3) Inr [unfolded r2]]
      show ?thesis
      proof (cases b)
        case False
        with True fill(1,5) Inr r2 flush show ?thesis by (subst write_loop.simps) simp
      next
        case b: True
        have "full_rank u2 \<le> 2" by (simp add: full_rank_def)
        moreover have "full_rank u1 = full_rank u" if "w = written"
          using that fill(6,7) by (simp add: full_rank_def)
        ultimately have "3 * (length data - w) + full_rank u2 < 3 * (length data - written) + full_rank u"
          using flush b fill(4,7) True by (cases "w = written") auto
        from less.hyps [OF this] flush b fill(5) True fill(1) Inr r2 show ?thesis
          by (subst write_loop.simps) simp
      qed
    qed
  qed
qed

end

end
