(* ===== verification/OtaChain.thy ===== *)
theory OtaChain
  imports Updater
begin

text \<open>
  The updater of \<open>Updater\<close> with the processors of \<open>UpdateProcessors\<close>: which images reach the flash,
  and what the digest check guarantees of them. The flash is a parameter that keeps the promises
  of the ESP-IDF documentation (\<open>flash_spec\<close>).
\<close>

section \<open>The flash\<close>

text \<open>
  \<open>contents f p i\<close> is byte \<open>i\<close> of partition \<open>p\<close>, \<open>boot f\<close> the partition booted next. Erasing sets
  bytes to \<open>0xFF\<close>, writing can only clear bits, and both stay inside the partition, whose size is a
  32-bit number.
\<close>

definition flash_spec ::
  "('f \<Rightarrow> 'part \<Rightarrow> nat \<Rightarrow> u8) \<Rightarrow> ('f \<Rightarrow> 'part option) \<Rightarrow> ('f, 'part) hardware \<Rightarrow> bool" where
  "flash_spec contents boot hw \<longleftrightarrow>
     (\<forall>f p off n f'. fl_erase hw f p off n = Some f' \<longrightarrow>
        boot f' = boot f \<and> off + n \<le> fl_size hw p \<and>
        contents f' = (contents f)(p := \<lambda>i. if off \<le> i \<and> i < off + n then 0xFF else contents f p i)) \<and>
     (\<forall>f p off bs f'. fl_write hw f p off bs = Some f' \<longrightarrow>
        boot f' = boot f \<and> off + length bs \<le> fl_size hw p \<and>
        contents f' = (contents f)(p := \<lambda>i. if off \<le> i \<and> i < off + length bs
           then and (contents f p i) (bs ! (i - off)) else contents f p i)) \<and>
     (\<forall>f p f'. fl_set_boot hw f p = Some f' \<longrightarrow> boot f' = Some p \<and> contents f' = contents f) \<and>
     (\<forall>f p buf. fl_read4 hw f p = Some buf \<longrightarrow> buf = map (contents f p) [0..<4]) \<and>
     (\<forall>f pin v. boot (gpio_write hw f pin v) = boot f \<and> contents (gpio_write hw f pin v) = contents f) \<and>
     (\<forall>f n buf. hw_malloc hw f n = Some buf \<longrightarrow> length buf = n) \<and>
     (\<forall>p. fl_size hw p < 2 ^ 32)"

lemma flash_erase:
    "flash_spec contents boot hw \<Longrightarrow> fl_erase hw f p off n = Some f' \<Longrightarrow>
     boot f' = boot f \<and> off + n \<le> fl_size hw p \<and>
     contents f' = (contents f)(p := \<lambda>i. if off \<le> i \<and> i < off + n then 0xFF else contents f p i)"
  and flash_write:
    "flash_spec contents boot hw \<Longrightarrow> fl_write hw f p off bs = Some f' \<Longrightarrow>
     boot f' = boot f \<and> off + length bs \<le> fl_size hw p \<and>
     contents f' = (contents f)(p := \<lambda>i. if off \<le> i \<and> i < off + length bs
        then and (contents f p i) (bs ! (i - off)) else contents f p i)"
  and flash_set_boot:
    "flash_spec contents boot hw \<Longrightarrow> fl_set_boot hw f p = Some f' \<Longrightarrow>
     boot f' = Some p \<and> contents f' = contents f"
  and flash_read4:
    "flash_spec contents boot hw \<Longrightarrow> fl_read4 hw f p = Some buf \<Longrightarrow> buf = map (contents f p) [0..<4]"
  and flash_gpio:
    "flash_spec contents boot hw \<Longrightarrow> boot (gpio_write hw f pin v) = boot f"
    "flash_spec contents boot hw \<Longrightarrow> contents (gpio_write hw f pin v) = contents f"
  and flash_malloc:
    "flash_spec contents boot hw \<Longrightarrow> hw_malloc hw f n = Some buf \<Longrightarrow> length buf = n"
  and flash_size: "flash_spec contents boot hw \<Longrightarrow> fl_size hw p < 2 ^ 32"
  by (simp_all add: flash_spec_def)

lemma flash_reset:
  "flash_spec contents boot hw \<Longrightarrow> contents (snd (updater_reset P hw u f)) = contents f"
  "flash_spec contents boot hw \<Longrightarrow> boot (snd (updater_reset P hw u f)) = boot f"
  "flash_spec contents boot hw \<Longrightarrow> contents (snd (updater_abort_with P hw err u f)) = contents f"
  "flash_spec contents boot hw \<Longrightarrow> boot (snd (updater_abort_with P hw err u f)) = boot f"
  by (simp_all add: updater_reset_def updater_abort_with_def flash_gpio)

section \<open>Sequences of calls\<close>

datatype update_op = OpBegin nat u32 int bool | OpWrite "u8 list" | OpEnd bool | OpAbort

definition run_op ::
  "'p processor \<Rightarrow> ('f, 'part) hardware \<Rightarrow> update_op \<Rightarrow> ('p, 'f, 'part) updater \<times> 'f \<Rightarrow>
   (fault + ('p, 'f, 'part) updater \<times> 'f) option" where
  "run_op P hw op st = (case st of (u, f) \<Rightarrow>
     (case op of
        OpBegin sz command ledPin ledOn \<Rightarrow> Some (Inr (snd (updater_begin P hw sz command ledPin ledOn u f)))
      | OpWrite data \<Rightarrow> map_option (map_sum id snd) (updater_write P hw data u f)
      | OpEnd evenIfRemaining \<Rightarrow> Some (map_sum id snd (updater_end P hw evenIfRemaining u f))
      | OpAbort \<Rightarrow> Some (Inr (updater_abort P hw u f))))"

fun run_ops ::
  "'p processor \<Rightarrow> ('f, 'part) hardware \<Rightarrow> update_op list \<Rightarrow> ('p, 'f, 'part) updater \<times> 'f \<Rightarrow>
   (fault + ('p, 'f, 'part) updater \<times> 'f) option" where
  "run_ops P hw [] st = Some (Inr st)"
| "run_ops P hw (op # ops) st =
     (case run_op P hw op st of
        Some (Inr st') \<Rightarrow> run_ops P hw ops st'
      | r \<Rightarrow> r)"

section \<open>Nothing is flashed before the header is accepted\<close>

text \<open>
  A processor that accepts the header only in a \<open>Verified\<close> state, which it then never leaves.
\<close>

locale gated_processor = update_processor P for P :: "'s processor" +
  fixes Inv :: "'s \<Rightarrow> bool" and Verified :: "'s \<Rightarrow> bool"
  assumes header_gate:
      "Inv s \<Longrightarrow> pr_header P s command buffer len = Inr (e, s', buffer', len') \<Longrightarrow>
       Inv s' \<and> (Verified s \<longrightarrow> Verified s') \<and> (e = PROC_OK \<longrightarrow> Verified s')"
    and payload_gate:
      "Inv s \<Longrightarrow> pr_payload P s buffer len = Inr (e', s') \<Longrightarrow> Inv s' \<and> (Verified s \<longrightarrow> Verified s')"
    and end_gate:
      "Inv s \<Longrightarrow> pr_end P s = Inr (e', s') \<Longrightarrow> Inv s' \<and> (Verified s \<longrightarrow> Verified s')"
    and reset_gate: "Inv s \<Longrightarrow> Inv (pr_reset P s) \<and> (Verified s \<longrightarrow> Verified (pr_reset P s))"

text \<open>The states the updater then stays in; \<open>c0\<close> is the flash before the first call.\<close>

definition gate ::
  "('s \<Rightarrow> bool) \<Rightarrow> ('s \<Rightarrow> bool) \<Rightarrow> ('f \<Rightarrow> 'c) \<Rightarrow> 'c \<Rightarrow> ('s, 'f, 'part) updater \<times> 'f \<Rightarrow> bool" where
  "gate Inv Verified contents c0 st \<longleftrightarrow>
     (case st of (u, f) \<Rightarrow>
       up_progress_callback u = None \<and> Inv (up_processor u) \<and>
       (up_post_header u \<longrightarrow> Verified (up_processor u)) \<and>
       (\<not> Verified (up_processor u) \<longrightarrow> contents f = c0))"

context gated_processor
begin

lemma gate_reset:
  assumes "flash_spec contents boot hw" "gate Inv Verified contents c0 (u, f)"
  shows "gate Inv Verified contents c0 (updater_reset P hw u f)"
  using assms reset_gate [of "up_processor u"] flash_gpio(2) [OF assms(1)]
  by (auto simp: gate_def updater_reset_def)

lemma gate_error [simp]:
  "gate Inv Verified contents c0 (u\<lparr>up_error := err\<rparr>, f) = gate Inv Verified contents c0 (u, f)"
  "gate Inv Verified contents c0 (u\<lparr>up_size := n\<rparr>, f) = gate Inv Verified contents c0 (u, f)"
  "gate Inv Verified contents c0 (u\<lparr>up_partition := prt\<rparr>, f) = gate Inv Verified contents c0 (u, f)"
  "gate Inv Verified contents c0 (u\<lparr>up_command := cmd\<rparr>, f) = gate Inv Verified contents c0 (u, f)"
  "gate Inv Verified contents c0 (u\<lparr>up_buffer := b\<rparr>, f) = gate Inv Verified contents c0 (u, f)"
  "gate Inv Verified contents c0 (u\<lparr>up_bufferLen := n\<rparr>, f) = gate Inv Verified contents c0 (u, f)"
  "gate Inv Verified contents c0 (u\<lparr>up_ledPin := pin\<rparr>, f) = gate Inv Verified contents c0 (u, f)"
  "gate Inv Verified contents c0 (u\<lparr>up_ledOn := lvl\<rparr>, f) = gate Inv Verified contents c0 (u, f)"
  "gate Inv Verified contents c0 (u\<lparr>up_progress := n\<rparr>, f) = gate Inv Verified contents c0 (u, f)"
  by (simp_all add: gate_def)

lemma gate_abort:
  assumes "flash_spec contents boot hw" "gate Inv Verified contents c0 (u, f)"
  shows "gate Inv Verified contents c0 (updater_abort_with P hw err u f)"
  using gate_reset [OF assms]
  by (cases "updater_reset P hw u f") (simp add: updater_abort_with_def)

lemma gate_begin:
  assumes "flash_spec contents boot hw" "gate Inv Verified contents c0 (u, f)"
  shows "gate Inv Verified contents c0 (snd (updater_begin P hw sz command ledPin ledOn u f))"
proof -
  have "gate Inv Verified contents c0 (u\<lparr>up_ledPin := ledPin, up_ledOn := ledOn\<rparr>, f)"
    using assms(2) by simp
  note r = gate_reset [OF assms(1) this]
  show ?thesis
    using assms(2) r
    by (auto simp: updater_begin_def Let_def split: prod.split option.split)
qed

lemma gate_flash_sector:
  assumes "flash_spec contents boot hw" "gate Inv Verified contents c0 (u, f)" "up_post_header u"
    and "flash_sector P hw u buf f = Inr (b, st')"
  shows "gate Inv Verified contents c0 st'"
proof -
  have v: "Inv (up_processor u)" "Verified (up_processor u)" "up_progress_callback u = None"
    using assms(2,3) by (auto simp: gate_def)
  then have any: "gate Inv Verified contents c0 (u, f')" for f'
    by (simp add: gate_def)
  from assms(4) v show ?thesis
    by (auto simp: flash_sector_def gate_abort [OF assms(1) any] split: option.splits)
      (simp add: gate_def)
qed

lemma gate_writeBuffer:
  assumes "flash_spec contents boot hw" "gate Inv Verified contents c0 (u, f)"
    and "writeBuffer P hw u f = Inr (b, st')"
  shows "gate Inv Verified contents c0 st'"
proof -
  obtain f2 where f2: "writeBuffer P hw u f =
      (if \<not> up_post_header u then writeBuffer_header P hw u f2 else writeBuffer_payload P hw u f2)"
      "contents f2 = contents f"
    using assms(2) flash_gpio(2) [OF assms(1)] by (simp add: writeBuffer_def Let_def gate_def)
  then have g2: "gate Inv Verified contents c0 (u, f2)"
    using assms(2) by (simp add: gate_def)
  show ?thesis
  proof (cases "up_post_header u")
    case True
    then obtain buf e p where step: "up_buffer u = Some buf"
        "pr_payload P (up_processor u) buf (up_bufferLen u) = Inr (e, p)"
      using assms(3) f2(1)
      by (auto simp: writeBuffer_payload_def bind_res_Inr_iff split: option.splits)
    have p: "gate Inv Verified contents c0 (u\<lparr>up_processor := p\<rparr>, f2)"
      using payload_gate [OF _ step(2)] g2 True by (auto simp: gate_def)
    then show ?thesis
      using assms(3) f2(1) True step gate_abort [OF assms(1) p]
        gate_flash_sector [OF assms(1) p, of buf b st']
        gate_flash_sector [OF assms(1), of c0 "u\<lparr>up_processor := p, up_buffer := Some (buf[0 := 0xFF])\<rparr>"
          f2 "buf[0 := 0xFF]" b st']
      by (auto simp: writeBuffer_payload_def bind_res_Inr_iff Let_def split: if_splits)
  next
    case False
    then obtain buf e p ab l where step: "up_buffer u = Some buf"
        "pr_header P (up_processor u) (up_command u) buf (up_bufferLen u) = Inr (e, p, ab, l)"
      using assms(3) f2(1)
      by (auto simp: writeBuffer_header_def bind_res_Inr_iff Let_def split: option.splits)
    have p: "gate Inv Verified contents c0
        (u\<lparr>up_processor := p, up_buffer := Some ab, up_bufferLen := l\<rparr>, f2)"
      "e = PROC_OK \<Longrightarrow> gate Inv Verified contents c0
        (u\<lparr>up_processor := p, up_buffer := Some ab, up_bufferLen := l, up_post_header := True\<rparr>, f2)"
      using header_gate [OF _ step(2)] g2 False by (auto simp: gate_def)
    have q: "gate Inv Verified contents c0
        (u\<lparr>up_processor := p, up_buffer := Some ab, up_bufferLen := l, up_progress := n\<rparr>, f2)"
      "e = PROC_OK \<Longrightarrow> gate Inv Verified contents c0
        (u\<lparr>up_processor := p, up_buffer := Some ab, up_bufferLen := l, up_progress := n,
           up_post_header := True\<rparr>, f2)" for n
      using p by (simp_all add: gate_def)
    consider "e = PROC_OK" | "e = PROC_AGAIN" "l < SPI_FLASH_SEC_SIZE" "l < up_size u"
      | "e \<noteq> PROC_OK" "\<not> (e = PROC_AGAIN \<and> l < SPI_FLASH_SEC_SIZE \<and> l < up_size u)"
      by blast
    then show ?thesis
    proof cases
      case 1
      with assms(3) f2(1) False step q(2) show ?thesis by (auto simp: writeBuffer_header_def Let_def)
    next
      case 2
      with assms(3) f2(1) False step q(1) show ?thesis by (auto simp: writeBuffer_header_def Let_def)
    next
      case 3
      with assms(3) f2(1) False step gate_abort [OF assms(1) p(1)] show ?thesis
        by (auto simp: writeBuffer_header_def Let_def)
    qed
  qed
qed

lemma gate_fill:
  "gate Inv Verified contents c0 (u, f) \<Longrightarrow> fill_buffer data w u = Inr (w', u1) \<Longrightarrow>
   gate Inv Verified contents c0 (u1, f)"
  by (auto simp: fill_buffer_def Let_def gate_def split: option.splits if_splits)

lemma gate_flush:
  "flash_spec contents boot hw \<Longrightarrow> gate Inv Verified contents c0 (u, f) \<Longrightarrow>
   flush_if_full P hw u f = Inr (b, st') \<Longrightarrow> gate Inv Verified contents c0 st'"
  by (auto simp: flush_if_full_def gate_writeBuffer split: if_splits)

lemma gate_write:
  assumes "flash_spec contents boot hw" "gate Inv Verified contents c0 (u, f)"
    and "updater_write P hw data u f = Some (Inr (n, st'))"
  shows "gate Inv Verified contents c0 st'"
proof (cases "hasError u \<or> \<not> isRunning u \<or> length data > remaining u")
  case True
  with assms(2,3) gate_abort [OF assms(1,2)] show ?thesis
    by (auto simp: updater_write_def split: if_splits)
next
  case False
  with assms(3) have "write_loop P hw data 0 u f = Some (Inr (n, st'))"
    by (simp add: updater_write_def)
  then show ?thesis
    by (rule write_loop_invariant [where Q = "gate Inv Verified contents c0"])
      (use assms(2) gate_fill gate_flush [OF assms(1)] in \<open>auto\<close>)
qed

lemma gate_end_abort:
  assumes "flash_spec contents boot hw" "gate Inv Verified contents c0 (u, f)"
  shows "gate Inv Verified contents c0 (end_abort P hw u f)"
proof -
  obtain u1 f1 where a: "updater_abort_with P hw UPDATE_ERROR_ABORT u f = (u1, f1)"
    by (cases "updater_abort_with P hw UPDATE_ERROR_ABORT u f") auto
  with gate_abort [OF assms, of UPDATE_ERROR_ABORT] gate_reset [OF assms(1)] show ?thesis
    by (simp add: end_abort_def)
qed

lemma gate_end_flush:
  assumes "flash_spec contents boot hw" "gate Inv Verified contents c0 (u, f)"
    and "end_flush P hw u f = Inr st'"
  shows "gate Inv Verified contents c0 st'"
  using assms(2,3) gate_writeBuffer [OF assms(1,2)]
  by (auto simp: end_flush_def bind_res_Inr_iff split: if_splits)

lemma gate_end_process:
  assumes "flash_spec contents boot hw" "gate Inv Verified contents c0 (u, f)"
    and "end_process P hw u f = Inr (r, st')"
  shows "gate Inv Verified contents c0 st'"
proof -
  obtain e p where p: "pr_end P (up_processor u) = Inr (e, p)"
      "(r, st') = (if e \<noteq> PROC_OK then (False, end_abort P hw (u\<lparr>up_processor := p\<rparr>) f)
                   else (True, u\<lparr>up_processor := p\<rparr>, f))"
    using assms(3) by (auto simp: end_process_def bind_res_Inr_iff split: if_splits)
  have "gate Inv Verified contents c0 (u\<lparr>up_processor := p\<rparr>, f)"
    using end_gate [OF _ p(1)] assms(2) by (auto simp: gate_def)
  with p(2) gate_end_abort [OF assms(1)] show ?thesis by (auto split: if_splits)
qed

lemma gate_end:
  assumes "flash_spec contents boot hw" "gate Inv Verified contents c0 (u, f)"
    and "updater_end P hw b u f = Inr (r, st')"
  shows "gate Inv Verified contents c0 st'"
proof -
  consider "st' = updater_reset P hw u f" | "st' = end_abort P hw u f"
    | u2 f2 where "gate Inv Verified contents c0 (u2, f2)" "end_process P hw u2 f2 = Inr (r, st')"
    using assms(2,3) gate_end_flush [OF assms(1,2)]
    by (auto simp: updater_end_def bind_res_Inr_iff split: if_splits)
  then show ?thesis
    by cases (simp_all add: gate_reset [OF assms(1,2)] gate_end_abort [OF assms(1,2)]
      gate_end_process [OF assms(1)])
qed

lemma gate_run:
  assumes "flash_spec contents boot hw" "gate Inv Verified contents c0 st"
    and "run_ops P hw ops st = Some (Inr st')"
  shows "gate Inv Verified contents c0 st'"
  using assms(2,3)
proof (induction ops arbitrary: st)
  case Nil
  then show ?case by simp
next
  case (Cons op ops)
  obtain u f where st: "st = (u, f)" by (cases st)
  from Cons.prems(2) obtain st1 where st1: "run_op P hw op st = Some (Inr st1)"
      "run_ops P hw ops st1 = Some (Inr st')"
    by (auto split: option.splits sum.splits)
  have g: "gate Inv Verified contents c0 (u, f)" using Cons.prems(1) st by simp
  have "gate Inv Verified contents c0 st1"
  proof (cases op)
    case (OpBegin sz command ledPin ledOn)
    with st1(1) gate_begin [OF assms(1) g] show ?thesis by (auto simp: run_op_def st)
  next
    case (OpWrite data)
    with st1(1) obtain r where r: "updater_write P hw data u f = Some r" "map_sum id snd r = Inr st1"
      by (auto simp: run_op_def st)
    then obtain n where "updater_write P hw data u f = Some (Inr (n, st1))"
      by (cases r) auto
    with gate_write [OF assms(1) g] show ?thesis by blast
  next
    case (OpEnd b)
    with st1(1) have "map_sum id snd (updater_end P hw b u f) = Inr st1" by (simp add: run_op_def st)
    then obtain x where x: "updater_end P hw b u f = Inr x" "snd x = st1"
      by (cases "updater_end P hw b u f") simp_all
    then have "updater_end P hw b u f = Inr (fst x, st1)" by (metis prod.collapse)
    with gate_end [OF assms(1) g] show ?thesis by blast
  next
    case OpAbort
    with st1(1) gate_abort [OF assms(1) g] show ?thesis by (auto simp: run_op_def st updater_abort_def)
  qed
  with Cons.IH st1(2) show ?case by blast
qed

end

section \<open>The gate of the installed chain\<close>

text \<open>The reply in the blob was parsed, uses an accepted digest and is signed by the trusted chain.\<close>

definition rfc_verified :: "('c, 'd) crypto \<Rightarrow> ('c, 'd, 'n) rfc3161 \<Rightarrow> bool" where
  "rfc_verified cr s \<longleftrightarrow>
     (case (rf_blob s, rf_reply s) of
        (Some blob, Some reply) \<Rightarrow>
          ts_reply_parse cr blob = Some reply \<and> MD_SHA256 \<le> rp_digest_type reply \<and>
          rf_trustChain s \<noteq> [] \<and> crt_verify cr (rp_chain reply) (rf_trustChain s)
      | _ \<Rightarrow> False)"

definition rfc_inv :: "('c, 'd) crypto \<Rightarrow> ('c, 'd, 'n) rfc3161 \<Rightarrow> bool" where
  "rfc_inv cr s \<longleftrightarrow> \<not> rf_legacyAllowed s \<and> (rf_state s = POST \<longrightarrow> rfc_verified cr s)"

definition ota_inv :: "('c, 'd) crypto \<Rightarrow> ('c, 'd, 'n) rfc3161 device_check \<Rightarrow> bool" where
  "ota_inv cr s \<longleftrightarrow> rfc_inv cr (dc_next s)"

definition ota_verified :: "('c, 'd) crypto \<Rightarrow> ('c, 'd, 'n) rfc3161 device_check \<Rightarrow> bool" where
  "ota_verified cr s \<longleftrightarrow>
     dc_headerProcessed s \<and> rf_state (dc_next s) = POST \<and> rfc_verified cr (dc_next s)"

lemma rfc_verified_frame [simp]:
  "rfc_verified cr (s\<lparr>rf_next := n\<rparr>) = rfc_verified cr s"
  "rfc_verified cr (s\<lparr>rf_md_ctx := d\<rparr>) = rfc_verified cr s"
  by (simp_all add: rfc_verified_def split: option.split)

lemma rfc_next_gate:
  "rfc_next_header nx s command buffer len = Inr (e, s', buffer', len') \<Longrightarrow> \<exists>n. s' = s\<lparr>rf_next := n\<rparr>"
  by (auto simp: rfc_next_header_def bind_res_Inr_iff)

lemma rfc_init_gate:
  "rfc_header_init cr nx s command buffer len = Inr (e, s', buffer', len') \<Longrightarrow>
   rf_state s = INIT \<Longrightarrow> \<not> rf_legacyAllowed s \<Longrightarrow>
   rf_state s' \<noteq> POST \<and> \<not> rf_legacyAllowed s' \<and> e \<noteq> PROC_OK \<and> rf_md_ctx s' = rf_md_ctx s"
  by (auto simp: rfc_header_init_def bind_res_Inr_iff Let_def split: if_splits option.splits)

lemma rfc_verify_gate:
  "rfc_verify_reply cr blob s = (e, s') \<Longrightarrow> rf_blob s = Some blob \<Longrightarrow> rf_state s \<noteq> POST \<Longrightarrow>
   e \<noteq> PROC_OK \<and> rf_legacyAllowed s' = rf_legacyAllowed s \<and>
   (rf_state s' = POST \<longleftrightarrow> e = PROC_AGAIN) \<and> (rf_state s' = POST \<longrightarrow> rfc_verified cr s')"
  by (auto simp: rfc_verify_reply_def rfc_verified_def Let_def split: if_splits option.splits)

lemma rfc_rfc_gate:
  "rfc_header_rfc cr s buffer len = Inr (e, s', buffer', len') \<Longrightarrow> rf_state s = RFC \<Longrightarrow>
   e \<noteq> PROC_OK \<and> rf_legacyAllowed s' = rf_legacyAllowed s \<and> (rf_state s' = POST \<longrightarrow> rfc_verified cr s')"
  by (auto simp: rfc_header_rfc_def Let_def split: if_splits option.splits prod.splits
      dest!: rfc_verify_gate)

lemma rfc_header_gate:
  assumes "rfc_process_header cr nx s command buffer len = Inr (e, s', buffer', len')" "rfc_inv cr s"
  shows "rfc_inv cr s' \<and> (rf_state s = POST \<longrightarrow> rf_state s' = POST) \<and> (e = PROC_OK \<longrightarrow> rf_state s' = POST)"
proof (cases "rf_state s")
  case INIT
  with assms rfc_init_gate [of cr nx s command buffer len e s' buffer' len'] show ?thesis
    by (simp add: rfc_process_header_def rfc_inv_def)
next
  case RFC
  with assms rfc_rfc_gate [of cr s buffer len e s' buffer' len'] show ?thesis
    by (simp add: rfc_process_header_def rfc_inv_def)
next
  case POST
  with assms rfc_next_gate [of nx s command buffer len e s' buffer' len'] show ?thesis
    by (auto simp: rfc_process_header_def rfc_inv_def)
qed

text \<open>Either the device check passed the call on, or it refused it and changed nothing.\<close>

lemma dc_header_cases:
  assumes "dc_process_header nx s command buffer len = Inr (e, s', buffer', len')"
  obtains (passed) b where "dc_next_header nx (s\<lparr>dc_headerProcessed := True\<rparr>) command b len
      = Inr (e, s', buffer', len')"
    "dc_headerProcessed s \<and> b = buffer \<or>
     (\<exists>i q. memchr buffer 10 len = Some i \<and> header_params (buffer[i := 0]) = Some q \<and>
        header_matches q (dc_model s) (dc_hwRev s))"
  | (refused) "s' = s" "e \<noteq> PROC_OK"
proof (cases "dc_headerProcessed s")
  case True
  then have "s\<lparr>dc_headerProcessed := True\<rparr> = s" by simp
  with True assms that show ?thesis by (simp add: dc_process_header_def)
next
  case False
  with assms that show ?thesis
    by (auto simp: dc_process_header_def bind_res_Inr_iff Let_def
        split: if_split_asm option.split_asm)
qed

lemma ota_header_gate:
  assumes "dc_process_header (UpdateProcessorRFC3161 cr nx) s command buffer len = Inr (e, s', buffer', len')"
    and "ota_inv cr s"
  shows "ota_inv cr s' \<and> (ota_verified cr s \<longrightarrow> ota_verified cr s') \<and> (e = PROC_OK \<longrightarrow> ota_verified cr s')"
  using assms(1)
proof (cases rule: dc_header_cases)
  case (passed b)
  then obtain n where n: "rfc_process_header cr nx (dc_next s) command b len = Inr (e, n, buffer', len')"
      "s' = s\<lparr>dc_headerProcessed := True, dc_next := n\<rparr>"
    by (auto simp: dc_next_header_def bind_res_Inr_iff)
  with rfc_header_gate [OF n(1)] assms(2) show ?thesis
    by (auto simp: ota_inv_def ota_verified_def rfc_inv_def)
next
  case refused
  with assms(2) show ?thesis by simp
qed

interpretation ota_gate: gated_processor "ota_processor cr" "ota_inv cr" "ota_verified cr" for cr
proof (unfold_locales, goal_cases)
  case (1 s command buffer len e s' buffer' len')
  then show ?case using ota_header_gate by (simp add: ota_processor_def)
qed (simp_all add: ota_processor_def)

text \<open>The chain as \<open>OtaService::init\<close> builds it.\<close>

definition ota_chain ::
  "string \<Rightarrow> string \<Rightarrow> 'c list \<Rightarrow> ('c, 'd, unit) rfc3161 device_check" where
  "ota_chain model hwRev certs =
     device_check_init model hwRev ((rfc_init ())\<lparr>rf_trustChain := certs\<rparr>)"

lemma ota_chain_start: "ota_inv cr (ota_chain model hwRev certs)" "\<not> ota_verified cr (ota_chain model hwRev certs)"
  by (simp_all add: ota_chain_def ota_inv_def rfc_inv_def ota_verified_def device_check_init_def rfc_init_def)


section \<open>What the digest check guarantees\<close>

text \<open>
  The updater with \<open>UpdateProcessorRFC3161\<close> as its processor: \<open>p\<close> is the payload handed on so far.
  The digest context stands for \<open>p\<close>, and the flash holds \<open>p\<close> with its first byte blanked.
\<close>

definition signed_payload ::
  "('c, 'd) crypto \<Rightarrow> ('d \<Rightarrow> nat \<times> u8 list) \<Rightarrow> ('f \<Rightarrow> 'part \<Rightarrow> nat \<Rightarrow> u8) \<Rightarrow> u8 list \<Rightarrow>
   (('c, 'd, unit) rfc3161, 'f, 'part) updater \<times> 'f \<Rightarrow> bool" where
  "signed_payload cr absorbed contents p st \<longleftrightarrow>
     (case st of (u, f) \<Rightarrow>
       up_progress_callback u = None \<and> \<not> rf_legacyAllowed (up_processor u) \<and> up_command u = U_FLASH \<and>
       (\<forall>buf. up_buffer u = Some buf \<longrightarrow> length buf = SPI_FLASH_SEC_SIZE) \<and>
       up_bufferLen u \<le> SPI_FLASH_SEC_SIZE \<and>
       (\<forall>d. rf_md_ctx (up_processor u) = Some d \<longrightarrow>
          rf_state (up_processor u) = POST \<and> rfc_verified cr (up_processor u) \<and>
          rf_md_info (up_processor u) = Some (fst (absorbed d)) \<and>
          map_option rp_digest_type (rf_reply (up_processor u)) = Some (fst (absorbed d)) \<and>
          snd (absorbed d) = p) \<and>
       up_progress_flash u = length p \<and>
       (p \<noteq> [] \<longrightarrow> hd p = ESP_IMAGE_HEADER_MAGIC \<and>
          (\<exists>part. up_partition u = Some part \<and>
             (\<forall>i<length p. contents f part i = (if i = 0 then 0xFF else p ! i)))) \<and>
       (\<not> up_post_header u \<longrightarrow> p = []))"

definition signed_some ::
  "('c, 'd) crypto \<Rightarrow> ('d \<Rightarrow> nat \<times> u8 list) \<Rightarrow> ('f \<Rightarrow> 'part \<Rightarrow> nat \<Rightarrow> u8) \<Rightarrow>
   (('c, 'd, unit) rfc3161, 'f, 'part) updater \<times> 'f \<Rightarrow> bool" where
  "signed_some cr absorbed contents st \<longleftrightarrow> (\<exists>p. signed_payload cr absorbed contents p st)"

lemma signed_reset:
  assumes "\<not> rf_legacyAllowed (up_processor u)" "up_progress_callback u = None"
  shows "signed_payload cr absorbed contents [] (updater_reset (UpdateProcessorRFC3161 cr nx) hw u f)"
  using assms by (simp add: signed_payload_def updater_reset_def rfc_reset_def)

lemma signed_abort:
  assumes "\<not> rf_legacyAllowed (up_processor u)" "up_progress_callback u = None"
  shows "signed_payload cr absorbed contents [] (updater_abort_with (UpdateProcessorRFC3161 cr nx) hw err u f)"
  using assms
  by (simp add: signed_payload_def updater_abort_with_def updater_reset_def rfc_reset_def)

lemma rfc_verify_ctx:
  assumes "md_spec absorbed hash cr" "rfc_verify_reply cr blob s = (PROC_AGAIN, s')" "rf_blob s = Some blob"
  shows "\<exists>d reply. rf_md_ctx s' = Some d \<and> rf_reply s' = Some reply \<and> rf_state s' = POST \<and>
    rfc_verified cr s' \<and> absorbed d = (rp_digest_type reply, []) \<and>
    rf_md_info s' = Some (rp_digest_type reply)"
  using assms(2,3) md_start_absorbed [OF assms(1)]
  by (auto simp: rfc_verify_reply_def rfc_verified_def Let_def split: if_splits option.splits)

text \<open>A header call that does not fail leaves a digest context only together with a verified reply.\<close>

lemma rfc_header_ctx:
  assumes "md_spec absorbed hash cr" "\<not> rf_legacyAllowed s"
    and "\<forall>d. rf_md_ctx s = Some d \<longrightarrow> rf_state s = POST \<and> rfc_verified cr s \<and>
          rf_md_info s = Some (fst (absorbed d)) \<and>
          map_option rp_digest_type (rf_reply s) = Some (fst (absorbed d)) \<and> snd (absorbed d) = []"
    and "rfc_process_header cr UpdateProcessorLegacy s command buffer len = Inr (e, s', buffer', len')"
  shows "\<not> rf_legacyAllowed s' \<and> (e = PROC_OK \<or> e = PROC_AGAIN \<longrightarrow>
    (\<forall>d. rf_md_ctx s' = Some d \<longrightarrow> rf_state s' = POST \<and> rfc_verified cr s' \<and>
       rf_md_info s' = Some (fst (absorbed d)) \<and>
       map_option rp_digest_type (rf_reply s') = Some (fst (absorbed d)) \<and> snd (absorbed d) = []))"
proof (cases "rf_state s")
  case INIT
  with assms(3) have none: "rf_md_ctx s = None" by auto
  from INIT assms(2,4) rfc_init_gate [of cr UpdateProcessorLegacy s command buffer len e s' buffer' len'] none
  show ?thesis by (simp add: rfc_process_header_def)
next
  case RFC
  with assms(3) have none: "rf_md_ctx s = None" by auto
  from RFC assms(4) have hdr: "rfc_header_rfc cr s buffer len = Inr (e, s', buffer', len')"
    by (simp add: rfc_process_header_def)
  from hdr RFC rfc_rfc_gate have leg: "e \<noteq> PROC_OK" "rf_legacyAllowed s' = rf_legacyAllowed s" by blast+
  consider "rf_md_ctx s' = None"
    | blob t where "rfc_verify_reply cr blob t = (e, s')" "rf_blob t = Some blob"
    using hdr none by (auto simp: rfc_header_rfc_def Let_def split: option.splits if_splits prod.splits)
  then show ?thesis
  proof cases
    case 1
    with leg assms(2) show ?thesis by simp
  next
    case 2
    with rfc_verify_ctx [OF assms(1)] leg assms(2) show ?thesis by fastforce
  qed
next
  case POST
  with assms(4) rfc_next_gate [of UpdateProcessorLegacy s command buffer len e s' buffer' len']
  have "\<exists>n. s' = s\<lparr>rf_next := n\<rparr>" by (simp add: rfc_process_header_def)
  with assms(2,3) show ?thesis by auto
qed

lemma signed_header:
  assumes "md_spec absorbed hash cr" "signed_payload cr absorbed contents p (u, f)" "\<not> up_post_header u"
    and "writeBuffer_header (UpdateProcessorRFC3161 cr UpdateProcessorLegacy) hw u f = Inr (b, st')"
  shows "signed_payload cr absorbed contents [] st'"
proof -
  let ?P = "UpdateProcessorRFC3161 cr UpdateProcessorLegacy"
  from assms(4) obtain buf e s' buf' l where step: "up_buffer u = Some buf"
      "rfc_process_header cr UpdateProcessorLegacy (up_processor u) (up_command u) buf (up_bufferLen u)
         = Inr (e, s', buf', l)"
    by (auto simp: writeBuffer_header_def bind_res_Inr_iff Let_def split: option.splits)
  have p: "p = []" using assms(2,3) by (simp add: signed_payload_def)
  note ctx = rfc_header_ctx [OF assms(1) _ _ step(2)]
  have shape: "length buf' = length buf \<and> l \<le> up_bufferLen u"
    using legacy.rfc_shape [OF _ step(2)] assms(2) step(1) by (simp add: signed_payload_def)
  let ?u1 = "u\<lparr>up_processor := s', up_buffer := Some buf', up_bufferLen := l\<rparr>"
  have ok: "signed_payload cr absorbed contents [] (?u1\<lparr>up_progress := n, up_post_header := b\<rparr>, f)"
    if "e = PROC_OK \<or> e = PROC_AGAIN" for n b
    using that assms(2) ctx shape step(1) p by (simp add: signed_payload_def)
  have again: "signed_payload cr absorbed contents [] (?u1\<lparr>up_progress := n\<rparr>, f)"
    if "e = PROC_OK \<or> e = PROC_AGAIN" for n
    using ok [OF that, where n = n and b = "up_post_header u"] by (simp add: signed_payload_def)
  have err: "signed_payload cr absorbed contents [] (updater_abort_with ?P hw er ?u1 f)" for er
    by (rule signed_abort) (use assms(2) ctx p in \<open>simp_all add: signed_payload_def\<close>)
  consider "e = PROC_OK" | "e = PROC_AGAIN" "l < SPI_FLASH_SEC_SIZE" "l < up_size u"
    | "e \<noteq> PROC_OK" "\<not> (e = PROC_AGAIN \<and> l < SPI_FLASH_SEC_SIZE \<and> l < up_size u)"
    by blast
  then show ?thesis
  proof cases
    case 1
    with assms(4) step ok show ?thesis by (auto simp: writeBuffer_header_def Let_def)
  next
    case 2
    with assms(4) step again show ?thesis by (auto simp: writeBuffer_header_def Let_def)
  next
    case 3
    with assms(4) step err show ?thesis by (auto simp: writeBuffer_header_def Let_def)
  qed
qed

lemma and_erased: "and (0xFF :: u8) b = b"
proof -
  have "(0xFF :: u8) = - 1" by simp
  then show ?thesis by (simp only: and.left_neutral)
qed

text \<open>One sector, written behind the payload flashed so far.\<close>

lemma flash_sector_contents:
  assumes "flash_spec contents boot hw" "up_partition u = Some part"
    and "flash_sector P hw u buf f = Inr (True, u', f')"
    and "up_bufferLen u \<le> SPI_FLASH_SEC_SIZE" "length buf = SPI_FLASH_SEC_SIZE"
  shows "u' = u\<lparr>up_progress_flash := up_progress_flash u + up_bufferLen u,
                up_progress := add32 (up_progress u) (up_bufferLen u), up_bufferLen := 0\<rparr> \<and>
    (\<forall>i<up_progress_flash u. contents f' part i = contents f part i) \<and>
    (\<forall>i<up_bufferLen u. contents f' part (up_progress_flash u + i) = buf ! i)"
proof -
  obtain f1 where f1: "fl_erase hw f part (up_progress_flash u) SPI_FLASH_SEC_SIZE = Some f1"
      "fl_write hw f1 part (up_progress_flash u) (take (up_bufferLen u) buf) = Some f'"
      "u' = u\<lparr>up_progress_flash := add32 (up_progress_flash u) (up_bufferLen u),
              up_progress := add32 (up_progress u) (up_bufferLen u), up_bufferLen := 0\<rparr>"
    using assms(2,3)
    by (auto simp: flash_sector_def split: option.splits dest!: arg_cong [of _ _ fst])
  note er = flash_erase [OF assms(1) f1(1)] and wr = flash_write [OF assms(1) f1(2)]
  have "up_progress_flash u + up_bufferLen u < 2 ^ 32"
    using wr flash_size [OF assms(1), of part] assms(4,5) by simp
  with f1(3) er wr assms(4,5) show ?thesis by (simp add: add32_exact and_erased)
qed

lemma signed_sector:
  assumes "flash_spec contents boot hw" "signed_payload cr absorbed contents p (u, f)"
    and "flash_sector (UpdateProcessorRFC3161 cr UpdateProcessorLegacy) hw
           (u\<lparr>up_processor := s', up_buffer := Some buf'\<rparr>) buf' f = Inr (b, st')"
    and "length buf' = SPI_FLASH_SEC_SIZE" "up_post_header u"
    and "\<not> rf_legacyAllowed s'"
    and "\<forall>d. rf_md_ctx s' = Some d \<longrightarrow> rf_state s' = POST \<and> rfc_verified cr s' \<and>
          rf_md_info s' = Some (fst (absorbed d)) \<and>
          map_option rp_digest_type (rf_reply s') = Some (fst (absorbed d)) \<and>
          snd (absorbed d) = p @ take (up_bufferLen u) buf"
    and "p = [] \<Longrightarrow> length buf = SPI_FLASH_SEC_SIZE \<and> buf ! 0 = ESP_IMAGE_HEADER_MAGIC \<and> buf' = buf[0 := 0xFF]"
      "p \<noteq> [] \<Longrightarrow> buf' = buf"
  shows "signed_some cr absorbed contents st'"
proof (cases b)
  case False
  have "signed_payload cr absorbed contents []
      (updater_abort_with (UpdateProcessorRFC3161 cr UpdateProcessorLegacy) hw er
        (u\<lparr>up_processor := s', up_buffer := Some buf'\<rparr>) f')" for er f'
    by (rule signed_abort) (use assms(2,6) in \<open>simp_all add: signed_payload_def\<close>)
  with False assms(3) show ?thesis
    by (auto simp: flash_sector_def signed_some_def split: option.splits)
next
  case True
  let ?u = "u\<lparr>up_processor := s', up_buffer := Some buf'\<rparr>"
  obtain u' f' where st': "st' = (u', f')" by (cases st')
  obtain part where part: "up_partition u = Some part"
    using assms(3) True by (auto simp: flash_sector_def split: option.splits)
  have n: "up_bufferLen u \<le> SPI_FLASH_SEC_SIZE" "up_progress_flash u = length p"
    using assms(2) by (simp_all add: signed_payload_def)
  note sec = flash_sector_contents [OF assms(1), of ?u part _ buf' f u' f']
  have flashed: "u' = ?u\<lparr>up_progress_flash := length p + up_bufferLen u,
        up_progress := add32 (up_progress u) (up_bufferLen u), up_bufferLen := 0\<rparr>"
      "\<forall>i<length p. contents f' part i = contents f part i"
      "\<forall>i<up_bufferLen u. contents f' part (length p + i) = buf' ! i"
    using sec assms(3,4) part True st' n by simp_all
  let ?q = "p @ take (up_bufferLen u) buf"
  have len: "length ?q = length p + up_bufferLen u"
    using assms(4,8,9) n by (cases "p = []") auto
  have bytes: "contents f' part i = (if i = 0 then 0xFF else ?q ! i)" if "i < length ?q" for i
  proof (cases "i < length p")
    case True
    then have "p \<noteq> []" by auto
    with True assms(2) part flashed(2) show ?thesis by (auto simp: signed_payload_def nth_append)
  next
    case False
    then obtain j where j: "i = length p + j" by (metis le_Suc_ex not_le)
    with that len have "j < up_bufferLen u" by simp
    with flashed(3) j have c: "contents f' part i = buf' ! j" by simp
    show ?thesis
    proof (cases "p = []")
      case True
      with assms(8) c j \<open>j < up_bufferLen u\<close> n show ?thesis by (cases j) (auto simp: SPI_FLASH_SEC_SIZE_def)
    next
      case False
      with assms(9) c j \<open>j < up_bufferLen u\<close> show ?thesis by (simp add: nth_append)
    qed
  qed
  have hd: "hd ?q = ESP_IMAGE_HEADER_MAGIC" if "?q \<noteq> []"
  proof (cases "p = []")
    case True
    with that assms(8) show ?thesis by (cases buf; cases "up_bufferLen u") auto
  next
    case False
    with assms(2) show ?thesis by (simp add: signed_payload_def)
  qed
  have "signed_payload cr absorbed contents ?q (u', f')"
    using assms(2,4,5,6,7) len bytes hd part flashed(1) by (simp add: signed_payload_def)
  with st' show ?thesis by (auto simp: signed_some_def)
qed

lemma signed_writeBuffer:
  assumes "md_spec absorbed hash cr" "flash_spec contents boot hw" "signed_some cr absorbed contents (u, f)"
    and "writeBuffer (UpdateProcessorRFC3161 cr UpdateProcessorLegacy) hw u f = Inr (b, st')"
  shows "signed_some cr absorbed contents st'"
proof -
  let ?P = "UpdateProcessorRFC3161 cr UpdateProcessorLegacy"
  obtain p where p: "signed_payload cr absorbed contents p (u, f)"
    using assms(3) by (auto simp: signed_some_def)
  obtain f2 where f2: "writeBuffer ?P hw u f =
      (if \<not> up_post_header u then writeBuffer_header ?P hw u f2 else writeBuffer_payload ?P hw u f2)"
      "contents f2 = contents f"
    using p flash_gpio(2) [OF assms(2)] by (simp add: writeBuffer_def Let_def signed_payload_def)
  then have p2: "signed_payload cr absorbed contents p (u, f2)"
    using p by (simp add: signed_payload_def)
  show ?thesis
  proof (cases "up_post_header u")
    case False
    with f2(1) assms(4) have "writeBuffer_header ?P hw u f2 = Inr (b, st')" by simp
    from signed_header [OF assms(1) p2 False this] show ?thesis by (auto simp: signed_some_def)
  next
    case True
    with assms(4) f2(1) obtain buf e s' where step: "up_buffer u = Some buf"
        "rfc_process_payload cr UpdateProcessorLegacy (up_processor u) buf (up_bufferLen u) = Inr (e, s')"
      by (auto simp: writeBuffer_payload_def bind_res_Inr_iff split: option.splits)
    have leg: "\<not> rf_legacyAllowed (up_processor u)" "\<not> rf_legacyAllowed s'"
      using p step(2) by (auto simp: signed_payload_def rfc_process_payload_def split: if_splits option.splits)
    have again: "e \<noteq> PROC_AGAIN" using rfc.payload_not_again [of cr] step(2) by simp
    show ?thesis
    proof (cases "e = PROC_OK")
      case False
      have "signed_payload cr absorbed contents []
          (updater_abort_with ?P hw UPDATE_ERROR_STREAM (u\<lparr>up_processor := s'\<rparr>) f2)"
        by (rule signed_abort) (use p leg in \<open>simp_all add: signed_payload_def\<close>)
      with False True again step assms(4) f2(1) show ?thesis
        by (auto simp: writeBuffer_payload_def Let_def signed_some_def)
    next
      case OK: True
      have upd: "\<forall>d. rf_md_ctx s' = Some d \<longrightarrow> rf_state s' = POST \<and> rfc_verified cr s' \<and>
          rf_md_info s' = Some (fst (absorbed d)) \<and>
          map_option rp_digest_type (rf_reply s') = Some (fst (absorbed d)) \<and>
          snd (absorbed d) = p @ take (up_bufferLen u) buf"
        using step(2) OK leg p md_update_absorbed [OF assms(1)]
        by (auto simp: rfc_process_payload_def signed_payload_def rfc_verified_def bind_eq_Some_conv
            split: if_splits option.splits)
      have buf: "length buf = SPI_FLASH_SEC_SIZE" "up_progress_flash u = length p"
        using p step(1) by (simp_all add: signed_payload_def)
      note sector = signed_sector [OF assms(2) p2, where s' = s' and b = b and st' = st' and buf = buf,
        OF _ _ True leg(2) upd]
      show ?thesis
      proof (cases "p = []")
        case True
        with \<open>up_post_header u\<close> OK step assms(4) f2(1) buf have
          "buf ! 0 = ESP_IMAGE_HEADER_MAGIC"
          "flash_sector ?P hw (u\<lparr>up_processor := s', up_buffer := Some (buf[0 := 0xFF])\<rparr>) (buf[0 := 0xFF]) f2
             = Inr (b, st')"
          by (auto simp: writeBuffer_payload_def Let_def bind_res_Inr_iff rd_def split: if_splits)
        with True buf sector [of "buf[0 := 0xFF]"] show ?thesis by simp
      next
        case False
        have same: "u\<lparr>up_processor := s'\<rparr> = u\<lparr>up_processor := s', up_buffer := Some buf\<rparr>"
          using step(1) by simp
        with False \<open>up_post_header u\<close> OK step assms(4) f2(1) buf have
          "flash_sector ?P hw (u\<lparr>up_processor := s', up_buffer := Some buf\<rparr>) buf f2 = Inr (b, st')"
          unfolding same [symmetric] by (simp add: writeBuffer_payload_def Let_def)
        with False buf sector [of buf] show ?thesis by simp
      qed
    qed
  qed
qed

lemma signed_fill:
  assumes "signed_some cr absorbed contents (u, f)" "fill_buffer data w u = Inr (w', u1)"
  shows "signed_some cr absorbed contents (u1, f)"
proof -
  obtain p where p: "signed_payload cr absorbed contents p (u, f)"
    using assms(1) by (auto simp: signed_some_def)
  obtain a where a: "up_buffer u = Some a"
    using assms(2) by (auto simp: fill_buffer_def Let_def split: option.splits)
  define l where "l = (if length data - w + up_bufferLen u > SPI_FLASH_SEC_SIZE
      then sub32 SPI_FLASH_SEC_SIZE (up_bufferLen u) else length data - w)"
  have "fill_buffer data w u = (if up_bufferLen u + l > length a \<or> w + l > length data then Inl OutOfBounds
      else Inr (w + l, u\<lparr>up_buffer := Some (take (up_bufferLen u) a @ take l (drop w data) @
             drop (up_bufferLen u + l) a), up_bufferLen := up_bufferLen u + l\<rparr>))"
    unfolding fill_buffer_def Let_def l_def a by (rule option.case(2))
  with assms(2) have "u1 = u\<lparr>up_buffer := Some (take (up_bufferLen u) a @ take l (drop w data) @
        drop (up_bufferLen u + l) a), up_bufferLen := up_bufferLen u + l\<rparr>"
      "up_bufferLen u + l \<le> length a" "w + l \<le> length data"
    by (simp_all split: if_split_asm)
  with p a have "signed_payload cr absorbed contents p (u1, f)" by (simp add: signed_payload_def)
  then show ?thesis by (auto simp: signed_some_def)
qed

lemma signed_write:
  assumes "md_spec absorbed hash cr" "flash_spec contents boot hw" "signed_some cr absorbed contents (u, f)"
    and "updater_write (UpdateProcessorRFC3161 cr UpdateProcessorLegacy) hw data u f = Some (Inr (n, st'))"
  shows "signed_some cr absorbed contents st'"
proof (cases "hasError u \<or> \<not> isRunning u \<or> length data > remaining u")
  case True
  have "\<not> rf_legacyAllowed (up_processor u)" "up_progress_callback u = None"
    using assms(3) by (auto simp: signed_some_def signed_payload_def)
  from signed_abort [OF this] have
    "signed_some cr absorbed contents (updater_abort_with
       (UpdateProcessorRFC3161 cr UpdateProcessorLegacy) hw UPDATE_ERROR_SPACE u f)"
    unfolding signed_some_def by blast
  with True assms(3,4) show ?thesis by (auto simp: updater_write_def split: if_splits)
next
  case False
  with assms(4) have
    "write_loop (UpdateProcessorRFC3161 cr UpdateProcessorLegacy) hw data 0 u f = Some (Inr (n, st'))"
    by (simp add: updater_write_def)
  then show ?thesis
  proof (rule write_loop_invariant [where Q = "signed_some cr absorbed contents"])
    show "signed_some cr absorbed contents st"
      if "signed_some cr absorbed contents (u, f)"
        "flush_if_full (UpdateProcessorRFC3161 cr UpdateProcessorLegacy) hw u f = Inr (b, st)"
      for u f b st
      using that signed_writeBuffer [OF assms(1,2)]
      by (auto simp: flush_if_full_def split: if_splits)
  qed (auto intro: assms(3) signed_fill)
qed

lemma signed_writes:
  assumes "md_spec absorbed hash cr" "flash_spec contents boot hw" "signed_some cr absorbed contents st"
    and "run_ops (UpdateProcessorRFC3161 cr UpdateProcessorLegacy) hw (map OpWrite chunks) st = Some (Inr st')"
  shows "signed_some cr absorbed contents st'"
  using assms(3,4)
proof (induction chunks arbitrary: st)
  case Nil
  then show ?case by simp
next
  case (Cons data chunks)
  obtain u f where st: "st = (u, f)" by (cases st)
  from Cons.prems(2) obtain st1 where st1:
      "run_op (UpdateProcessorRFC3161 cr UpdateProcessorLegacy) hw (OpWrite data) st = Some (Inr st1)"
      "run_ops (UpdateProcessorRFC3161 cr UpdateProcessorLegacy) hw (map OpWrite chunks) st1 = Some (Inr st')"
    by (auto split: option.splits sum.splits)
  from st1(1) obtain r where r:
      "updater_write (UpdateProcessorRFC3161 cr UpdateProcessorLegacy) hw data u f = Some r"
      "map_sum id snd r = Inr st1"
    by (auto simp: run_op_def st)
  then obtain n where
      "updater_write (UpdateProcessorRFC3161 cr UpdateProcessorLegacy) hw data u f = Some (Inr (n, st1))"
    by (cases r) auto
  from signed_write [OF assms(1,2) _ this] Cons.prems(1) st Cons.IH st1(2) show ?case by blast
qed

lemma signed_begin:
  assumes "flash_spec contents boot hw" "\<not> rf_legacyAllowed (up_processor u)" "up_progress_callback u = None"
    and "updater_begin (UpdateProcessorRFC3161 cr nx) hw sz U_FLASH pin lvl u f = (True, u', f')"
  shows "signed_payload cr absorbed contents [] (u', f')"
proof -
  let ?u = "u\<lparr>up_ledPin := pin, up_ledOn := lvl\<rparr>"
  obtain u0 f1 where u0: "updater_reset (UpdateProcessorRFC3161 cr nx) hw ?u f = (u0, f1)"
    by (cases "updater_reset (UpdateProcessorRFC3161 cr nx) hw ?u f")
  have s0: "signed_payload cr absorbed contents [] (u0, f1)"
    using signed_reset [of ?u cr absorbed contents nx hw f] assms(2,3) u0 by simp
  from assms(4) u0 obtain prt buf n where
      "u' = u0\<lparr>up_error := UPDATE_ERROR_OK, up_partition := prt, up_buffer := Some buf, up_size := n,
               up_command := U_FLASH\<rparr>"
      "f' = f1" "hw_malloc hw f1 SPI_FLASH_SEC_SIZE = Some buf"
    by (auto simp: updater_begin_def Let_def split: if_splits option.splits)
  with s0 flash_malloc [OF assms(1)] show ?thesis by (simp add: signed_payload_def)
qed

lemma signed_end:
  assumes "md_spec absorbed hash cr" "flash_spec contents boot hw" "signed_some cr absorbed contents (u, f)"
    and "updater_end (UpdateProcessorRFC3161 cr UpdateProcessorLegacy) hw True u f = Inr (True, u', f')"
  shows "up_command u' = U_FLASH \<and> (\<exists>reply p. rf_reply (up_processor u') = Some reply \<and> rfc_verified cr (up_processor u') \<and>
    take (md_get_size cr (rp_digest_type reply)) (rp_payload_digest reply) = hash (rp_digest_type reply) p \<and>
    (p \<noteq> [] \<longrightarrow> hd p = ESP_IMAGE_HEADER_MAGIC \<and> (\<exists>part. up_partition u' = Some part \<and>
       (\<forall>i<length p. contents f' part i = (if i = 0 then 0xFF else p ! i)))))"
proof -
  let ?P = "UpdateProcessorRFC3161 cr UpdateProcessorLegacy"
  from assms(4) obtain u2 where e: "end_flush ?P hw u f = Inr (u2, f')"
      "end_process ?P hw u2 f' = Inr (True, u', f')"
    by (auto simp: updater_end_def bind_res_Inr_iff end_process_def split: if_splits)
  obtain u1 where "signed_some cr absorbed contents (u1, f')" "u2 = u1\<lparr>up_size := up_progress u1\<rparr>"
    using e(1) assms(3) signed_writeBuffer [OF assms(1,2,3)]
    by (auto simp: end_flush_def bind_res_Inr_iff split: if_splits)
  then obtain p where p: "signed_payload cr absorbed contents p (u2, f')"
    by (auto simp: signed_some_def signed_payload_def)
  from e(2) obtain s' where s': "rfc_process_end cr UpdateProcessorLegacy (up_processor u2) = Inr (PROC_OK, s')"
      "u' = u2\<lparr>up_processor := s'\<rparr>"
    by (auto simp: end_process_def bind_res_Inr_iff split: if_splits)
  have leg: "\<not> rf_legacyAllowed (up_processor u2)" using p by (simp add: signed_payload_def)
  with s'(1) obtain d h reply t where d: "rf_md_ctx (up_processor u2) = Some d" "md_finish cr d = Some h"
      "rf_reply (up_processor u2) = Some reply" "rf_md_info (up_processor u2) = Some t"
      "s' = (up_processor u2)\<lparr>rf_md_ctx := None\<rparr>"
      "take (md_get_size cr t) (rp_payload_digest reply) = take (md_get_size cr t) h"
    unfolding rfc_process_end_def
    by (cases "rf_md_ctx (up_processor u2)")
      (auto simp: Let_def split: if_splits option.splits)
  then have d': "fst (absorbed d) = t" "t = rp_digest_type reply" "snd (absorbed d) = p"
    using p by (simp_all add: signed_payload_def)
  have h: "h = hash t p" using md_finish_hash [OF assms(1) d(2)] d' by simp
  have "rfc_verified cr s'" using p d by (simp add: signed_payload_def)
  moreover have "length (hash t bs) = md_get_size cr t" for t bs using length_hash [OF assms(1)] .
  ultimately show ?thesis
    using p d d' h s'(2)
    by (intro conjI exI [of _ reply] exI [of _ p]) (simp_all add: signed_payload_def)
qed

text \<open>Activation puts the first byte back and leaves the others as they are.\<close>

lemma activate_contents:
  assumes "flash_spec contents boot hw" "up_command u = U_FLASH" "up_partition u = Some part"
    and "updater_activate P hw u f = (True, u', f')"
    and "contents f part 0 = 0xFF"
  shows "boot f' = Some part \<and>
    contents f' part i = (if i = 0 then ESP_IMAGE_HEADER_MAGIC else contents f part i)"
proof -
  obtain f1 f2 where f1: "enablePartition hw f (Some part) = Some f1" "fl_set_boot hw f1 part = Some f2"
      "updater_reset P hw u f2 = (u', f')"
    using assms(2-4) by (auto simp: updater_activate_def split: option.splits if_splits)
  then have f': "boot f' = boot f2" "contents f' = contents f2"
    using flash_reset(1,2) [OF assms(1), of P u f2] by simp_all
  from f1(1) obtain buf where buf: "fl_read4 hw f part = Some buf"
      "fl_write hw f part 0 (ESP_IMAGE_HEADER_MAGIC # tl buf) = Some f1"
    by (auto simp: enablePartition_def split: option.splits)
  have tl: "tl buf = map (contents f part) [1..<4]"
    using flash_read4 [OF assms(1) buf(1)] by (simp add: upt_rec)
  have "contents f1 part i = (if i = 0 then ESP_IMAGE_HEADER_MAGIC else contents f part i)"
    using flash_write [OF assms(1) buf(2)] assms(5) by (cases i) (simp_all add: tl and_erased)
  with f' flash_set_boot [OF assms(1) f1(2)] show ?thesis by simp
qed


section \<open>Every write returns, and how an update ends\<close>

text \<open>
  C22. \<open>write\<close> always returns: on a running update with a whole sector buffer the copy loop ends
  after finitely many turns, whatever the image makes the processors answer; it never reports more
  bytes than it was given, keeps the buffer well formed, and reports fewer only with an error set.
\<close>

theorem updater_write_returns:
  assumes "up_ok u"
  shows "\<exists>r. updater_write (ota_processor cr) hw data u f = Some r \<and>
    (\<forall>n u' f'. r = Inr (n, u', f') \<longrightarrow>
       n \<le> length data \<and> up_ok u' \<and> (n = length data \<or> hasError u' \<or> \<not> isRunning u))"
proof (cases "hasError u \<or> \<not> isRunning u \<or> length data > remaining u")
  case True
  obtain v g where a: "updater_abort_with (ota_processor cr) hw UPDATE_ERROR_SPACE u f = (v, g)"
    by (cases "updater_abort_with (ota_processor cr) hw UPDATE_ERROR_SPACE u f")
  then have "\<not> isRunning v" "hasError v"
    using abort_with_simps [of "ota_processor cr" hw UPDATE_ERROR_SPACE u f] by (simp_all add: hasError_def)
  with True a assms show ?thesis by (auto simp: updater_write_def)
next
  case False
  with assms ota.write_loop_returns [of u 0 data cr hw f] show ?thesis
    by (fastforce simp: updater_write_def)
qed

text \<open>
  \<open>end(true)\<close> reports success although the last sector could not be written: the result of the
  final flush is not looked at, and the installed chain answers \<open>process_end\<close> with OK in every
  state. The error is only left in the error code.
\<close>

theorem ota_end_ignores_failed_flush:
  assumes "\<not> hasError u" "isRunning u" "up_bufferLen u > 0"
    and "writeBuffer (ota_processor cr) hw u f = Inr (False, u1, f1)"
  shows "updater_end (ota_processor cr) hw True u f = Inr (True, u1\<lparr>up_size := 0\<rparr>, f1) \<and> hasError u1"
proof -
  have "hasError u1 \<and> \<not> isRunning u1" using ota.writeBuffer_false [OF assms(4)] .
  moreover have "up_progress u1 = 0"
    using assms(4)
    by (auto simp: writeBuffer_def writeBuffer_header_def writeBuffer_payload_def flash_sector_def
        bind_res_Inr_iff Let_def updater_abort_with_def updater_reset_def
        split: if_splits option.splits)
  moreover have "pr_end (ota_processor cr) s = Inr (PROC_OK, s)" for s
    by (simp add: ota_processor_def)
  ultimately show ?thesis
    using assms by (simp add: updater_end_def end_flush_def end_process_def isRunning_def)
qed

text \<open>
  The header line is not limited to 128 bytes: a line that ends in the last byte of the sector
  buffer makes \<open>process_header\<close> look for the DER blob behind the end of the heap buffer.
\<close>

theorem rfc_header_reads_past_buffer:
  assumes "rf_state s = INIT" "length buffer = SPI_FLASH_SEC_SIZE"
    and "take (length REDWAX_MAGIC_HEADER) buffer = REDWAX_MAGIC_HEADER"
    and "memchr buffer 10 SPI_FLASH_SEC_SIZE = Some (SPI_FLASH_SEC_SIZE - 1)"
  shows "rfc_process_header cr nx s command buffer SPI_FLASH_SEC_SIZE = Inl OutOfBounds"
  using assms
  by (simp add: rfc_process_header_def rfc_header_init_def SPI_FLASH_SEC_SIZE_def rd_def Let_def)


end
