(* ===== verification/OtaExample.thy ===== *)
theory OtaExample
  imports OtaChain
begin

text \<open>
  A complete upload, evaluated: a text line, a four byte reply and one sector of payload, sent in
  chunks that each fill the sector buffer. The payload is arbitrary apart from its first byte. The
  same steps show what the chain the firmware installs does not check, and provide the concrete
  runs of the witnesses.
\<close>

section \<open>A concrete flash and an image\<close>

text \<open>One partition of 1 MiB; the state is its bytes and what is booted next.\<close>

definition ex_hw :: "((nat \<Rightarrow> u8) \<times> unit option, unit) hardware" where
  "ex_hw = \<lparr>
     fl_next_update = (\<lambda>f. Some ()),
     fl_find_spiffs = (\<lambda>f. None),
     fl_size = (\<lambda>p. 0x100000),
     fl_read4 = (\<lambda>f p. Some (map (fst f) [0..<4])),
     fl_erase = (\<lambda>f p off n. if off + n \<le> 0x100000
        then Some (\<lambda>i. if off \<le> i \<and> i < off + n then 0xFF else fst f i, snd f) else None),
     fl_write = (\<lambda>f p off bs. if off + length bs \<le> 0x100000
        then Some (\<lambda>i. if off \<le> i \<and> i < off + length bs then and (fst f i) (bs ! (i - off)) else fst f i, snd f)
        else None),
     fl_set_boot = (\<lambda>f p. Some (fst f, Some p)),
     hw_malloc = (\<lambda>f n. Some (replicate n 0)),
     gpio_write = (\<lambda>f pin v. f),
     gpio_read = (\<lambda>f pin. False)\<rparr>"

definition ex_contents :: "(nat \<Rightarrow> u8) \<times> unit option \<Rightarrow> unit \<Rightarrow> nat \<Rightarrow> u8" where
  "ex_contents f p = fst f"

lemma ex_flash_spec: "flash_spec ex_contents snd ex_hw"
  unfolding flash_spec_def
  by (intro conjI allI impI)
    (auto simp: ex_hw_def ex_contents_def fun_eq_iff split: if_splits)

text \<open>\<open>RedWax/1.00 model=UCD2 hw=5.4\<close>\<close>

definition ex_line :: "u8 list" where
  "ex_line = [82,101,100,87,97,120,47,49,46,48,48,32,109,111,100,101,108,61,85,67,68,50,32,104,119,61,53,46,52]"

definition ex_blob :: "u8 list" where "ex_blob = [0x30, 0x82, 0, 0]"

definition ex_reply :: "unit ts_reply" where
  "ex_reply = \<lparr>rp_digest_type = MD_SHA256, rp_payload_digest = [1], rp_chain = [()]\<rparr>"

text \<open>
  A toy cryptographic library: every reply parses, every chain verifies, and the digest of a byte
  string is its last byte.
\<close>

definition ex_hash :: "nat \<Rightarrow> u8 list \<Rightarrow> u8 list" where
  "ex_hash t bs = [if bs = [] then 0 else last bs]"

definition ex_crypto :: "(unit, nat \<times> u8 list) crypto" where
  "ex_crypto = \<lparr>
     ts_reply_parse = (\<lambda>blob. Some ex_reply),
     md_known = (\<lambda>t. True),
     md_get_size = (\<lambda>t. 1),
     md_start = map_option (\<lambda>t. (t, [])),
     md_starts = (\<lambda>d. (fst d, [])),
     md_update = (\<lambda>d bs. Some (fst d, snd d @ bs)),
     md_finish = (\<lambda>d. Some (ex_hash (fst d) (snd d))),
     crt_parse = (\<lambda>der. Inr [()]),
     crt_verify = (\<lambda>chain trusted. True),
     malloc_ok = (\<lambda>n. True),
     sizeof_crt = 0\<rparr>"

lemma ex_md_spec: "md_spec (\<lambda>d. d) ex_hash ex_crypto"
  by (auto simp: md_spec_def ex_crypto_def ex_hash_def)

section \<open>The header of the image\<close>

definition ex_u ::
  "'p \<Rightarrow> u8 list \<Rightarrow> nat \<Rightarrow> nat \<Rightarrow> bool \<Rightarrow> ('p, (nat \<Rightarrow> u8) \<times> unit option, unit) updater" where
  "ex_u s buf n prog post = \<lparr>up_processor = s, up_error = UPDATE_ERROR_OK, up_buffer = Some buf,
     up_bufferLen = n, up_size = 0x100000, up_progress_callback = None, up_progress = prog,
     up_progress_flash = 0, up_command = U_FLASH, up_partition = Some (), up_post_header = post,
     up_ledPin = - 1, up_ledOn = False\<rparr>"

lemma ex_u_simps [simp]:
  "up_processor (ex_u s buf n prog post) = s"
  "up_error (ex_u s buf n prog post) = UPDATE_ERROR_OK"
  "up_buffer (ex_u s buf n prog post) = Some buf"
  "up_bufferLen (ex_u s buf n prog post) = n"
  "up_size (ex_u s buf n prog post) = 0x100000"
  "up_progress (ex_u s buf n prog post) = prog"
  "up_progress_flash (ex_u s buf n prog post) = 0"
  "up_progress_callback (ex_u s buf n prog post) = None"
  "up_command (ex_u s buf n prog post) = U_FLASH"
  "up_partition (ex_u s buf n prog post) = Some ()"
  "up_post_header (ex_u s buf n prog post) = post"
  "up_ledPin (ex_u s buf n prog post) = - 1"
  by (simp_all add: ex_u_def)

lemma ex_u_updates [simp]:
  "(ex_u s buf n prog post)\<lparr>up_processor := s'\<rparr> = ex_u s' buf n prog post"
  "(ex_u s buf n prog post)\<lparr>up_buffer := Some b\<rparr> = ex_u s b n prog post"
  "(ex_u s buf n prog post)\<lparr>up_bufferLen := m\<rparr> = ex_u s buf m prog post"
  "(ex_u s buf n prog post)\<lparr>up_progress := m\<rparr> = ex_u s buf n m post"
  "(ex_u s buf n prog post)\<lparr>up_post_header := q\<rparr> = ex_u s buf n prog q"
  by (simp_all add: ex_u_def)

text \<open>A header call on a full buffer that leaves \<open>l\<close> bytes.\<close>

lemma ex_header_step:
  assumes "pr_header P s U_FLASH (take n buf @ data) 4096 = Inr (e, s', buf', l)"
    and "e = PROC_AGAIN \<and> l < 4096 \<or> e = PROC_OK" "l \<le> 4096"
    and "length buf = 4096" "data \<noteq> []" "n + length data = 4096" "prog \<le> 0x1000"
  shows "updater_write P ex_hw data (ex_u s buf n prog False) f =
    Some (Inr (length data, ex_u s' buf' l (prog + (4096 - l)) (e = PROC_OK), f))"
proof (rule write_sector)
  have "length data \<le> 4096" using assms(6) by simp
  then show "length data \<le> remaining (ex_u s buf n prog False)"
    using assms(7) by (simp add: remaining_def sub32_exact)
  have "sub32 4096 l = 4096 - l" using assms(3) by (intro sub32_exact) simp_all
  moreover from assms(7) have "add32 prog (4096 - l) = prog + (4096 - l)" by (intro add32_exact) simp
  ultimately show "writeBuffer P ex_hw
     (ex_u s buf n prog False \<lparr>up_buffer := Some (take (up_bufferLen (ex_u s buf n prog False)) buf @ data),
        up_bufferLen := SPI_FLASH_SEC_SIZE\<rparr>) f
     = Inr (True, ex_u s' buf' l (prog + (4096 - l)) (e = PROC_OK), f)"
    using assms(1-3)
    by (auto simp: writeBuffer_def writeBuffer_header_def Let_def SPI_FLASH_SEC_SIZE_def)
qed (use assms in \<open>simp_all add: SPI_FLASH_SEC_SIZE_def isRunning_def hasError_def\<close>)

text \<open>The processor before the upload, with the blob being filled, and with the reply verified.\<close>

definition ex_s0 :: "(unit, nat \<times> u8 list, unit) rfc3161" where
  "ex_s0 = (rfc_init ())\<lparr>rf_trustChain := [()]\<rparr>"

definition ex_s1 :: "(unit, nat \<times> u8 list, unit) rfc3161" where
  "ex_s1 = ex_s0\<lparr>rf_len := 4, rf_blob := Some [], rf_at := 0, rf_state := RFC\<rparr>"

definition ex_s2 :: "(unit, nat \<times> u8 list, unit) rfc3161" where
  "ex_s2 = ex_s1\<lparr>rf_blob := Some ex_blob, rf_at := 4, rf_reply := Some ex_reply,
     rf_md_info := Some MD_SHA256, rf_md_ctx := Some (MD_SHA256, []), rf_state := POST\<rparr>"

definition ex_chunk1 :: "u8 list \<Rightarrow> u8 list" where
  "ex_chunk1 body = ex_line @ 10 # ex_blob @ body"

lemma ex_memchr: "memchr (ex_chunk1 body) 10 4096 = Some 29"
  by (simp add: memchr_def ex_chunk1_def ex_line_def)

lemma ex_rfc_step1:
  assumes "length body = 4062"
  obtains b1 where
    "rfc_process_header ex_crypto UpdateProcessorLegacy ex_s0 U_FLASH (ex_chunk1 body) 4096
       = Inr (PROC_AGAIN, ex_s1, b1, 4066)"
    "length b1 = 4096" "take 4066 b1 = ex_blob @ body"
proof
  let ?b = "move_down ((ex_chunk1 body)[29 := 0]) 30 4066"
  have len: "length (ex_chunk1 body) = 4096"
    using assms by (simp add: ex_chunk1_def ex_line_def ex_blob_def)
  show "length ?b = 4096" using len by simp
  have "take 4066 ?b = take 4066 (drop 30 ((ex_chunk1 body)[29 := 0]))"
    using len by (intro take_move_down) simp
  also have "\<dots> = ex_blob @ body"
    using assms by (simp add: ex_chunk1_def ex_line_def ex_blob_def)
  finally show "take 4066 ?b = ex_blob @ body" .
  have magic: "take (length REDWAX_MAGIC_HEADER) (ex_chunk1 body) = REDWAX_MAGIC_HEADER"
    by (simp add: REDWAX_MAGIC_HEADER_def ex_chunk1_def ex_line_def)
  have rds: "rd ((ex_chunk1 body)[29 := 0]) 30 = Inr 0x30" "rd ((ex_chunk1 body)[29 := 0]) 31 = Inr 0x82"
    "rd ((ex_chunk1 body)[29 := 0]) 32 = Inr 0" "rd ((ex_chunk1 body)[29 := 0]) 33 = Inr 0"
    by (simp_all add: rd_def ex_chunk1_def ex_line_def ex_blob_def)
  show "rfc_process_header ex_crypto UpdateProcessorLegacy ex_s0 U_FLASH (ex_chunk1 body) 4096
       = Inr (PROC_AGAIN, ex_s1, ?b, 4066)"
    by (simp add: rfc_process_header_def rfc_header_init_def magic ex_memchr rds len Let_def
        ex_s1_def ex_s0_def rfc_init_def ex_crypto_def)
qed

lemma ex_rfc_step2:
  assumes "length body = 4092"
  obtains b2 where
    "rfc_process_header ex_crypto UpdateProcessorLegacy ex_s1 U_FLASH (ex_blob @ body) 4096
       = Inr (PROC_AGAIN, ex_s2, b2, 4092)"
    "length b2 = 4096" "take 4092 b2 = body"
proof
  let ?b = "move_down (ex_blob @ body) 4 4092"
  show "length ?b = 4096" using assms by (simp add: ex_blob_def)
  have "take 4092 ?b = take 4092 (drop 4 (ex_blob @ body))"
    using assms by (intro take_move_down) (simp add: ex_blob_def)
  then show "take 4092 ?b = body" using assms by (simp add: ex_blob_def)
  show "rfc_process_header ex_crypto UpdateProcessorLegacy ex_s1 U_FLASH (ex_blob @ body) 4096
       = Inr (PROC_AGAIN, ex_s2, ?b, 4092)"
    using assms
    by (simp add: rfc_process_header_def rfc_header_rfc_def rfc_verify_reply_def Let_def
        ex_s2_def ex_s1_def ex_s0_def rfc_init_def ex_crypto_def ex_reply_def ex_blob_def MD_SHA256_def)
qed

lemma ex_rfc_step3:
  "rfc_process_header ex_crypto UpdateProcessorLegacy ex_s2 U_FLASH (0xE9 # body) 4096
     = Inr (PROC_OK, ex_s2, 0xE9 # body, 4096)"
  by (simp add: rfc_process_header_def rfc_next_header_def legacy_header_def rd_def
      ESP_IMAGE_HEADER_MAGIC_def U_FLASH_def U_SPIFFS_def ex_s2_def)

text \<open>The three chunks, for a processor that treats the header as the RFC 3161 one does.\<close>

lemma ex_upload_writes:
  assumes payload: "length rest = 4061" "length c2 = 30" "length c3 = 4"
    and buf: "length buf = 4096"
    and "\<And>b1. rfc_process_header ex_crypto UpdateProcessorLegacy ex_s0 U_FLASH (ex_chunk1 (0xE9 # rest)) 4096
           = Inr (PROC_AGAIN, ex_s1, b1, 4066) \<Longrightarrow>
         pr_header P t0 U_FLASH (ex_chunk1 (0xE9 # rest)) 4096 = Inr (PROC_AGAIN, t1, b1, 4066)"
    and "\<And>b b2. rfc_process_header ex_crypto UpdateProcessorLegacy ex_s1 U_FLASH b 4096
           = Inr (PROC_AGAIN, ex_s2, b2, 4092) \<Longrightarrow>
         pr_header P t1 U_FLASH b 4096 = Inr (PROC_AGAIN, t2, b2, 4092)"
    and "\<And>b. rfc_process_header ex_crypto UpdateProcessorLegacy ex_s2 U_FLASH b 4096
           = Inr (PROC_OK, ex_s2, b, 4096) \<Longrightarrow>
         pr_header P t2 U_FLASH b 4096 = Inr (PROC_OK, t2, b, 4096)"
  shows "\<exists>u1 u2.
    updater_write P ex_hw (ex_chunk1 (0xE9 # rest)) (ex_u t0 buf 0 0 False) f = Some (Inr (4096, u1, f)) \<and>
    updater_write P ex_hw c2 u1 f = Some (Inr (30, u2, f)) \<and>
    updater_write P ex_hw c3 u2 f = Some (Inr (4, ex_u t2 (0xE9 # rest @ c2 @ c3) 4096 34 True, f)) \<and>
    \<not> hasError u1 \<and> \<not> hasError u2"
proof -
  have len1: "length (ex_chunk1 (0xE9 # rest)) = 4096"
    using payload by (simp add: ex_chunk1_def ex_line_def ex_blob_def)
  then have ne: "ex_chunk1 (0xE9 # rest) \<noteq> []" "c2 \<noteq> []" "c3 \<noteq> []" using payload by auto
  obtain b1 where b1: "rfc_process_header ex_crypto UpdateProcessorLegacy ex_s0 U_FLASH
        (ex_chunk1 (0xE9 # rest)) 4096 = Inr (PROC_AGAIN, ex_s1, b1, 4066)"
      "length b1 = 4096" "take 4066 b1 = ex_blob @ 0xE9 # rest"
    using ex_rfc_step1 [of "0xE9 # rest"] payload by auto
  obtain b2 where b2: "rfc_process_header ex_crypto UpdateProcessorLegacy ex_s1 U_FLASH
        (ex_blob @ 0xE9 # rest @ c2) 4096 = Inr (PROC_AGAIN, ex_s2, b2, 4092)"
      "length b2 = 4096" "take 4092 b2 = 0xE9 # rest @ c2"
    using ex_rfc_step2 [of "0xE9 # rest @ c2"] payload by auto
  have w1: "updater_write P ex_hw (ex_chunk1 (0xE9 # rest)) (ex_u t0 buf 0 0 False) f
      = Some (Inr (4096, ex_u t1 b1 4066 30 False, f))"
    using ex_header_step [where n = 0 and prog = 0 and l = 4066, OF _ _ _ buf, of P t0 "ex_chunk1 (0xE9 # rest)"]
      assms(5) [OF b1(1)] len1 ne by auto
  have w2: "updater_write P ex_hw c2 (ex_u t1 b1 4066 30 False) f
      = Some (Inr (30, ex_u t2 b2 4092 34 False, f))"
    using ex_header_step [where n = 4066 and prog = 30 and l = 4092, OF _ _ _ b1(2), of P t1 c2]
      assms(6) [OF b2(1)] payload(2) b1(3) ne by auto
  have w3: "updater_write P ex_hw c3 (ex_u t2 b2 4092 34 False) f
      = Some (Inr (4, ex_u t2 (0xE9 # rest @ c2 @ c3) 4096 34 True, f))"
    using ex_header_step [where n = 4092 and prog = 34 and l = 4096, OF _ _ _ b2(2), of P t2 c3]
      assms(7) [OF ex_rfc_step3] payload(3) b2(3) ne by auto
  show ?thesis by (intro exI conjI) (rule w1 w2 w3 | simp add: hasError_def)+
qed

lemma ex_upload:
  assumes "\<exists>u1 u2.
    updater_write P ex_hw (ex_chunk1 (0xE9 # rest)) (ex_u t0 buf 0 0 False) f = Some (Inr (4096, u1, f)) \<and>
    updater_write P ex_hw c2 u1 f = Some (Inr (30, u2, f)) \<and>
    updater_write P ex_hw c3 u2 f = Some (Inr (4, ex_u t2 (0xE9 # rest @ c2 @ c3) 4096 34 True, f)) \<and>
    \<not> hasError u1 \<and> \<not> hasError u2"
  shows "run_ops P ex_hw (map OpWrite [ex_chunk1 (0xE9 # rest), c2, c3]) (ex_u t0 buf 0 0 False, f)
    = Some (Inr (ex_u t2 (0xE9 # rest @ c2 @ c3) 4096 34 True, f))"
  using assms by (auto simp: run_op_def)

lemma ex_begin:
  "updater_begin P ex_hw 0x100000 U_FLASH (- 1) False
     \<lparr>up_processor = s, up_error = UPDATE_ERROR_OK, up_buffer = None, up_bufferLen = 0, up_size = 0,
      up_progress_callback = None, up_progress = 0, up_progress_flash = 0, up_command = U_FLASH,
      up_partition = None, up_post_header = False, up_ledPin = 0, up_ledOn = False\<rparr> f
   = (True, ex_u (pr_reset P s) (replicate 4096 0) 0 0 False, f)"
  by (simp add: updater_begin_def updater_reset_def Let_def ex_hw_def ex_u_def UPDATE_SIZE_UNKNOWN_def
      SPI_FLASH_SEC_SIZE_def)

text \<open>The last flush, in \<open>end\<close>, and the activation.\<close>

lemma ex_flush:
  assumes "length body = 4095" "pr_payload P s (0xE9 # body) 4096 = Inr (PROC_OK, s')"
    and "pr_end P s' = Inr (PROC_OK, s'')" "snd f = None"
  obtains u f' where "updater_end P ex_hw True (ex_u s (0xE9 # body) 4096 34 True) f = Inr (True, u, f')"
    "up_processor u = s''" "up_command u = U_FLASH" "up_partition u = Some ()"
    "\<forall>i<4096. fst f' i = (0xFF # body) ! i" "up_ledPin u = - 1"
proof -
  let ?f1 = "(\<lambda>i. if i < 4096 then 0xFF else fst f i, snd f)"
  let ?f2 = "(\<lambda>i. if i < 4096 then and (fst ?f1 i) ((0xFF # body) ! i) else fst ?f1 i, snd f)"
  let ?u = "(ex_u s' (0xFF # body) 4096 34 True)\<lparr>up_progress_flash := 4096, up_progress := 4130, up_bufferLen := 0\<rparr>"
  have sector: "flash_sector P ex_hw (ex_u s' (0xFF # body) 4096 34 True) (0xFF # body) f = Inr (True, ?u, ?f2)"
    using assms(1)
    by (simp add: flash_sector_def ex_hw_def SPI_FLASH_SEC_SIZE_def add32_def cong: if_cong)
  have "writeBuffer P ex_hw (ex_u s (0xE9 # body) 4096 34 True) f = Inr (True, ?u, ?f2)"
    using assms(2) sector
    by (simp add: writeBuffer_def writeBuffer_payload_def rd_def ESP_IMAGE_HEADER_MAGIC_def Let_def)
  then have "updater_end P ex_hw True (ex_u s (0xE9 # body) 4096 34 True) f
      = Inr (True, ?u\<lparr>up_size := 4130, up_processor := s''\<rparr>, ?f2)"
    using assms(3)
    by (simp add: updater_end_def end_flush_def end_process_def hasError_def)
  then show ?thesis by (rule that) (simp_all add: and_erased)
qed

lemma ex_activate:
  assumes "up_command u = U_FLASH" "up_partition u = Some ()" "up_ledPin u = - 1" "fst f 0 = 0xFF"
  obtains u' where "updater_activate P ex_hw u f = (True, u', (fst f)(0 := 0xE9), Some ())"
    "\<not> isRunning u'"
proof
  have act: "(\<lambda>i. if i < 4 then and (fst f i) ((0xE9 # map (fst f) [1..<4]) ! i) else fst f i) = (fst f)(0 := 0xE9)"
    using assms(4) by (auto simp: fun_eq_iff nth_Cons' and_erased)
  have tl: "tl (map (fst f) [0..<4]) = map (fst f) [1..<4]" by (simp add: upt_rec)
  have enable: "enablePartition ex_hw f (Some ()) = Some ((fst f)(0 := 0xE9), snd f)"
    by (simp add: enablePartition_def ex_hw_def tl ESP_IMAGE_HEADER_MAGIC_def act [unfolded One_nat_def] cong: if_cong)
  then show "updater_activate P ex_hw u f =
      (True, fst (updater_reset P ex_hw u ((fst f)(0 := 0xE9), Some ())), (fst f)(0 := 0xE9), Some ())"
    using assms
    by (simp add: updater_activate_def enable partitionIsBootable_def)
      (simp add: ex_hw_def upt_rec ESP_IMAGE_HEADER_MAGIC_def updater_reset_def)
  show "\<not> isRunning (fst (updater_reset P ex_hw u ((fst f)(0 := 0xE9), Some ())))" by simp
qed

section \<open>Two complete updates\<close>

definition ex_fresh :: "'p \<Rightarrow> ('p, (nat \<Rightarrow> u8) \<times> unit option, unit) updater" where
  "ex_fresh s = \<lparr>up_processor = s, up_error = UPDATE_ERROR_OK, up_buffer = None, up_bufferLen = 0,
      up_size = 0, up_progress_callback = None, up_progress = 0, up_progress_flash = 0,
      up_command = U_FLASH, up_partition = None, up_post_header = False, up_ledPin = 0,
      up_ledOn = False\<rparr>"

text \<open>The whole session, for any processor the steps above apply to.\<close>

lemma ex_session:
  assumes "run_ops P ex_hw ops (ex_u (pr_reset P s) (replicate 4096 0) 0 0 False, f)
      = Some (Inr (ex_u t (0xE9 # body) 4096 34 True, f))"
    and "length body = 4095" "pr_payload P t (0xE9 # body) 4096 = Inr (PROC_OK, t')"
      "pr_end P t' = Inr (PROC_OK, t'')" "snd f = None"
  shows "\<exists>u1 f1 u2 f2 u3 f3 u4 f4.
    updater_begin P ex_hw 0x100000 U_FLASH (- 1) False (ex_fresh s) f = (True, u1, f1) \<and>
    run_ops P ex_hw ops (u1, f1) = Some (Inr (u2, f2)) \<and>
    updater_end P ex_hw True u2 f2 = Inr (True, u3, f3) \<and>
    updater_activate P ex_hw u3 f3 = (True, u4, f4) \<and>
    (\<forall>i<4096. ex_contents f3 () i = (if i = 0 then 0xFF else (0xE9 # body) ! i)) \<and>
    (\<forall>i<4096. ex_contents f4 () i = (0xE9 # body) ! i) \<and> snd f4 = Some ()"
proof -
  obtain u f' where e: "updater_end P ex_hw True (ex_u t (0xE9 # body) 4096 34 True) f = Inr (True, u, f')"
      "up_processor u = t''" "up_command u = U_FLASH" "up_partition u = Some ()"
      "\<forall>i<4096. fst f' i = (0xFF # body) ! i" "up_ledPin u = - 1"
    using ex_flush [OF assms(2-5)] .
  from e(5) have "fst f' 0 = 0xFF" by simp
  from ex_activate [OF e(3,4,6) this] obtain u4 where
    a: "updater_activate P ex_hw u f' = (True, u4, (fst f')(0 := 0xE9), Some ())" by metis
  have "\<forall>i<4096. ((fst f')(0 := 0xE9)) i = (0xE9 # body) ! i"
    "\<forall>i<4096. fst f' i = (if i = 0 then 0xFF else (0xE9 # body) ! i)"
    using e(5) by (auto simp: nth_Cons')
  with ex_begin [of P s f] assms(1) e(1) a show ?thesis
    unfolding ex_fresh_def ex_contents_def by (metis fst_conv snd_conv)
qed

lemma ex_header_params:
  "header_params ((ex_chunk1 body)[29 := 0]) = Some '' model=UCD2 hw=5.4''"
  by (simp add: header_params_def cstr_def ex_chunk1_def ex_line_def char_of_byte_def char_of_def bit_Suc_0_iff)

lemma ex_header_matches: "header_matches '' model=UCD2 hw=5.4'' ''UCD2'' ''5.4''"
  by (simp add: header_matches_def getValueFromHeader_def strstr.simps snprintf_def Let_def ptr_diff_def)

lemma ex_line_restored: "(ex_chunk1 body)[29 := 10] = ex_chunk1 body"
  by (simp add: ex_chunk1_def ex_line_def)

lemma ex_ota_writes:
  assumes "length rest = 4061" "length c2 = 30" "length c3 = 4" "length buf = 4096"
  shows "\<exists>u1 u2.
    updater_write (ota_processor ex_crypto) ex_hw (ex_chunk1 (0xE9 # rest))
      (ex_u (device_check_init ''UCD2'' ''5.4'' ex_s0) buf 0 0 False) f = Some (Inr (4096, u1, f)) \<and>
    updater_write (ota_processor ex_crypto) ex_hw c2 u1 f = Some (Inr (30, u2, f)) \<and>
    updater_write (ota_processor ex_crypto) ex_hw c3 u2 f = Some (Inr (4,
      ex_u ((device_check_init ''UCD2'' ''5.4'' ex_s0)\<lparr>dc_headerProcessed := True, dc_next := ex_s2\<rparr>)
        (0xE9 # rest @ c2 @ c3) 4096 34 True, f)) \<and>
    \<not> hasError u1 \<and> \<not> hasError u2"
proof -
  have "rd (ex_chunk1 (0xE9 # rest)) 0 = Inr 82"
    by (simp add: rd_def ex_chunk1_def ex_line_def)
  then show ?thesis
    by (intro ex_upload_writes [where ?t1.0 =
          "(device_check_init ''UCD2'' ''5.4'' ex_s0)\<lparr>dc_headerProcessed := True, dc_next := ex_s1\<rparr>"])
      (simp_all add: assms ota_processor_def dc_process_header_def dc_next_header_def ex_memchr
        ex_header_params ex_header_matches ex_line_restored device_check_init_def kMaxHeaderLength_def
        REDWAX_MAGIC_HEADER_def Let_def)
qed

lemma ex_ota_session:
  assumes "length payload = 4096" "hd payload = ESP_IMAGE_HEADER_MAGIC"
  shows "\<exists>chunks u1 f1 u2 f2 u3 f3 u4 f4.
    concat chunks = ex_line @ 10 # ex_blob @ payload \<and>
    updater_begin (ota_processor ex_crypto) ex_hw 0x100000 U_FLASH (- 1) False
      (ex_fresh (ota_chain ''UCD2'' ''5.4'' [()])) (\<lambda>_. 0xFF, None) = (True, u1, f1) \<and>
    run_ops (ota_processor ex_crypto) ex_hw (map OpWrite chunks) (u1, f1) = Some (Inr (u2, f2)) \<and>
    updater_end (ota_processor ex_crypto) ex_hw True u2 f2 = Inr (True, u3, f3) \<and>
    updater_activate (ota_processor ex_crypto) ex_hw u3 f3 = (True, u4, f4) \<and>
    (\<forall>i<4096. ex_contents f3 () i = (if i = 0 then 0xFF else payload ! i)) \<and>
    (\<forall>i<4096. ex_contents f4 () i = payload ! i) \<and> snd f4 = Some ()"
proof -
  define rest where "rest = take 4061 (tl payload)"
  define c2 where "c2 = take 30 (drop 4061 (tl payload))"
  define c3 where "c3 = drop 4091 (tl payload)"
  have payload: "payload = 0xE9 # rest @ c2 @ c3"
  proof -
    have "c3 = drop 30 (drop 4061 (tl payload))" by (simp add: c3_def)
    then have "tl payload = rest @ c2 @ c3"
      by (simp only: rest_def c2_def append_take_drop_id)
    with assms show ?thesis by (cases payload) (simp_all add: ESP_IMAGE_HEADER_MAGIC_def)
  qed
  have len: "length rest = 4061" "length c2 = 30" "length c3 = 4"
    using assms(1) by (simp_all add: rest_def c2_def c3_def)
  let ?t0 = "device_check_init ''UCD2'' ''5.4'' ex_s0"
  let ?t2 = "?t0\<lparr>dc_headerProcessed := True, dc_next := ex_s2\<rparr>"
  have chain: "ota_chain ''UCD2'' ''5.4'' [()] = ?t0"
    by (simp add: ota_chain_def ex_s0_def)
  have run: "run_ops (ota_processor ex_crypto) ex_hw (map OpWrite [ex_chunk1 (0xE9 # rest), c2, c3])
      (ex_u ?t0 (replicate 4096 0) 0 0 False, (\<lambda>_. 0xFF, None))
    = Some (Inr (ex_u ?t2 (0xE9 # rest @ c2 @ c3) 4096 34 True, (\<lambda>_. 0xFF, None)))"
    by (rule ex_upload, rule ex_ota_writes) (simp_all add: len)
  have chunks: "concat [ex_chunk1 (0xE9 # rest), c2, c3] = ex_line @ 10 # ex_blob @ payload"
    by (simp add: ex_chunk1_def payload)
  have "pr_payload (ota_processor ex_crypto) ?t2 (0xE9 # rest @ c2 @ c3) 4096 = Inr (PROC_OK, ?t2)"
    "pr_end (ota_processor ex_crypto) ?t2 = Inr (PROC_OK, ?t2)"
    "pr_reset (ota_processor ex_crypto) ?t0 = ?t0"
    by (simp_all add: ota_processor_def)
  with run len have session: "\<exists>u1 f1 u2 f2 u3 f3 u4 f4.
    updater_begin (ota_processor ex_crypto) ex_hw 0x100000 U_FLASH (- 1) False (ex_fresh ?t0)
      (\<lambda>_. 0xFF, None) = (True, u1, f1) \<and>
    run_ops (ota_processor ex_crypto) ex_hw (map OpWrite [ex_chunk1 (0xE9 # rest), c2, c3]) (u1, f1)
      = Some (Inr (u2, f2)) \<and>
    updater_end (ota_processor ex_crypto) ex_hw True u2 f2 = Inr (True, u3, f3) \<and>
    updater_activate (ota_processor ex_crypto) ex_hw u3 f3 = (True, u4, f4) \<and>
    (\<forall>i<4096. ex_contents f3 () i = (if i = 0 then 0xFF else (0xE9 # rest @ c2 @ c3) ! i)) \<and>
    (\<forall>i<4096. ex_contents f4 () i = (0xE9 # rest @ c2 @ c3) ! i) \<and> snd f4 = Some ()"
    by (intro ex_session [where t = ?t2 and t' = ?t2 and t'' = ?t2]) simp_all
  show ?thesis
    unfolding chain payload
    by (rule exI [of _ "[ex_chunk1 (0xE9 # rest), c2, c3]"])
      (use session chunks [unfolded payload] in \<open>simp only: simp_thms\<close>)
qed

text \<open>
  C12. The chain the firmware installs does not check the payload against its signed digest:
  \<open>DeviceCheckProcessor\<close> answers \<open>process_payload\<close> and \<open>process_end\<close> itself and never passes them
  on. With a correctly signed header taken from a genuine image, any 4096 bytes that start with
  the ESP32 image magic are written, accepted by \<open>end\<close>, activated and booted next.
\<close>

theorem ota_payload_digest_ignored:
  assumes "length payload = 4096" "hd payload = ESP_IMAGE_HEADER_MAGIC"
  shows "\<exists>chunks u1 f1 u2 f2 u3 f3 u4 f4.
    concat chunks = ex_line @ 10 # ex_blob @ payload \<and>
    updater_begin (ota_processor ex_crypto) ex_hw 0x100000 U_FLASH (- 1) False
      (ex_fresh (ota_chain ''UCD2'' ''5.4'' [()])) (\<lambda>_. 0xFF, None) = (True, u1, f1) \<and>
    run_ops (ota_processor ex_crypto) ex_hw (map OpWrite chunks) (u1, f1) = Some (Inr (u2, f2)) \<and>
    updater_end (ota_processor ex_crypto) ex_hw True u2 f2 = Inr (True, u3, f3) \<and>
    updater_activate (ota_processor ex_crypto) ex_hw u3 f3 = (True, u4, f4) \<and>
    (\<forall>i<4096. ex_contents f3 () i = (if i = 0 then 0xFF else payload ! i)) \<and>
    (\<forall>i<4096. ex_contents f4 () i = payload ! i) \<and> snd f4 = Some ()"
  using assms by (rule ex_ota_session)

theorem ota_payload_digest_ignored_witness:
  "\<exists>payload. length payload = 4096 \<and> hd payload = ESP_IMAGE_HEADER_MAGIC \<and>
    ex_hash MD_SHA256 payload \<noteq> take 1 (rp_payload_digest ex_reply) \<and>
    (\<exists>chunks u1 f1 u2 f2 u3 f3 u4 f4.
      concat chunks = ex_line @ 10 # ex_blob @ payload \<and>
      updater_begin (ota_processor ex_crypto) ex_hw 0x100000 U_FLASH (- 1) False
        (ex_fresh (ota_chain ''UCD2'' ''5.4'' [()])) (\<lambda>_. 0xFF, None) = (True, u1, f1) \<and>
      run_ops (ota_processor ex_crypto) ex_hw (map OpWrite chunks) (u1, f1) = Some (Inr (u2, f2)) \<and>
      updater_end (ota_processor ex_crypto) ex_hw True u2 f2 = Inr (True, u3, f3) \<and>
      updater_activate (ota_processor ex_crypto) ex_hw u3 f3 = (True, u4, f4) \<and>
      (\<forall>i<4096. ex_contents f3 () i = (if i = 0 then 0xFF else payload ! i)) \<and>
    (\<forall>i<4096. ex_contents f4 () i = payload ! i) \<and> snd f4 = Some ())"
proof (intro exI [of _ "0xE9 # replicate 4095 0"] conjI)
  show "ex_hash MD_SHA256 (0xE9 # replicate 4095 0) \<noteq> take 1 (rp_payload_digest ex_reply)"
    by (simp add: ex_hash_def ex_reply_def)
  show "\<exists>chunks u1 f1 u2 f2 u3 f3 u4 f4.
      concat chunks = ex_line @ 10 # ex_blob @ (0xE9 # replicate 4095 0) \<and>
      updater_begin (ota_processor ex_crypto) ex_hw 0x100000 U_FLASH (- 1) False
        (ex_fresh (ota_chain ''UCD2'' ''5.4'' [()])) (\<lambda>_. 0xFF, None) = (True, u1, f1) \<and>
      run_ops (ota_processor ex_crypto) ex_hw (map OpWrite chunks) (u1, f1) = Some (Inr (u2, f2)) \<and>
      updater_end (ota_processor ex_crypto) ex_hw True u2 f2 = Inr (True, u3, f3) \<and>
      updater_activate (ota_processor ex_crypto) ex_hw u3 f3 = (True, u4, f4) \<and>
      (\<forall>i<4096. ex_contents f3 () i = (if i = 0 then 0xFF else (0xE9 # replicate 4095 0) ! i)) \<and>
    (\<forall>i<4096. ex_contents f4 () i = (0xE9 # replicate 4095 0) ! i) \<and> snd f4 = Some ()"
    by (rule ota_payload_digest_ignored) (simp_all add: ESP_IMAGE_HEADER_MAGIC_def)
qed (simp_all add: ESP_IMAGE_HEADER_MAGIC_def)

lemma run_ops_append:
  "run_ops P hw (ops @ ops') st =
     (case run_ops P hw ops st of Some (Inr st') \<Rightarrow> run_ops P hw ops' st' | r \<Rightarrow> r)"
  by (induction ops arbitrary: st) (auto split: option.split sum.split)



section \<open>Witnesses\<close>

theorem updater_write_returns_witness:
  "up_ok (ex_u (ota_chain ''UCD2'' ''5.4'' [()]) (replicate 4096 0) 0 0 False) \<and>
   (\<exists>r. updater_write (ota_processor ex_crypto) ex_hw [1, 2, 3]
      (ex_u (ota_chain ''UCD2'' ''5.4'' [()]) (replicate 4096 0) 0 0 False) (\<lambda>_. 0xFF, None) = Some r)"
proof -
  have ok: "up_ok (ex_u (ota_chain ''UCD2'' ''5.4'' [()]) (replicate 4096 0) 0 0 False)"
    by (simp add: up_ok_def SPI_FLASH_SEC_SIZE_def)
  from updater_write_returns [OF ok] ok show ?thesis by blast
qed

theorem ota_end_ignores_failed_flush_witness:
  "\<exists>u f u1 f1. \<not> hasError u \<and> updater_end (ota_processor ex_crypto) (ex_hw\<lparr>fl_write := \<lambda>f p off bs. None\<rparr>) True u f
     = Inr (True, u1\<lparr>up_size := 0\<rparr>, f1) \<and> hasError u1"
proof -
  let ?hw = "ex_hw\<lparr>fl_write := \<lambda>f p off bs. None\<rparr>"
  let ?u = "ex_u (ota_chain ''UCD2'' ''5.4'' [()]) (0xE9 # replicate 4095 0) 4096 34 True"
  let ?f = "(\<lambda>_. 0xFF, None)"
  obtain st where "writeBuffer (ota_processor ex_crypto) ?hw ?u ?f = Inr (False, st)"
    by (simp add: writeBuffer_def writeBuffer_payload_def ota_processor_def rd_def Let_def
        ESP_IMAGE_HEADER_MAGIC_def flash_sector_def ex_hw_def SPI_FLASH_SEC_SIZE_def)
  then obtain u1 f1 where w: "writeBuffer (ota_processor ex_crypto) ?hw ?u ?f = Inr (False, u1, f1)"
    by (cases st) auto
  have u: "\<not> hasError ?u" "isRunning ?u" "up_bufferLen ?u > 0"
    by (simp_all add: hasError_def isRunning_def)
  from ota_end_ignores_failed_flush [OF u w] u(1) show ?thesis by blast
qed

theorem rfc_header_reads_past_buffer_witness:
  "rfc_process_header ex_crypto UpdateProcessorLegacy ex_s0 U_FLASH
     (REDWAX_MAGIC_HEADER @ replicate 4086 32 @ [10]) SPI_FLASH_SEC_SIZE = Inl OutOfBounds"
proof (rule rfc_header_reads_past_buffer)
  have "index_of 10 ((REDWAX_MAGIC_HEADER @ replicate 4086 32) @ 10 # []) = Some 4095"
    by (subst index_of_append) (simp_all add: REDWAX_MAGIC_HEADER_def)
  then show "memchr (REDWAX_MAGIC_HEADER @ replicate 4086 32 @ [10]) 10 SPI_FLASH_SEC_SIZE
      = Some (SPI_FLASH_SEC_SIZE - 1)"
    by (simp add: memchr_def SPI_FLASH_SEC_SIZE_def REDWAX_MAGIC_HEADER_def)
qed (simp_all add: ex_s0_def rfc_init_def SPI_FLASH_SEC_SIZE_def REDWAX_MAGIC_HEADER_def)

theorem setChecksum_never_ok_witness:
  "fst (setChecksum ex_crypto ''5f'' MD_SHA256 (with_checksum_init [0] ())) = PROC_ERROR \<and>
   md_known ex_crypto MD_SHA256 \<and> md_get_size ex_crypto MD_SHA256 * 2 = length ''5f'' \<and>
   fst (hex_loop ''5f'' 0 [0])"
  using setChecksum_never_ok [of ex_crypto "with_checksum_init [0] ()" "''5f''" MD_SHA256]
  by (simp add: with_checksum_init_def ex_crypto_def hex_value_def code_of_def)


end
