(* ===== verification/UpdateStream.thy ===== *)
theory UpdateStream
  imports OtaExample
begin

text \<open>
  The rest of \<open>src/lib/Update/src/Updater.cpp\<close>: filling an update from a \<open>Stream\<close> (\<open>writeStream\<close>)
  or from an object with \<open>available\<close> and \<open>read\<close> (the \<open>write\<close> template), the error texts and the
  destructor. What a stream delivers is an argument: a state \<open>'s\<close> and the function that reads from
  it, which answers with the bytes it stored.
\<close>

section \<open>Error texts and the end of the object\<close>

definition errorString :: "('p, 'f, 'part) updater \<Rightarrow> string" where
  "errorString u = err2str (up_error u)"

text \<open>What \<open>printError\<close> sends to its stream: \<open>println\<close> ends the text with CR and LF.\<close>

definition printError :: "('p, 'f, 'part) updater \<Rightarrow> string" where
  "printError u = err2str (up_error u) @ [CHR 0x0D, CHR 0x0A]"

text \<open>The destructor: what is left is the state of the machine.\<close>

definition updater_delete :: "'p processor \<Rightarrow> ('f, 'part) hardware \<Rightarrow> ('p, 'f, 'part) updater \<Rightarrow> 'f \<Rightarrow> 'f" where
  "updater_delete P hw u f = snd (updater_reset P hw u f)"

section \<open>Bytes behind the ones in the buffer\<close>

definition append_buffer ::
  "u8 list \<Rightarrow> nat \<Rightarrow> ('p, 'f, 'part) updater \<Rightarrow> fault + ('p, 'f, 'part) updater" where
  "append_buffer bs len u =
     (case up_buffer u of
        None \<Rightarrow> Inl OutOfBounds
      | Some buf \<Rightarrow>
          let n = up_bufferLen u in
          if n + length bs > length buf then Inl OutOfBounds
          else Inr (u\<lparr>up_buffer := Some (take n buf @ bs @ drop (n + length bs) buf),
                      up_bufferLen := add32 n len\<rparr>))"

section \<open>\<open>write(T & data)\<close>\<close>

record 's data_object =
  do_available :: "'s \<Rightarrow> nat"
  do_read :: "'s \<Rightarrow> nat \<Rightarrow> u8 list \<times> 's"

text \<open>
  The bytes in the buffer are counted twice: \<open>toBuff\<close> includes them, and as many bytes are read
  behind them.
\<close>

definition object_count :: "nat \<Rightarrow> ('p, 'f, 'part) updater \<Rightarrow> nat" where
  "object_count available u =
     (let n = up_bufferLen u;
          a = (if add32 n available > remaining u then sub32 (remaining u) n else available);
          toBuff = add32 n a
      in if toBuff > SPI_FLASH_SEC_SIZE then SPI_FLASH_SEC_SIZE else toBuff)"

definition object_fill ::
  "'s data_object \<Rightarrow> nat \<Rightarrow> ('p, 'f, 'part) updater \<Rightarrow> 's \<Rightarrow> fault + ('p, 'f, 'part) updater \<times> 's" where
  "object_fill ops available u s =
     (case do_read ops s (object_count available u) of (bs, s') \<Rightarrow>
        bind_res (append_buffer bs (object_count available u) u) (\<lambda>u'. Inr (u', s')))"

partial_function (option) object_loop ::
  "'p processor \<Rightarrow> ('f, 'part) hardware \<Rightarrow> 's data_object \<Rightarrow> nat \<Rightarrow> nat \<Rightarrow> ('p, 'f, 'part) updater \<Rightarrow>
   's \<Rightarrow> 'f \<Rightarrow> (fault + nat \<times> ('p, 'f, 'part) updater \<times> 's \<times> 'f) option" where
  "object_loop P hw ops available written u s f =
     (if available = 0 then Some (Inr (written, u, s, f))
      else (case object_fill ops available u s of
          Inl e \<Rightarrow> Some (Inl e)
        | Inr r1 \<Rightarrow>
            (case flush_if_full P hw (fst r1) f of
               Inl e \<Rightarrow> Some (Inl e)
             | Inr r2 \<Rightarrow>
                 if \<not> fst r2 then Some (Inr (written, fst (snd r2), snd r1, snd (snd r2)))
                 else if remaining (fst (snd r2)) = 0 then
                   Some (Inr (written + object_count available u, fst (snd r2), snd r1, snd (snd r2)))
                 else object_loop P hw ops (do_available ops (snd r1))
                        (written + object_count available u) (fst (snd r2)) (snd r1) (snd (snd r2)))))"

definition updater_write_object ::
  "'p processor \<Rightarrow> ('f, 'part) hardware \<Rightarrow> 's data_object \<Rightarrow> ('p, 'f, 'part) updater \<Rightarrow> 's \<Rightarrow> 'f \<Rightarrow>
   (fault + nat \<times> ('p, 'f, 'part) updater \<times> 's \<times> 'f) option" where
  "updater_write_object P hw ops u s f =
     (if hasError u \<or> \<not> isRunning u then Some (Inr (0, u, s, f))
      else object_loop P hw ops (do_available ops s) 0 u s f)"

section \<open>\<open>writeStream\<close>\<close>

text \<open>How many bytes are asked for: up to a full buffer, and no more than \<open>remaining()\<close>.\<close>

definition stream_request :: "('p, 'f, 'part) updater \<Rightarrow> nat" where
  "stream_request u =
     (let bytesToRead = sub32 SPI_FLASH_SEC_SIZE (up_bufferLen u)
      in if bytesToRead > remaining u then remaining u else bytesToRead)"

text \<open>
  Reading is tried until bytes arrive, \<open>tries\<close> more times; there are 100 ms between two attempts.
  The empty list is the timeout.
\<close>

fun read_retry :: "('s \<Rightarrow> nat \<Rightarrow> u8 list \<times> 's) \<Rightarrow> nat \<Rightarrow> nat \<Rightarrow> 's \<Rightarrow> u8 list \<times> 's" where
  "read_retry rb 0 n s = ([], s)"
| "read_retry rb (Suc tries) n s =
     (case rb s n of (bs, s') \<Rightarrow> if bs \<noteq> [] then (bs, s') else read_retry rb tries n s')"

definition STREAM_TRIES :: nat where "STREAM_TRIES = 300"

partial_function (option) stream_loop ::
  "'p processor \<Rightarrow> ('f, 'part) hardware \<Rightarrow> ('s \<Rightarrow> nat \<Rightarrow> u8 list \<times> 's) \<Rightarrow> nat \<Rightarrow>
   ('p, 'f, 'part) updater \<Rightarrow> 's \<Rightarrow> 'f \<Rightarrow> (fault + nat \<times> ('p, 'f, 'part) updater \<times> 's \<times> 'f) option" where
  "stream_loop P hw rb written u s f =
     (if remaining u = 0 then Some (Inr (written, u, s, f))
      else (let r = read_retry rb STREAM_TRIES (stream_request u) s in
        if fst r = [] then
          (let a = updater_abort_with P hw UPDATE_ERROR_STREAM u f
           in Some (Inr (written, fst a, snd r, snd a)))
        else (case append_buffer (fst r) (length (fst r)) u of
            Inl e \<Rightarrow> Some (Inl e)
          | Inr u1 \<Rightarrow>
              (case flush_if_full P hw u1 f of
                 Inl e \<Rightarrow> Some (Inl e)
               | Inr r2 \<Rightarrow>
                   if fst r2 then
                     stream_loop P hw rb (written + length (fst r)) (fst (snd r2)) (snd r) (snd (snd r2))
                   else Some (Inr (written, fst (snd r2), snd r, snd (snd r2)))))))"

definition updater_writeStream ::
  "'p processor \<Rightarrow> ('f, 'part) hardware \<Rightarrow> ('s \<Rightarrow> nat \<Rightarrow> u8 list \<times> 's) \<Rightarrow> ('p, 'f, 'part) updater \<Rightarrow>
   's \<Rightarrow> 'f \<Rightarrow> (fault + nat \<times> ('p, 'f, 'part) updater \<times> 's \<times> 'f) option" where
  "updater_writeStream P hw rb u s f =
     (if hasError u \<or> \<not> isRunning u then Some (Inr (0, u, s, f))
      else stream_loop P hw rb 0 u s f)"

section \<open>What reading from a stream does\<close>

text \<open>\<open>Stream::readBytes\<close> stores at most as many bytes as it was asked for.\<close>

definition stream_spec :: "('s \<Rightarrow> nat \<Rightarrow> u8 list \<times> 's) \<Rightarrow> bool" where
  "stream_spec rb \<longleftrightarrow> (\<forall>s n. length (fst (rb s n)) \<le> n)"

lemma read_retry_length: "stream_spec rb \<Longrightarrow> length (fst (read_retry rb k n s)) \<le> n"
proof (induction k arbitrary: s)
  case (Suc k)
  obtain bs s' where r: "rb s n = (bs, s')" by fastforce
  then have "length bs \<le> n" using Suc.prems unfolding stream_spec_def by (metis fst_conv)
  with Suc r show ?case by simp
qed simp

lemma read_retry_0: "stream_spec rb \<Longrightarrow> fst (read_retry rb k 0 s) = []"
  using read_retry_length [of rb k 0 s] by simp

lemma read_retry_dead:
  "(\<And>s n. rb s n = ([], nxt s)) \<Longrightarrow> read_retry rb k n s = ([], (nxt ^^ k) s)"
  by (induction k arbitrary: s) (simp_all add: funpow_swap1)

text \<open>
  A stream that stays silent does not hang the update: after exactly 300 attempts to read the
  update is given up with the error \<open>Stream Read Timeout\<close> and nothing was written.
\<close>

theorem writeStream_gives_up:
  assumes "isRunning u" "\<not> hasError u" "remaining u \<noteq> 0" "\<And>s n. rb s n = ([], nxt s)"
  shows "\<exists>u' f'. updater_writeStream P hw rb u s f = Some (Inr (0, u', (nxt ^^ 300) s, f')) \<and>
    (u', f') = updater_abort_with P hw UPDATE_ERROR_STREAM u f \<and> errorString u' = ''Stream Read Timeout''"
proof -
  have "fst (updater_abort_with P hw UPDATE_ERROR_STREAM u f) = fst (updater_abort_with P hw UPDATE_ERROR_STREAM u f) \<and>
    up_error (fst (updater_abort_with P hw UPDATE_ERROR_STREAM u f)) = UPDATE_ERROR_STREAM" by simp
  with assms(1-3) show ?thesis
    by (simp add: updater_writeStream_def stream_loop.simps [of P hw rb 0 u s f] Let_def
        read_retry_dead [of rb nxt, OF assms(4)] STREAM_TRIES_def errorString_def)
qed

section \<open>The default processor cannot be used with a stream\<close>

text \<open>Before the first sector is complete: nothing is consumed, the header was not looked at.\<close>

definition collecting :: "(unit, 'f, 'part) updater \<Rightarrow> bool" where
  "collecting u \<longleftrightarrow> up_ok u \<and> isRunning u \<and> \<not> up_post_header u \<and> up_command u = U_FLASH \<and>
     up_progress u = 0 \<and> SPI_FLASH_SEC_SIZE \<le> up_size u \<and> up_size u < 2 ^ 32 \<and>
     up_bufferLen u < SPI_FLASH_SEC_SIZE"

lemma remaining_start: "up_progress u = 0 \<Longrightarrow> up_size u < 2 ^ 32 \<Longrightarrow> remaining u = up_size u"
  by (simp add: remaining_def sub32_exact)

lemma stream_request_collecting:
  "collecting u \<Longrightarrow> stream_request u = SPI_FLASH_SEC_SIZE - up_bufferLen u"
proof -
  assume c: "collecting u"
  then have "sub32 SPI_FLASH_SEC_SIZE (up_bufferLen u) = SPI_FLASH_SEC_SIZE - up_bufferLen u"
    by (intro sub32_exact) (simp_all add: collecting_def SPI_FLASH_SEC_SIZE_def)
  with c show ?thesis
    by (auto simp: stream_request_def collecting_def remaining_start Let_def)
qed

lemma append_buffer_collecting:
  assumes "collecting u" "bs \<noteq> []" "length bs \<le> SPI_FLASH_SEC_SIZE - up_bufferLen u"
  shows "\<exists>u1. append_buffer bs (length bs) u = Inr u1 \<and> up_bufferLen u1 = up_bufferLen u + length bs \<and>
    up_ok u1 \<and> isRunning u1 \<and> \<not> up_post_header u1 \<and> up_command u1 = U_FLASH \<and> up_progress u1 = 0 \<and>
    up_size u1 = up_size u"
proof -
  have "add32 (up_bufferLen u) (length bs) = up_bufferLen u + length bs"
    using assms by (intro add32_exact) (auto simp: collecting_def SPI_FLASH_SEC_SIZE_def)
  with assms show ?thesis
    by (auto simp: append_buffer_def collecting_def up_ok_def isRunning_def Let_def)
qed

lemma legacy_full_header:
  assumes "up_buffer u = Some buf" "length buf = SPI_FLASH_SEC_SIZE" "up_bufferLen u = SPI_FLASH_SEC_SIZE"
    "\<not> up_post_header u" "up_command u = U_FLASH" "up_progress u = 0"
  shows "\<exists>f'. writeBuffer UpdateProcessorLegacy hw u f =
    (if buf ! 0 = ESP_IMAGE_HEADER_MAGIC then Inr (True, u\<lparr>up_post_header := True\<rparr>, f')
     else Inr (False, updater_abort_with UpdateProcessorLegacy hw UPDATE_ERROR_BAD_ARGUMENT u f'))"
proof -
  have n: "U_FLASH \<noteq> U_SPIFFS" by (simp add: U_FLASH_def U_SPIFFS_def)
  have r: "rd buf 0 = Inr (buf ! 0)" using assms(2) by (simp add: rd_def SPI_FLASH_SEC_SIZE_def)
  have z: "add32 0 (sub32 SPI_FLASH_SEC_SIZE SPI_FLASH_SEC_SIZE) = 0"
    by (simp add: add32_def sub32_def SPI_FLASH_SEC_SIZE_def)
  have e: "u\<lparr>up_processor := (), up_buffer := Some buf, up_bufferLen := SPI_FLASH_SEC_SIZE\<rparr> = u"
    using assms(1,3) by (cases u) simp
  have e': "u\<lparr>up_processor := (), up_buffer := Some buf, up_bufferLen := SPI_FLASH_SEC_SIZE,
      up_progress := 0, up_post_header := True\<rparr> = u\<lparr>up_post_header := True\<rparr>"
    using assms(1,3,6) by (cases u) simp
  have "pr_header UpdateProcessorLegacy (up_processor u) (up_command u) buf SPI_FLASH_SEC_SIZE =
      Inr (if buf ! 0 = ESP_IMAGE_HEADER_MAGIC then PROC_OK else PROC_ERROR, (), buf, SPI_FLASH_SEC_SIZE)"
    using n r assms(5) by (simp add: UpdateProcessorLegacy_def legacy_header_def)
  then have "writeBuffer_header UpdateProcessorLegacy hw u g =
      (if buf ! 0 = ESP_IMAGE_HEADER_MAGIC then Inr (True, u\<lparr>up_post_header := True\<rparr>, g)
       else Inr (False, updater_abort_with UpdateProcessorLegacy hw UPDATE_ERROR_BAD_ARGUMENT u g))" for g
    using assms(1,3,6) z by (simp add: writeBuffer_header_def Let_def e e')
  with assms(4) show ?thesis by (simp add: writeBuffer_def Let_def) blast
qed

lemma stream_loop_collecting:
  assumes "stream_spec rb" "collecting u"
  shows "\<exists>n u' s' f'. stream_loop UpdateProcessorLegacy hw rb written u s f = Some (Inr (n, u', s', f')) \<and>
    up_error u' \<in> {UPDATE_ERROR_STREAM, UPDATE_ERROR_BAD_ARGUMENT}"
  using assms(2)
proof (induction "SPI_FLASH_SEC_SIZE - up_bufferLen u" arbitrary: u written s f rule: less_induct)
  case less
  note c = less.prems
  let ?P = UpdateProcessorLegacy
  let ?r = "read_retry rb STREAM_TRIES (SPI_FLASH_SEC_SIZE - up_bufferLen u) s"
  have rem: "remaining u = up_size u" "up_size u \<noteq> 0"
    using c by (auto simp: collecting_def remaining_start isRunning_def)
  note step = stream_loop.simps [of ?P hw rb written u s f]
  show ?case
  proof (cases "fst ?r = []")
    case True
    with rem show ?thesis by (simp add: step stream_request_collecting [OF c] Let_def)
  next
    case False
    have l: "length (fst ?r) \<le> SPI_FLASH_SEC_SIZE - up_bufferLen u"
      by (rule read_retry_length [OF assms(1)])
    obtain u1 where u1: "append_buffer (fst ?r) (length (fst ?r)) u = Inr u1"
      "up_bufferLen u1 = up_bufferLen u + length (fst ?r)" "up_ok u1" "isRunning u1" "\<not> up_post_header u1"
      "up_command u1 = U_FLASH" "up_progress u1 = 0" "up_size u1 = up_size u"
      using append_buffer_collecting [OF c False l] by blast
    have rem1: "remaining u1 = up_size u1" using u1(7,8) c by (simp add: collecting_def remaining_start)
    show ?thesis
    proof (cases "up_bufferLen u1 = SPI_FLASH_SEC_SIZE")
      case full: True
      from u1(3,4) obtain buf where buf: "up_buffer u1 = Some buf" "length buf = SPI_FLASH_SEC_SIZE"
        by (auto simp: up_ok_def)
      from legacy_full_header [OF buf full u1(5-7)] obtain f' where w: "writeBuffer ?P hw u1 f =
          (if buf ! 0 = ESP_IMAGE_HEADER_MAGIC then Inr (True, u1\<lparr>up_post_header := True\<rparr>, f')
           else Inr (False, updater_abort_with ?P hw UPDATE_ERROR_BAD_ARGUMENT u1 f'))"
        by blast
      show ?thesis
      proof (cases "buf ! 0 = ESP_IMAGE_HEADER_MAGIC")
        case False
        with w full u1(1) rem \<open>fst ?r \<noteq> []\<close> show ?thesis
          by (simp add: step stream_request_collecting [OF c] Let_def flush_if_full_def)
      next
        case True
        let ?u2 = "u1\<lparr>up_post_header := True\<rparr>"
        have r2: "remaining ?u2 \<noteq> 0" "stream_request ?u2 = 0"
          using rem rem1 u1(8) full
          by (simp_all add: remaining_def stream_request_def sub32_def SPI_FLASH_SEC_SIZE_def)
        have "\<exists>n u' s' f''. stream_loop ?P hw rb w ?u2 t f' = Some (Inr (n, u', s', f'')) \<and>
            up_error u' = UPDATE_ERROR_STREAM" for w t
          using r2 by (simp add: stream_loop.simps [of ?P hw rb w ?u2 t f'] Let_def read_retry_0 [OF assms(1)])
        with True w full u1(1) rem \<open>fst ?r \<noteq> []\<close> show ?thesis
          by (simp add: step stream_request_collecting [OF c] Let_def flush_if_full_def) blast
      qed
    next
      case False
      with u1 c l have c1: "collecting u1" "up_bufferLen u1 \<noteq> remaining u1"
        using rem1 by (auto simp: collecting_def)
      have m: "SPI_FLASH_SEC_SIZE - up_bufferLen u1 < SPI_FLASH_SEC_SIZE - up_bufferLen u"
        using u1(2) \<open>fst ?r \<noteq> []\<close> c
        by (intro diff_less_mono2) (auto simp: collecting_def simp flip: length_greater_0_conv)
      show ?thesis
        using less.hyps [OF m c1(1), of "written + length (fst ?r)" "snd ?r" f] False c1(2) u1(1) rem \<open>fst ?r \<noteq> []\<close>
        by (simp add: step stream_request_collecting [OF c] Let_def flush_if_full_def)
    qed
  qed
qed

text \<open>
  C35. With the processor it installs by default, \<open>writeStream\<close> never completes an image of a sector
  or more, whatever the stream delivers: after the header check the buffer is still full, so zero
  bytes are asked for until the update times out.
\<close>

theorem writeStream_never_completes:
  assumes "stream_spec rb" "isRunning u" "\<not> hasError u" "up_ok u" "\<not> up_post_header u"
    and "up_command u = U_FLASH" "up_progress u = 0" "up_bufferLen u = 0"
    and "SPI_FLASH_SEC_SIZE \<le> up_size u" "up_size u < 2 ^ 32"
  shows "\<exists>n u' s' f'. updater_writeStream UpdateProcessorLegacy hw rb u s f = Some (Inr (n, u', s', f')) \<and>
    up_error u' \<in> {UPDATE_ERROR_STREAM, UPDATE_ERROR_BAD_ARGUMENT}"
proof -
  have "collecting u" using assms by (simp add: collecting_def SPI_FLASH_SEC_SIZE_def)
  with assms(2,3) stream_loop_collecting [OF assms(1)] show ?thesis
    by (simp add: updater_writeStream_def)
qed

section \<open>Reading too much\<close>

text \<open>
  With bytes in the buffer \<open>writeStream\<close> may ask for more than the rest of the image: 904 bytes are
  left, 500 of them are in the buffer, and 904 are asked for.
\<close>

lemma stream_request_overrun:
  "up_size u = 5000 \<Longrightarrow> up_progress u = 4096 \<Longrightarrow> up_bufferLen u = 500 \<Longrightarrow>
   stream_request u = 904 \<and> remaining u = 904"
  by (simp add: stream_request_def remaining_def sub32_def SPI_FLASH_SEC_SIZE_def)

text \<open>
  The template \<open>write\<close> writes behind the sector buffer whenever the buffer is not empty and the
  object has a sector or more to give.
\<close>

theorem write_object_overflows:
  assumes "up_buffer u = Some buf" "length buf = SPI_FLASH_SEC_SIZE"
    and "0 < up_bufferLen u" "up_bufferLen u \<le> SPI_FLASH_SEC_SIZE" "isRunning u" "\<not> hasError u"
    and "SPI_FLASH_SEC_SIZE \<le> do_available ops s" "up_bufferLen u + do_available ops s \<le> remaining u"
    and "\<And>n. length (fst (do_read ops s n)) = n"
  shows "updater_write_object P hw ops u s f = Some (Inl OutOfBounds)"
proof -
  have r: "remaining u < 2 ^ 32" by (simp add: remaining_def sub32_def)
  have a: "add32 (up_bufferLen u) (do_available ops s) = up_bufferLen u + do_available ops s"
    using assms(8) r by (intro add32_exact) simp
  then have c: "object_count (do_available ops s) u = SPI_FLASH_SEC_SIZE"
    using assms(3,7,8) by (simp add: object_count_def Let_def)
  obtain bs s' where b: "do_read ops s SPI_FLASH_SEC_SIZE = (bs, s')" by fastforce
  with assms(9) [of SPI_FLASH_SEC_SIZE] have "length bs = SPI_FLASH_SEC_SIZE" by simp
  with assms(1-3) b c have "object_fill ops (do_available ops s) u s = Inl OutOfBounds"
    by (simp add: object_fill_def append_buffer_def Let_def)
  moreover have "do_available ops s \<noteq> 0" using assms(7) by (simp add: SPI_FLASH_SEC_SIZE_def)
  ultimately show ?thesis
    using assms(5,6) by (simp add: updater_write_object_def object_loop.simps)
qed

section \<open>Witnesses\<close>

text \<open>A started update of \<open>n\<close> bytes, and a stream that counts the attempts to read from it.\<close>

definition ex_stream_u :: "nat \<Rightarrow> nat \<Rightarrow> (unit, (nat \<Rightarrow> u8) \<times> unit option, unit) updater" where
  "ex_stream_u n len = UpdateClassEx\<lparr>up_size := n, up_buffer := Some (replicate 4096 0), up_bufferLen := len\<rparr>"

lemma writeStream_gives_up_witness:
  "\<exists>u' f'. updater_writeStream UpdateProcessorLegacy ex_hw (\<lambda>s n. ([], Suc s)) (ex_stream_u 5000 0) 0 (\<lambda>_. 0, None) =
     Some (Inr (0, u', 300, f')) \<and> errorString u' = ''Stream Read Timeout''"
proof -
  have p: "isRunning (ex_stream_u 5000 0)" "\<not> hasError (ex_stream_u 5000 0)" "remaining (ex_stream_u 5000 0) \<noteq> 0"
    by (simp_all add: ex_stream_u_def UpdateClassEx_def isRunning_def hasError_def remaining_def sub32_def)
  have i: "(Suc ^^ 300) 0 = 300"
  proof -
    have "(Suc ^^ k) m = m + k" for k m by (induction k) simp_all
    then show ?thesis by simp
  qed
  from writeStream_gives_up [OF p, of "\<lambda>s n. ([], Suc s)" Suc UpdateProcessorLegacy ex_hw 0 "(\<lambda>_. 0, None)"] i
  show ?thesis by auto
qed

lemma writeStream_never_completes_witness:
  "\<exists>n u' s' f'. updater_writeStream UpdateProcessorLegacy ex_hw (\<lambda>s n. (take n s, drop n s)) (ex_stream_u 5000 0)
     (replicate 5000 0xE9) (\<lambda>_. 0, None) = Some (Inr (n, u', s', f')) \<and>
   up_error u' \<in> {UPDATE_ERROR_STREAM, UPDATE_ERROR_BAD_ARGUMENT}"
  by (rule writeStream_never_completes)
    (simp_all add: stream_spec_def ex_stream_u_def UpdateClassEx_def isRunning_def hasError_def up_ok_def
      SPI_FLASH_SEC_SIZE_def)

lemma write_object_overflows_witness:
  "updater_write_object UpdateProcessorLegacy ex_hw \<lparr>do_available = length, do_read = (\<lambda>s n. (take n (s @ replicate n 0), drop n s))\<rparr>
     (ex_stream_u 5000 1) (replicate 4096 7) (\<lambda>_. 0, None) = Some (Inl OutOfBounds)"
  by (rule write_object_overflows [where buf = "replicate 4096 0"])
    (simp_all add: ex_stream_u_def UpdateClassEx_def isRunning_def hasError_def remaining_def sub32_def
      SPI_FLASH_SEC_SIZE_def)

end
