(* ===== verification/TsUtils.thy ===== *)
theory TsUtils
  imports UpdateProcessors
begin

text \<open>
  \<open>src/lib/Update/src/mbedtls-ts-addons/x509_ts_utils.cpp\<close> and \<open>x509_crt_utils.cpp\<close>: the helpers the
  RFC 3161 reply parser is built from, and the printer of certificate fingerprints.

  The reply lies in one buffer; a pointer into it is an index, and \<open>*p\<close> is threaded through the
  functions. The ASN.1, OID, certificate and signature functions of mbedtls are a record of
  parameters (\<open>asn1_lib\<close>); \<open>tag_spec\<close> states what \<open>mbedtls_asn1_get_tag\<close> documents. A function
  that fails reports the error and where \<open>*p\<close> was left. \<open>assert\<close> stops the program (\<open>NDEBUG\<close> is not
  defined in the build).
\<close>

section \<open>The functions of mbedtls\<close>

text \<open>\<open>mbedtls_asn1_bitstring\<close>; \<open>bs_p\<close> is where its bytes start.\<close>

record bitstring =
  bs_len :: nat
  bs_unused_bits :: nat
  bs_p :: nat

type_synonym x509_name = "(u8 list \<times> u8 list) list"

text \<open>
  Every reader gets the buffer, \<open>*p\<close> and the end it may read to, and returns what the C function
  returned with the new \<open>*p\<close> and the new value of the output; \<open>get_tag\<close> and \<open>get_bitstring\<close> also get
  the old one, which they may leave alone when they fail. The object identifier lookups answer
  \<open>None\<close> for an unknown identifier. A certificate of the chain that was allocated but never filled
  is \<open>None\<close>.
\<close>

record 'c asn1_lib =
  al_get_tag :: "u8 list \<Rightarrow> nat \<Rightarrow> nat \<Rightarrow> nat \<Rightarrow> u8 \<Rightarrow> fault + int \<times> nat \<times> nat"
  al_get_int :: "u8 list \<Rightarrow> nat \<Rightarrow> nat \<Rightarrow> fault + int \<times> nat \<times> int"
  al_get_bool :: "u8 list \<Rightarrow> nat \<Rightarrow> nat \<Rightarrow> fault + int \<times> nat \<times> int"
  al_get_bitstring :: "u8 list \<Rightarrow> nat \<Rightarrow> nat \<Rightarrow> bitstring \<Rightarrow> fault + int \<times> nat \<times> bitstring"
  al_get_name :: "u8 list \<Rightarrow> nat \<Rightarrow> nat \<Rightarrow> fault + int \<times> nat \<times> x509_name"
  al_oid_md :: "u8 list \<Rightarrow> int option"
  al_oid_pk :: "u8 list \<Rightarrow> int option"
  al_md_name :: "nat \<Rightarrow> u8 list"
  al_crt_parse_der :: "u8 list \<Rightarrow> 'c option"
  al_crt_raw :: "'c \<Rightarrow> u8 list"
  al_calloc_crt :: bool
  al_pk_verify :: "'c option \<Rightarrow> int \<Rightarrow> u8 list \<Rightarrow> u8 list \<Rightarrow> int"

definition ASN1_BOOLEAN :: u8 where "ASN1_BOOLEAN = 0x01"
definition ASN1_INTEGER :: u8 where "ASN1_INTEGER = 0x02"
definition ASN1_BIT_STRING :: u8 where "ASN1_BIT_STRING = 0x03"
definition ASN1_OCTET_STRING :: u8 where "ASN1_OCTET_STRING = 0x04"
definition ASN1_NULL :: u8 where "ASN1_NULL = 0x05"
definition ASN1_OID :: u8 where "ASN1_OID = 0x06"
definition ASN1_UTF8_STRING :: u8 where "ASN1_UTF8_STRING = 0x0C"
definition ASN1_GENERALIZED_TIME :: u8 where "ASN1_GENERALIZED_TIME = 0x18"
definition ASN1_SEQUENCE :: u8 where "ASN1_SEQUENCE = 0x30" \<comment> \<open>\<open>CONSTRUCTED | SEQUENCE\<close>\<close>
definition ASN1_SET :: u8 where "ASN1_SET = 0x31" \<comment> \<open>\<open>CONSTRUCTED | SET\<close>\<close>
definition ASN1_CONTEXT :: u8 where "ASN1_CONTEXT = 0xA0" \<comment> \<open>\<open>CONSTRUCTED | CONTEXT_SPECIFIC\<close>\<close>

text \<open>
  What \<open>mbedtls_asn1_get_tag\<close> promises: it stays inside the area, and after a success \<open>*p\<close> is past
  the tag and the length, the element lies in the area and the tag is the one asked for. With the
  end at or before \<open>*p\<close> it fails.
\<close>

definition tag_spec :: "'c asn1_lib \<Rightarrow> u8 list \<Rightarrow> bool" where
  "tag_spec lib buf \<longleftrightarrow>
     (\<forall>p e n t. e \<le> length buf \<longrightarrow>
        (\<exists>ret p' n'. al_get_tag lib buf p e n t = Inr (ret, p', n') \<and>
           (p < e \<longrightarrow> p \<le> p' \<and> p' \<le> e) \<and> (e \<le> p \<longrightarrow> ret \<noteq> 0 \<and> p' = p) \<and>
           (ret = 0 \<longrightarrow> p < p' \<and> p' + n' \<le> e \<and> buf ! p = t)))"

lemma tag_specD:
  assumes "tag_spec lib buf" "e \<le> length buf"
  obtains ret p' n' where "al_get_tag lib buf p e n t = Inr (ret, p', n')"
    "p < e \<Longrightarrow> p \<le> p' \<and> p' \<le> e" "e \<le> p \<Longrightarrow> ret \<noteq> 0 \<and> p' = p"
    "ret = 0 \<Longrightarrow> p < p' \<and> p' + n' \<le> e \<and> buf ! p = t"
  using assms unfolding tag_spec_def by metis

section \<open>Results\<close>

text \<open>The error codes the files return; \<open>LibErr\<close> passes on the code of a library function.\<close>

datatype ts_err =
    LibErr int
  | X509_INVALID_FORMAT
  | X509_INVALID_DATE
  | X509_ALLOC_FAILED_ERR
  | X509_INVALID_SIGNATURE
  | ASN1_INVALID_LENGTH
  | ASN1_INVALID_DATA
  | ERROR_CORRUPTION_DETECTED
  | PK_SIG_LEN_MISMATCH
  | TS_REPLY_INVALID_FORMAT
  | TS_REPLY_LENGTH_MISMATCH \<comment> \<open>\<open>TS_REPLY_INVALID_FORMAT + ASN1_LENGTH_MISMATCH\<close>\<close>
  | MD_FAILED

type_synonym 'a parsed = "fault + ts_err \<times> nat + 'a \<times> nat"

definition fails :: "ts_err \<Rightarrow> nat \<Rightarrow> 'a parsed" where
  "fails e p = Inr (Inl (e, p))"

definition yields :: "'a \<Rightarrow> nat \<Rightarrow> 'a parsed" where
  "yields x p = Inr (Inr (x, p))"

definition asserts :: "bool \<Rightarrow> 'a parsed \<Rightarrow> 'a parsed" where
  "asserts b r = (if b then r else Inl AssertFailed)"

text \<open>Continue with the value, or with the error; and for the readers of the library.\<close>

definition on_parse ::
  "'a parsed \<Rightarrow> (ts_err \<Rightarrow> nat \<Rightarrow> 'b parsed) \<Rightarrow> ('a \<Rightarrow> nat \<Rightarrow> 'b parsed) \<Rightarrow> 'b parsed" where
  "on_parse r bad good =
     (case r of Inl f \<Rightarrow> Inl f | Inr (Inl (e, p)) \<Rightarrow> bad e p | Inr (Inr (x, p)) \<Rightarrow> good x p)"

definition on_read ::
  "fault + int \<times> nat \<times> 'a \<Rightarrow> (int \<Rightarrow> nat \<Rightarrow> 'a \<Rightarrow> 'b parsed) \<Rightarrow> (nat \<Rightarrow> 'a \<Rightarrow> 'b parsed) \<Rightarrow> 'b parsed" where
  "on_read r bad good =
     bind_res r (\<lambda>(ret, p, x). if ret = 0 then good p x else bad ret p x)"

text \<open>\<open>if ((ret = f(...)) != 0) return ret;\<close>\<close>

definition need_read :: "fault + int \<times> nat \<times> 'a \<Rightarrow> (nat \<Rightarrow> 'a \<Rightarrow> 'b parsed) \<Rightarrow> 'b parsed" where
  "need_read r good = on_read r (\<lambda>ret p x. fails (LibErr ret) p) good"

lemma parsed_simps [simp]:
  "on_parse (Inl f) bad good = Inl f"
  "on_parse (fails e p) bad good = bad e p"
  "on_parse (yields x p) bad good = good x p"
  "asserts True r = r"
  "asserts False r = Inl AssertFailed"
  "on_read (Inl f) bad2 good2 = Inl f"
  "on_read (Inr (ret, p, y)) bad2 good2 = (if ret = 0 then good2 p y else bad2 ret p y)"
  "need_read (Inl f) good2 = Inl f"
  "need_read (Inr (ret, p, y)) good2 = (if ret = 0 then good2 p y else fails (LibErr ret) p)"
  by (simp_all add: on_parse_def fails_def yields_def asserts_def on_read_def need_read_def)

lemma parsed_distinct [simp]:
  "yields x p = yields y q \<longleftrightarrow> x = y \<and> p = q"
  "fails e p = fails d q \<longleftrightarrow> e = d \<and> p = q"
  "yields x p \<noteq> fails e q" "fails e q \<noteq> yields x p"
  "yields x p \<noteq> Inl f" "fails e p \<noteq> Inl f" "Inl f \<noteq> yields x p" "Inl f \<noteq> fails e p"
  by (auto simp: yields_def fails_def)

lemma yields_asserts: "asserts b r = yields x p \<longleftrightarrow> b \<and> r = yields x p"
  by (cases b) auto

lemma yields_on_parse:
  "on_parse r bad good = yields x p \<longleftrightarrow>
     (\<exists>y q. r = yields y q \<and> good y q = yields x p) \<or> (\<exists>e q. r = fails e q \<and> bad e q = yields x p)"
  by (auto simp: on_parse_def yields_def fails_def split: sum.splits prod.splits)

lemma yields_on_read:
  "on_read r bad good = yields x p \<longleftrightarrow>
     (\<exists>ret q y. r = Inr (ret, q, y) \<and> (if ret = 0 then good q y else bad ret q y) = yields x p)"
  by (cases r) (auto split del: if_split)

lemma yields_need_read:
  "need_read r good = yields x p \<longleftrightarrow> (\<exists>q y. r = Inr (0, q, y) \<and> good q y = yields x p)"
  by (auto simp: need_read_def yields_on_read split: if_splits)

lemma yields_bind_res:
  "bind_res r f = yields x p \<longleftrightarrow> (\<exists>y. r = Inr y \<and> f y = yields x p)"
  by (cases r) (auto simp: yields_def)

lemmas yields_iff = yields_asserts yields_on_parse yields_on_read yields_need_read yields_bind_res

section \<open>Names and integers\<close>

definition mbedtls_x509_get_names :: "'c asn1_lib \<Rightarrow> u8 list \<Rightarrow> nat \<Rightarrow> nat \<Rightarrow> x509_name parsed" where
  "mbedtls_x509_get_names lib buf p e =
     on_read (al_get_tag lib buf p e 0 ASN1_SEQUENCE)
       (\<lambda>ret p set_len. fails ERROR_CORRUPTION_DETECTED p)
       (\<lambda>p set_len.
         need_read (al_get_name lib buf p (p + set_len)) (\<lambda>q cur.
         asserts (q = p + set_len) (yields cur q)))"

text \<open>\<open>SKIPLEADINGZERORS\<close>\<close>

fun skip_zeros :: "u8 list \<Rightarrow> nat \<Rightarrow> nat \<Rightarrow> fault + nat \<times> nat" where
  "skip_zeros buf p 0 = Inr (p, 0)"
| "skip_zeros buf p (Suc n) =
     bind_res (rd buf p) (\<lambda>b. if b = 0 then skip_zeros buf (p + 1) n else Inr (p, Suc n))"

fun uint64_loop :: "u8 list \<Rightarrow> nat \<Rightarrow> nat \<Rightarrow> u64 \<Rightarrow> fault + nat \<times> u64" where
  "uint64_loop buf p 0 val = Inr (p, val)"
| "uint64_loop buf p (Suc n) val =
     bind_res (rd buf p) (\<lambda>b. uint64_loop buf (p + 1) n (or (push_bit 8 val) (ucast b)))"

definition mbedtls_asn1_get_uint64 :: "'c asn1_lib \<Rightarrow> u8 list \<Rightarrow> nat \<Rightarrow> nat \<Rightarrow> u64 parsed" where
  "mbedtls_asn1_get_uint64 lib buf p e =
     need_read (al_get_tag lib buf p e 0 ASN1_INTEGER) (\<lambda>p len.
       let ep = p + len in
       if len = 0 then fails ASN1_INVALID_LENGTH p
       else bind_res (rd buf p) (\<lambda>b.
         if and b 0x80 \<noteq> 0 then fails X509_INVALID_FORMAT p
         else bind_res (skip_zeros buf p len) (\<lambda>(p, len).
           if 8 < len then fails ASN1_INVALID_LENGTH p
           else bind_res (uint64_loop buf p len 0) (\<lambda>(p, val).
             asserts (ep = p) (yields val p)))))"

text \<open>The big number functions: \<open>mbedtls_mpi_lset\<close> and \<open>mbedtls_mpi_shift_l\<close>.\<close>

record 'm mpi_lib =
  mp_init :: 'm
  mp_lset :: "'m \<Rightarrow> nat \<Rightarrow> int \<times> 'm"
  mp_shift_l :: "'m \<Rightarrow> nat \<Rightarrow> int \<times> 'm"

fun serial_mpi_loop ::
  "'m mpi_lib \<Rightarrow> u8 list \<Rightarrow> nat \<Rightarrow> nat \<Rightarrow> 'm \<Rightarrow> 'm parsed" where
  "serial_mpi_loop mp buf p 0 val = yields val p"
| "serial_mpi_loop mp buf p (Suc n) val =
     bind_res (rd buf p) (\<lambda>b.
       case mp_lset mp val (unat b) of (r1, v1) \<Rightarrow>
         if r1 \<noteq> 0 then fails (LibErr r1) p
         else case mp_shift_l mp v1 8 of (r2, v2) \<Rightarrow>
           if r2 \<noteq> 0 then fails (LibErr r2) p else serial_mpi_loop mp buf (p + 1) n v2)"

definition mbedtls_asn1_get_serial_mpi ::
  "'c asn1_lib \<Rightarrow> 'm mpi_lib \<Rightarrow> u8 list \<Rightarrow> nat \<Rightarrow> nat \<Rightarrow> 'm parsed" where
  "mbedtls_asn1_get_serial_mpi lib mp buf p e =
     need_read (al_get_tag lib buf p e 0 ASN1_INTEGER) (\<lambda>p len.
       let ep = p + len in
       if len = 0 then fails ASN1_INVALID_LENGTH p
       else bind_res (rd buf p) (\<lambda>b.
         if and b 0x80 \<noteq> 0 then fails ASN1_INVALID_DATA p
         else bind_res (skip_zeros buf p len) (\<lambda>(p, len).
           on_parse (serial_mpi_loop mp buf p len (mp_init mp)) fails (\<lambda>val p.
             asserts (ep = p) (yields val p)))))"

definition mbedtls_asn1_get_serial_bitstring ::
  "'c asn1_lib \<Rightarrow> u8 list \<Rightarrow> nat \<Rightarrow> nat \<Rightarrow> bitstring parsed" where
  "mbedtls_asn1_get_serial_bitstring lib buf p e =
     need_read (al_get_tag lib buf p e 0 ASN1_INTEGER) (\<lambda>p len.
       let ep = p + len in
       if len = 0 then fails ASN1_INVALID_LENGTH p
       else bind_res (rd buf p) (\<lambda>b.
         if and b 0x80 \<noteq> 0 then fails ASN1_INVALID_DATA p
         else bind_res (skip_zeros buf p len) (\<lambda>(p, len).
           asserts (ep = p + len)
             (yields \<lparr>bs_len = len, bs_unused_bits = 0, bs_p = p\<rparr> (p + len)))))"

section \<open>Times\<close>

record x509_time =
  tm_year :: int
  tm_mon :: int
  tm_day :: int
  tm_hour :: int
  tm_min :: int
  tm_sec :: int

fun parse_digits :: "u8 list \<Rightarrow> nat \<Rightarrow> nat \<Rightarrow> int \<Rightarrow> int parsed" where
  "parse_digits buf p 0 res = yields res p"
| "parse_digits buf p (Suc n) res =
     bind_res (rd buf p) (\<lambda>b.
       if b < 48 \<or> 57 < b then fails X509_INVALID_DATE p
       else parse_digits buf (p + 1) n (res * 10 + (uint b - 48)))"

definition x509_parse_int :: "u8 list \<Rightarrow> nat \<Rightarrow> nat \<Rightarrow> int parsed" where
  "x509_parse_int buf p n = parse_digits buf p n 0"

text \<open>The digits after the decimal point: only how many there are matters.\<close>

fun skip_fraction :: "u8 list \<Rightarrow> nat \<Rightarrow> nat \<Rightarrow> fault + nat \<times> nat" where
  "skip_fraction buf p 0 = Inr (p, 0)"
| "skip_fraction buf p (Suc n) =
     bind_res (rd buf p) (\<lambda>b.
       if 48 \<le> b \<and> b \<le> 57 then skip_fraction buf (p + 1) n else Inr (p, Suc n))"

text \<open>Seconds with a fraction, when two characters are left for them.\<close>

definition parse_seconds :: "u8 list \<Rightarrow> nat \<Rightarrow> nat \<Rightarrow> int \<Rightarrow> (int \<times> nat) parsed" where
  "parse_seconds buf p len old =
     (if len < 2 then yields (old, len) p
      else on_parse (x509_parse_int buf p 2) fails (\<lambda>sec p.
        let len = len - 2 in
        if len \<le> 1 then yields (sec, len) p
        else bind_res (rd buf p) (\<lambda>b.
          if b \<noteq> 46 then yields (sec, len) p
          else bind_res (skip_fraction buf (p + 1) (len - 1)) (\<lambda>(p, len). yields (sec, len) p))))"

text \<open>A trailing \<open>Z\<close>, then whatever is left is skipped.\<close>

definition skip_zone :: "u8 list \<Rightarrow> nat \<Rightarrow> nat \<Rightarrow> fault + nat" where
  "skip_zone buf p len =
     (if len = 0 then Inr p
      else bind_res (rd buf p) (\<lambda>b. if b = 90 then Inr (p + 1 + (len - 1)) else Inr (p + len)))"

definition x509_parse_time ::
  "u8 list \<Rightarrow> nat \<Rightarrow> nat \<Rightarrow> nat \<Rightarrow> x509_time \<Rightarrow> x509_time parsed" where
  "x509_parse_time buf p len yearlen tm =
     (if len < yearlen + 8 then fails X509_INVALID_DATE p
      else
        let len = len - (yearlen + 8) in
        on_parse (x509_parse_int buf p yearlen) fails (\<lambda>y p.
        let year = (if yearlen = 2 then (if y < 50 then y + 100 else y) + 1900 else y) in
        on_parse (x509_parse_int buf p 2) fails (\<lambda>mon p.
        on_parse (x509_parse_int buf p 2) fails (\<lambda>day p.
        on_parse (x509_parse_int buf p 2) fails (\<lambda>hour p.
        on_parse (x509_parse_int buf p 2) fails (\<lambda>mi p.
        on_parse (parse_seconds buf p len (tm_sec tm)) fails (\<lambda>(sec, len) p.
        bind_res (skip_zone buf p len) (\<lambda>p.
          yields \<lparr>tm_year = year, tm_mon = mon, tm_day = day, tm_hour = hour, tm_min = mi,
                  tm_sec = sec\<rparr> p))))))))"

section \<open>Algorithm identifiers\<close>

text \<open>
  One identifier: the number of a digest or, failing that, of a public key algorithm, in the same
  \<open>int\<close>. A tag that is not an object identifier is an \<open>assert(0)\<close>.
\<close>

definition mbedtls_asn1_get_algorithm_itentifier ::
  "'c asn1_lib \<Rightarrow> u8 list \<Rightarrow> nat \<Rightarrow> nat \<Rightarrow> int parsed" where
  "mbedtls_asn1_get_algorithm_itentifier lib buf p e =
     on_read (al_get_tag lib buf p e 0 ASN1_OID)
       (\<lambda>ret p len. Inl AssertFailed)
       (\<lambda>p len.
         let oid = take len (drop p buf) in
         yields (case al_oid_md lib oid of
                   Some a \<Rightarrow> a
                 | None \<Rightarrow> (case al_oid_pk lib oid of Some a \<Rightarrow> a | None \<Rightarrow> - 1))
           (p + len))"

fun algorithms_loop ::
  "'c asn1_lib \<Rightarrow> u8 list \<Rightarrow> nat \<Rightarrow> nat \<Rightarrow> nat \<Rightarrow> nat \<Rightarrow> nat \<Rightarrow> int \<Rightarrow> int parsed" where
  "algorithms_loop lib buf e ep 0 p len alg = Inl NoReturn"
| "algorithms_loop lib buf e ep (Suc k) p len alg =
     (if p < ep then
        on_read (al_get_tag lib buf p e len ASN1_NULL)
          (\<lambda>ret p len.
            on_parse (mbedtls_asn1_get_algorithm_itentifier lib buf p e) fails (\<lambda>a p.
              algorithms_loop lib buf e ep k p len (if a \<noteq> - 1 then a else alg)))
          (\<lambda>p len. yields alg p)
      else yields alg p)"

text \<open>Every round takes at least one byte, so \<open>ep - p\<close> rounds and one to leave the loop are enough.\<close>

definition mbedtls_asn1_get_algorithm_itentifiers ::
  "'c asn1_lib \<Rightarrow> u8 list \<Rightarrow> nat \<Rightarrow> nat \<Rightarrow> int parsed" where
  "mbedtls_asn1_get_algorithm_itentifiers lib buf p e =
     on_read (al_get_tag lib buf p e 0 ASN1_SEQUENCE)
       (\<lambda>ret p len. Inl AssertFailed)
       (\<lambda>p len.
         let ep = p + len in
         on_parse (algorithms_loop lib buf e ep (Suc (ep - p)) p len (- 1)) fails (\<lambda>alg p.
           asserts (ep = p) (yields alg p)))"

section \<open>Certificates\<close>

text \<open>
  \<open>mbedtls_x509_crt_parse_der\<close> fills the first node of the chain when it is still empty, and
  otherwise appends one; the loop then takes the length of the last node.
\<close>

definition add_crt :: "'c option list \<Rightarrow> 'c \<Rightarrow> 'c option list" where
  "add_crt chain c = (if chain = [None] then [Some c] else chain @ [Some c])"

fun certificate_loop ::
  "'c asn1_lib \<Rightarrow> u8 list \<Rightarrow> nat \<Rightarrow> nat \<Rightarrow> nat \<Rightarrow> 'c option list \<Rightarrow> 'c option list parsed" where
  "certificate_loop lib buf 0 p len chain = Inl NoReturn"
| "certificate_loop lib buf (Suc k) p len chain =
     (case al_crt_parse_der lib (take len (drop p buf)) of
        None \<Rightarrow> yields chain p
      | Some c \<Rightarrow>
          certificate_loop lib buf k (p + length (al_crt_raw lib c))
            (len - length (al_crt_raw lib c)) (add_crt chain c))"

definition mbedtls_asn1_get_certificate_set ::
  "'c asn1_lib \<Rightarrow> u8 list \<Rightarrow> nat \<Rightarrow> nat \<Rightarrow> 'c option list \<Rightarrow> 'c option list parsed" where
  "mbedtls_asn1_get_certificate_set lib buf p e chain =
     (if chain = [] \<and> \<not> al_calloc_crt lib then fails X509_ALLOC_FAILED_ERR p
      else
        on_parse (certificate_loop lib buf (Suc (e - p)) p (e - p)
                    (if chain = [] then [None] else chain)) fails (\<lambda>chain p.
          asserts (e = p) (yields chain p)))"

section \<open>The fingerprint of a certificate\<close>

text \<open>\<open>memcpy\<close> of \<open>bs\<close> to \<open>p\<close>, which then moves behind it; one byte when there is room before \<open>ep\<close>.\<close>

definition put_bytes :: "u8 list \<Rightarrow> nat \<Rightarrow> u8 list \<Rightarrow> fault + u8 list \<times> nat" where
  "put_bytes mem p bs =
     (if p + length bs \<le> length mem
      then Inr (take p mem @ bs @ drop (p + length bs) mem, p + length bs) else Inl OutOfBounds)"

definition put_if :: "u8 list \<Rightarrow> nat \<Rightarrow> int \<Rightarrow> u8 \<Rightarrow> fault + u8 list \<times> nat" where
  "put_if mem p ep b = (if int p < ep then put_bytes mem p [b] else Inr (mem, p))"

text \<open>\<open>MIN(n, ep - p)\<close>: a \<open>size_t\<close> against a pointer difference, which counts as huge when negative.\<close>

definition min_room :: "nat \<Rightarrow> int \<Rightarrow> nat \<Rightarrow> nat" where
  "min_room n ep p = (if ep < int p then n else min n (nat (ep - int p)))"

definition put_min :: "u8 list \<Rightarrow> nat \<Rightarrow> int \<Rightarrow> u8 list \<Rightarrow> fault + u8 list \<times> nat" where
  "put_min mem p ep bs = put_bytes mem p (take (min_room (length bs) ep p) bs)"

definition hex_char :: "u8 \<Rightarrow> u8" where
  "hex_char c = (if c < 10 then 48 + c else 65 + (c - 10))"

fun fingerprint_loop :: "u8 list \<Rightarrow> nat \<Rightarrow> int \<Rightarrow> u8 list \<Rightarrow> fault + u8 list \<times> nat" where
  "fingerprint_loop mem p ep [] = Inr (mem, p)"
| "fingerprint_loop mem p ep (b # bs) =
     bind_res (put_if mem p ep (hex_char (drop_bit 4 b))) (\<lambda>(mem, p).
     bind_res (put_if mem p ep (hex_char (and b 0xF))) (\<lambda>(mem, p).
     bind_res (if bs \<noteq> [] then put_if mem p ep 58 else Inr (mem, p)) (\<lambda>(mem, p).
       fingerprint_loop mem p ep bs)))"

text \<open>\<open> fingerprint: \<close>\<close>

definition FINGERPRINT :: "u8 list" where
  "FINGERPRINT = [32, 102, 105, 110, 103, 101, 114, 112, 114, 105, 110, 116, 58, 32]"

definition fprint_put ::
  "'c asn1_lib \<Rightarrow> u8 list \<Rightarrow> nat \<Rightarrow> u8 list option \<Rightarrow> nat \<Rightarrow> u8 list \<Rightarrow> fault + nat option \<times> u8 list" where
  "fprint_put lib mem len prefix mdt output =
     (let ep = int len - 4 in
      bind_res (case prefix of None \<Rightarrow> Inr (mem, 0) | Some s \<Rightarrow> put_min mem 0 ep s) (\<lambda>(mem, p).
      bind_res (put_min mem p ep (al_md_name lib mdt)) (\<lambda>(mem, p).
      bind_res (put_min mem p ep FINGERPRINT) (\<lambda>(mem, p).
      bind_res (fingerprint_loop mem p ep output) (\<lambda>(mem, p).
      bind_res (if int p = ep then put_bytes mem p [46, 46, 46] else Inr (mem, p)) (\<lambda>(mem, p).
      bind_res (put_bytes mem p [0]) (\<lambda>(mem, p). Inr (Some p, mem))))))))"

text \<open>
  The answer is the number of bytes written, or \<open>None\<close> for an error code. \<open>mem\<close> is the memory from
  \<open>buff\<close> on.
\<close>

definition mbedtls_x509_crt_fprint ::
  "('c, 'd) crypto \<Rightarrow> 'c asn1_lib \<Rightarrow> u8 list \<Rightarrow> nat \<Rightarrow> u8 list option \<Rightarrow> 'c \<Rightarrow> nat \<Rightarrow>
   fault + nat option \<times> u8 list" where
  "mbedtls_x509_crt_fprint cr lib mem len prefix cert tpe =
     (let mdt = (if tpe \<noteq> 0 then tpe else MD_SHA256);
          ctx = (if malloc_ok cr (md_get_size cr mdt)
                 then md_start cr (if md_known cr mdt then Some mdt else None) else None)
      in case Option.bind (Option.bind ctx (\<lambda>d. md_update cr d (al_crt_raw lib cert))) (md_finish cr) of
           None \<Rightarrow> Inr (None, mem)
         | Some output \<Rightarrow> fprint_put lib mem len prefix mdt output)"

section \<open>Correctness of the helpers\<close>

subsection \<open>Integers\<close>

definition be_value :: "u8 list \<Rightarrow> nat" where
  "be_value bs = foldl (\<lambda>n b. n * 256 + unat b) 0 bs"

lemma be_value_acc: "foldl (\<lambda>n b. n * 256 + unat b) k (bs :: u8 list) = k * 256 ^ length bs + be_value bs"
proof (induction bs arbitrary: k)
  case Nil
  then show ?case by (simp add: be_value_def)
next
  case (Cons b bs)
  show ?case using Cons [of "k * 256 + unat b"] Cons [of "unat b"]
    by (simp add: be_value_def algebra_simps)
qed

lemma be_value_simps [simp]:
  "be_value [] = 0" "be_value (b # bs) = unat b * 256 ^ length bs + be_value bs"
  using be_value_acc [of "unat b" bs] by (simp_all add: be_value_def)

lemma be_value_bound: "be_value bs < 256 ^ length bs"
proof (induction bs)
  case (Cons b bs)
  have "unat b + 1 \<le> 256" using unsigned_less [of b, where 'a = nat] by simp
  then have "(unat b + 1) * 256 ^ length bs \<le> 256 * 256 ^ length bs" by (intro mult_le_mono1)
  then have "unat b * 256 ^ length bs + 256 ^ length bs \<le> 256 * 256 ^ length bs"
    by (simp only: add_mult_distrib mult_1)
  with Cons show ?case by (simp only: be_value_simps length_Cons power_Suc)
qed simp

lemma take_drop_Suc: "p < length buf \<Longrightarrow> take (Suc n) (drop p buf) = buf ! p # take n (drop (Suc p) buf)"
  by (simp add: Cons_nth_drop_Suc [symmetric])

lemma rd_in [simp]: "p < length buf \<Longrightarrow> rd buf p = Inr (buf ! p)"
  by (simp add: rd_def)

lemma skip_zeros_eq:
  assumes "p + n \<le> length buf"
  obtains q m where "skip_zeros buf p n = Inr (q, m)" "q + m = p + n" "m \<le> n" "p \<le> q"
    "be_value (take m (drop q buf)) = be_value (take n (drop p buf))"
    "0 < m \<Longrightarrow> buf ! q \<noteq> 0"
  using assms
proof (induction n arbitrary: p thesis)
  case 0
  show ?case by (rule "0.prems"(1) [of p 0]) simp_all
next
  case (Suc n)
  have p: "p < length buf" using Suc.prems(2) by simp
  show ?case
  proof (cases "buf ! p = 0")
    case True
    have l: "p + 1 + n \<le> length buf" using Suc.prems(2) by simp
    obtain q m where "skip_zeros buf (p + 1) n = Inr (q, m)" "q + m = p + 1 + n" "m \<le> n" "p + 1 \<le> q"
      "be_value (take m (drop q buf)) = be_value (take n (drop (p + 1) buf))" "0 < m \<Longrightarrow> buf ! q \<noteq> 0"
      using Suc.IH [OF _ l] by blast
    with True p show ?thesis
      by (intro Suc.prems(1) [of q m]) (simp_all add: take_drop_Suc)
  next
    case False
    with p show ?thesis by (intro Suc.prems(1) [of p "Suc n"]) simp_all
  qed
qed

lemma unat_shift_or:
  fixes val :: u64 and b :: u8
  assumes "unat val * 256 + unat b < 2 ^ 64"
  shows "unat (or (push_bit 8 val) (ucast b)) = unat val * 256 + unat b"
proof -
  have "\<not> bit (push_bit 8 val) i \<or> \<not> bit (ucast b :: u64) i" for i
    by (auto simp: bit_push_bit_iff bit_ucast_iff dest: bit_imp_le_length)
  then have "or (push_bit 8 val) (ucast b) = push_bit 8 val + (ucast b :: u64)"
    by (intro disjunctive_add [symmetric]) simp
  moreover have "unat (push_bit 8 val) = unat val * 256"
    using assms by (simp add: push_bit_eq_mult unat_word_ariths)
  moreover have "unat (ucast b :: u64) = unat b"
    by transfer (simp add: take_bit_eq_mod)
  ultimately show ?thesis using assms by (simp add: unat_word_ariths)
qed

lemma uint64_loop_eq:
  assumes "p + n \<le> length buf" "unat val * 256 ^ n + be_value (take n (drop p buf)) < 2 ^ 64"
  shows "uint64_loop buf p n val =
    Inr (p + n, of_nat (unat val * 256 ^ n + be_value (take n (drop p buf))))"
  using assms
proof (induction n arbitrary: p val)
  case 0
  then show ?case by simp
next
  case (Suc n)
  have p: "p < length buf" using Suc.prems(1) by simp
  let ?b = "buf ! p" and ?r = "be_value (take n (drop (Suc p) buf))"
  have l: "length (take n (drop (Suc p) buf)) = n" using Suc.prems(1) by simp
  have s: "unat val * 256 ^ Suc n + be_value (take (Suc n) (drop p buf))
      = (unat val * 256 + unat ?b) * 256 ^ n + ?r"
    using l by (simp add: take_drop_Suc [OF p] algebra_simps)
  with Suc.prems(2) have lt: "(unat val * 256 + unat ?b) * 256 ^ n + ?r < 2 ^ 64" by simp
  have "x \<le> x * 256 ^ n" for x :: nat by simp
  then have "unat val * 256 + unat ?b \<le> (unat val * 256 + unat ?b) * 256 ^ n + ?r"
    by (rule le_trans [OF _ le_add1])
  also note lt
  finally have "unat val * 256 + unat ?b < 2 ^ 64" .
  then have u: "unat (or (push_bit 8 val) (ucast ?b)) = unat val * 256 + unat ?b"
    by (rule unat_shift_or)
  have "uint64_loop buf (Suc p) n (or (push_bit 8 val) (ucast ?b)) =
      Inr (Suc p + n, of_nat ((unat val * 256 + unat ?b) * 256 ^ n + ?r))"
    using Suc.IH [of "Suc p" "or (push_bit 8 val) (ucast ?b)"] Suc.prems(1) lt u by simp
  with s p show ?case by simp
qed

lemma be_value_leading: "0 < m \<Longrightarrow> q + m \<le> length buf \<Longrightarrow> buf ! q \<noteq> 0 \<Longrightarrow>
    256 ^ (m - 1) \<le> be_value (take m (drop q buf))"
proof (cases m)
  case (Suc k)
  assume a: "0 < m" "q + m \<le> length buf" "buf ! q \<noteq> 0"
  from a Suc have q: "q < length buf" by simp
  have "1 \<le> unat (buf ! q)" using a(3) by (simp add: unat_eq_0 Suc_le_eq flip: neq0_conv)
  then have "1 * 256 ^ k \<le> unat (buf ! q) * 256 ^ k" by (rule mult_le_mono1)
  also have "\<dots> \<le> be_value (take m (drop q buf))"
    using a(2) Suc by (simp add: take_drop_Suc [OF q])
  finally show ?thesis using Suc by simp
qed simp

text \<open>
  C27. An unsigned integer of the reply is read as the big-endian number its bytes denote, with any
  number of leading zeros, exactly when it is not empty, not negative and fits in 64 bits; anything
  else is refused.
\<close>

theorem asn1_get_uint64_value:
  assumes "al_get_tag lib buf p e 0 ASN1_INTEGER = Inr (0, q, n)" "q + n \<le> length buf"
  shows "if 0 < n \<and> and (buf ! q) 0x80 = 0 \<and> be_value (take n (drop q buf)) < 2 ^ 64
    then mbedtls_asn1_get_uint64 lib buf p e = yields (of_nat (be_value (take n (drop q buf)))) (q + n)
    else \<exists>err r. mbedtls_asn1_get_uint64 lib buf p e = fails err r"
proof (cases "0 < n \<and> and (buf ! q) 0x80 = 0")
  case False
  with assms show ?thesis
    by (cases "n = 0") (auto simp: mbedtls_asn1_get_uint64_def)
next
  case True
  let ?v = "be_value (take n (drop q buf))"
  obtain r m where s: "skip_zeros buf q n = Inr (r, m)" "r + m = q + n" "m \<le> n" "q \<le> r"
    "be_value (take m (drop r buf)) = ?v" "0 < m \<Longrightarrow> buf ! r \<noteq> 0"
    using skip_zeros_eq [OF assms(2)] by blast
  have q: "q < length buf" using True assms(2) by simp
  have g: "mbedtls_asn1_get_uint64 lib buf p e =
      (if 8 < m then fails ASN1_INVALID_LENGTH r
       else bind_res (uint64_loop buf r m 0) (\<lambda>(p, val). asserts (q + n = p) (yields val p)))"
    using True q by (simp add: mbedtls_asn1_get_uint64_def assms(1) s(1))
  show ?thesis
  proof (cases "8 < m")
    case True
    then have "256 ^ (m - 1) \<le> ?v" using be_value_leading [of m r buf] s assms(2) by simp
    moreover have "(256::nat) ^ 8 \<le> 256 ^ (m - 1)" using True by (intro power_increasing) simp_all
    ultimately have "2 ^ 64 \<le> ?v" by simp
    with g True show ?thesis by auto
  next
    case False
    have "?v < 256 ^ m"
      using be_value_bound [of "take m (drop r buf)"] s assms(2) by simp
    moreover have "(256::nat) ^ m \<le> 256 ^ 8" using False by (intro power_increasing) simp_all
    ultimately have lt: "?v < 2 ^ 64" by simp
    have "uint64_loop buf r m 0 = Inr (q + n, of_nat ?v)"
      using uint64_loop_eq [of r m buf 0] s assms(2) lt by simp
    with g False lt True show ?thesis by simp
  qed
qed

subsection \<open>Serial numbers\<close>

text \<open>\<open>mbedtls_mpi_lset\<close> sets the number, \<open>mbedtls_mpi_shift_l\<close> multiplies it by a power of two.\<close>

definition mpi_spec :: "('m \<Rightarrow> nat) \<Rightarrow> 'm mpi_lib \<Rightarrow> bool" where
  "mpi_spec num mp \<longleftrightarrow>
     num (mp_init mp) = 0 \<and>
     (\<forall>v z v'. mp_lset mp v z = (0, v') \<longrightarrow> num v' = z) \<and>
     (\<forall>v k v'. mp_shift_l mp v k = (0, v') \<longrightarrow> num v' = num v * 2 ^ k)"

lemma serial_mpi_loop_last:
  assumes "mpi_spec num mp" "p + n \<le> length buf" "serial_mpi_loop mp buf p n val = yields v q"
  shows "q = p + n \<and> num v = (if n = 0 then num val else unat (buf ! (p + n - 1)) * 256)"
  using assms(2,3)
proof (induction n arbitrary: p val)
  case 0
  then show ?case by simp
next
  case (Suc n)
  have p: "p < length buf" using Suc.prems(1) by simp
  obtain r1 v1 where l: "mp_lset mp val (unat (buf ! p)) = (r1, v1)" by fastforce
  obtain r2 v2 where h: "mp_shift_l mp v1 8 = (r2, v2)" by fastforce
  from Suc.prems(2) p l h have r: "r1 = 0" "r2 = 0" "serial_mpi_loop mp buf (p + 1) n v2 = yields v q"
    by (auto split: if_splits)
  have "num v2 = unat (buf ! p) * 256"
    using assms(1) l h r(1,2) by (auto simp: mpi_spec_def)
  with Suc.IH [OF _ r(3)] Suc.prems(1) show ?case by (auto split: if_splits)
qed

text \<open>
  Reading a serial number as a big number keeps nothing of it but its last byte, times 256: the
  loop sets the number instead of adding to it. (An all-zero serial is read as zero.)
\<close>

theorem serial_mpi_keeps_last_byte:
  assumes "mpi_spec num mp" "al_get_tag lib buf p e 0 ASN1_INTEGER = Inr (0, q, n)" "q + n \<le> length buf"
    and "mbedtls_asn1_get_serial_mpi lib mp buf p e = yields v r"
  shows "r = q + n \<and> num v = unat (buf ! (q + n - 1)) * 256"
proof -
  from assms(2,4) have n: "0 < n" by (auto simp: mbedtls_asn1_get_serial_mpi_def Let_def split: if_splits)
  then have q: "q < length buf" using assms(3) by simp
  obtain z m where s: "skip_zeros buf q n = Inr (z, m)" "z + m = q + n" "m \<le> n" "q \<le> z"
    "be_value (take m (drop z buf)) = be_value (take n (drop q buf))" "0 < m \<Longrightarrow> buf ! z \<noteq> 0"
    using skip_zeros_eq [OF assms(3)] by blast
  from assms(2,4) q s(1) have "serial_mpi_loop mp buf z m (mp_init mp) = yields v r"
    by (auto simp: mbedtls_asn1_get_serial_mpi_def Let_def yields_iff split: if_splits)
  from serial_mpi_loop_last [OF assms(1) _ this] s assms(3)
  have l: "r = q + n" "num v = (if m = 0 then 0 else unat (buf ! (q + n - 1)) * 256)"
    using assms(1) by (auto simp: mpi_spec_def)
  show ?thesis
  proof (cases "m = 0")
    case True
    have "take n (drop q buf) = take (n - 1) (drop q buf) @ [buf ! (q + n - 1)]"
      using n assms(3) take_Suc_conv_app_nth [of "n - 1" "drop q buf"] by (simp add: add.commute)
    moreover have "be_value (xs @ [b]) = be_value xs * 256 + unat b" for xs b
      by (simp add: be_value_def)
    ultimately have "unat (buf ! (q + n - 1)) = 0" using s(5) True by simp
    with l True show ?thesis by simp
  next
    case False
    with l show ?thesis by simp
  qed
qed

subsection \<open>Times\<close>

fun dec_bytes :: "nat \<Rightarrow> nat \<Rightarrow> u8 list" where
  "dec_bytes 0 n = []"
| "dec_bytes (Suc w) n = dec_bytes w (n div 10) @ [48 + of_nat (n mod 10)]"

definition dec_value :: "u8 list \<Rightarrow> int \<Rightarrow> int" where
  "dec_value bs r = foldl (\<lambda>r b. r * 10 + (uint b - 48)) r bs"

lemma length_dec_bytes [simp]: "length (dec_bytes w n) = w"
  by (induction w arbitrary: n) simp_all

lemma uint_digit: "k < 10 \<Longrightarrow> uint (48 + of_nat k :: u8) = 48 + int k"
proof -
  assume "k < 10"
  then have "k = 0 \<or> k = 1 \<or> k = 2 \<or> k = 3 \<or> k = 4 \<or> k = 5 \<or> k = 6 \<or> k = 7 \<or> k = 8 \<or> k = 9" by arith
  then show ?thesis by (elim disjE) simp_all
qed

lemma dec_bytes_digits: "b \<in> set (dec_bytes w n) \<Longrightarrow> 48 \<le> b \<and> b \<le> 57"
  by (induction w arbitrary: n) (auto simp: word_le_def uint_digit)

lemma dec_value_dec_bytes: "n < 10 ^ w \<Longrightarrow> dec_value (dec_bytes w n) 0 = int n"
proof (induction w arbitrary: n)
  case 0
  then show ?case by (simp add: dec_value_def)
next
  case (Suc w)
  then have "n div 10 < 10 ^ w" by (simp add: div_less_iff_less_mult mult.commute)
  then have "dec_value (dec_bytes w (n div 10)) 0 = int (n div 10)" by (rule Suc.IH)
  then have "dec_value (dec_bytes (Suc w) n) 0 = int (n div 10) * 10 + int (n mod 10)"
    by (simp add: dec_value_def uint_digit)
  also have "\<dots> = int (n div 10 * 10 + n mod 10)"
    by (simp only: of_nat_add of_nat_mult of_nat_numeral)
  finally show ?case by (simp only: div_mult_mod_eq)
qed

lemma parse_digits_ok:
  assumes "p + n \<le> length buf" "\<forall>b \<in> set (take n (drop p buf)). 48 \<le> b \<and> b \<le> 57"
  shows "parse_digits buf p n r = yields (dec_value (take n (drop p buf)) r) (p + n)"
  using assms
proof (induction n arbitrary: p r)
  case 0
  then show ?case by (simp add: dec_value_def)
next
  case (Suc n)
  have p: "p < length buf" using Suc.prems(1) by simp
  with Suc.prems(2) have b: "\<not> (buf ! p < 48 \<or> 57 < buf ! p)"
      "\<forall>b \<in> set (take n (drop (Suc p) buf)). 48 \<le> b \<and> b \<le> 57"
    by (auto simp: take_drop_Suc)
  show ?case using Suc.IH [of "Suc p"] Suc.prems(1) b p
    by (simp add: take_drop_Suc dec_value_def)
qed

lemma x509_parse_int_dec:
  assumes "take w (drop p buf) = dec_bytes w n" "n < 10 ^ w"
  shows "x509_parse_int buf p w = yields (int n) (p + w)"
proof (cases "w = 0")
  case True
  with assms(2) show ?thesis by (simp add: x509_parse_int_def)
next
  case False
  have "length (take w (drop p buf)) = w" using assms(1) by simp
  with False have "p + w \<le> length buf" by simp
  with assms dec_bytes_digits show ?thesis
    by (simp add: x509_parse_int_def parse_digits_ok dec_value_dec_bytes)
qed

lemma skip_fraction_eq:
  "p + n \<le> length buf \<Longrightarrow> \<exists>q m. skip_fraction buf p n = Inr (q, m) \<and> q + m = p + n"
proof (induction n arbitrary: p)
  case (Suc n)
  then have "\<exists>q m. skip_fraction buf (p + 1) n = Inr (q, m) \<and> q + m = p + Suc n"
    using Suc.IH [of "p + 1"] by simp
  with Suc.prems show ?case by auto
qed simp

lemma skip_zone_eq: "p + n \<le> length buf \<Longrightarrow> skip_zone buf p n = Inr (p + n)"
  by (auto simp: skip_zone_def)

lemma parse_seconds_dec:
  assumes "take 2 (drop p buf) = dec_bytes 2 n" "n < 100" "p + len \<le> length buf" "2 \<le> len"
  shows "\<exists>q m. parse_seconds buf p len old = yields (int n, m) q \<and> q + m = p + len"
proof -
  have "x509_parse_int buf p 2 = yields (int n) (p + 2)"
    using assms(1,2) by (intro x509_parse_int_dec) simp_all
  moreover obtain q m where "len - 2 \<noteq> 0 \<Longrightarrow> skip_fraction buf (p + 2 + 1) (len - 2 - 1) = Inr (q, m)"
      "len - 2 \<noteq> 0 \<Longrightarrow> q + m = p + len"
    using skip_fraction_eq [of "p + 2 + 1" "len - 2 - 1" buf] assms(3,4)
    by (cases "len = 2") force+
  ultimately show ?thesis using assms(3,4) by (auto simp: parse_seconds_def Let_def)
qed

definition time_text :: "nat \<Rightarrow> nat \<Rightarrow> nat \<Rightarrow> nat \<Rightarrow> nat \<Rightarrow> nat \<Rightarrow> u8 list" where
  "time_text y mon d h mi sec = dec_bytes 4 y @ dec_bytes 2 mon @ dec_bytes 2 d @ dec_bytes 2 h
     @ dec_bytes 2 mi @ dec_bytes 2 sec"

lemma drop_pre: "buf = pre @ rest \<Longrightarrow> length pre = k \<Longrightarrow> drop k buf = rest"
  by simp

text \<open>
  A time stamp written as \<open>YYYYMMDDhhmmss\<close> followed by anything (a fraction, a zone, nothing) is
  read back as it was written, and the rest of it is skipped. No field is checked: the round trip
  holds for a month of 99.
\<close>

theorem x509_parse_time_written:
  assumes "y < 10000" "mon < 100" "d < 100" "h < 100" "mi < 100" "sec < 100"
    and "buf = pre @ time_text y mon d h mi sec @ tail @ post"
  shows "x509_parse_time buf (length pre) (14 + length tail) 4 tm =
    yields \<lparr>tm_year = int y, tm_mon = int mon, tm_day = int d, tm_hour = int h, tm_min = int mi,
            tm_sec = int sec\<rparr> (length pre + 14 + length tail)"
proof -
  let ?p = "length pre"
  have f: "x509_parse_int buf ?p 4 = yields (int y) (?p + 4)"
      "x509_parse_int buf (?p + 4) 2 = yields (int mon) (?p + 4 + 2)"
      "x509_parse_int buf (?p + 4 + 2) 2 = yields (int d) (?p + 4 + 2 + 2)"
      "x509_parse_int buf (?p + 4 + 2 + 2) 2 = yields (int h) (?p + 4 + 2 + 2 + 2)"
      "x509_parse_int buf (?p + 4 + 2 + 2 + 2) 2 = yields (int mi) (?p + 4 + 2 + 2 + 2 + 2)"
    using assms by (intro x509_parse_int_dec; simp add: time_text_def)+
  let ?q = "?p + 4 + 2 + 2 + 2 + 2"
  have l: "?q + (2 + length tail) \<le> length buf" using assms(7) by (simp add: time_text_def)
  obtain q m where s: "parse_seconds buf ?q (2 + length tail) (tm_sec tm) = yields (int sec, m) q"
      "q + m = ?q + (2 + length tail)"
    using parse_seconds_dec [of ?q buf sec "2 + length tail" "tm_sec tm"] assms l
    by (auto simp: time_text_def)
  have "skip_zone buf q m = Inr (q + m)" using l s(2) by (intro skip_zone_eq) simp
  moreover have "14 + length tail - (4 + 8) = 2 + length tail" by simp
  ultimately show ?thesis using s f by (simp add: x509_parse_time_def Let_def)
qed

subsection \<open>Algorithm identifiers\<close>

lemma algorithm_cases:
  assumes "tag_spec lib buf" "e \<le> length buf"
  obtains "mbedtls_asn1_get_algorithm_itentifier lib buf p e = Inl AssertFailed"
  | a q where "mbedtls_asn1_get_algorithm_itentifier lib buf p e = yields a q" "p < q" "q \<le> e"
proof -
  obtain ret p' n' where t: "al_get_tag lib buf p e 0 ASN1_OID = Inr (ret, p', n')"
      "ret = 0 \<Longrightarrow> p < p' \<and> p' + n' \<le> e \<and> buf ! p = ASN1_OID"
    using tag_specD [OF assms] by metis
  show thesis
  proof (cases "ret = 0")
    case True
    with t that(2) show thesis by (simp add: mbedtls_asn1_get_algorithm_itentifier_def Let_def)
  next
    case False
    with t(1) that(1) show thesis by (simp add: mbedtls_asn1_get_algorithm_itentifier_def)
  qed
qed

lemma algorithms_loop_cases:
  assumes "tag_spec lib buf" "e \<le> length buf" "p \<le> e" "ep \<le> e" "ep - p < k"
  shows "algorithms_loop lib buf e ep k p len alg = Inl AssertFailed \<or>
    (\<exists>a q. algorithms_loop lib buf e ep k p len alg = yields a q \<and> p \<le> q \<and> q \<le> e)"
  using assms(3,5)
proof (induction k arbitrary: p len alg)
  case 0
  then show ?case by simp
next
  case (Suc k)
  show ?case
  proof (cases "p < ep")
    case False
    with Suc.prems show ?thesis by auto
  next
    case True
    obtain ret p' n' where t: "al_get_tag lib buf p e len ASN1_NULL = Inr (ret, p', n')"
        "p < e \<Longrightarrow> p \<le> p' \<and> p' \<le> e"
      using tag_specD [OF assms(1,2)] by metis
    with True assms(4) have b: "p \<le> p'" "p' \<le> e" by simp_all
    show ?thesis
    proof (cases "ret = 0")
      case True
      with t(1) b \<open>p < ep\<close> show ?thesis by auto
    next
      case False
      consider "mbedtls_asn1_get_algorithm_itentifier lib buf p' e = Inl AssertFailed"
        | a q where "mbedtls_asn1_get_algorithm_itentifier lib buf p' e = yields a q" "p' < q" "q \<le> e"
        using algorithm_cases [OF assms(1,2)] by blast
      then show ?thesis
      proof cases
        case 1
        with t(1) False \<open>p < ep\<close> show ?thesis by simp
      next
        case 2
        then have "ep - q < k" using b(1) Suc.prems(2) \<open>p < ep\<close> by linarith
        from Suc.IH [OF 2(3) this, of n' "if a \<noteq> - 1 then a else alg"] 2 b t(1) False \<open>p < ep\<close>
        show ?thesis by (auto split del: if_split simp: if_not_P if_P)
      qed
    qed
  qed
qed

lemma algorithm_identifiers_bounds:
  assumes "tag_spec lib buf" "e \<le> length buf"
  shows "mbedtls_asn1_get_algorithm_itentifiers lib buf p e = Inl AssertFailed \<or>
    (\<exists>alg q. mbedtls_asn1_get_algorithm_itentifiers lib buf p e = yields alg q \<and> p < q \<and> q \<le> e)"
proof -
  obtain ret p' n' where t: "al_get_tag lib buf p e 0 ASN1_SEQUENCE = Inr (ret, p', n')"
      "ret = 0 \<Longrightarrow> p < p' \<and> p' + n' \<le> e \<and> buf ! p = ASN1_SEQUENCE"
    using tag_specD [OF assms] by metis
  show ?thesis
  proof (cases "ret = 0")
    case False
    with t(1) show ?thesis by (simp add: mbedtls_asn1_get_algorithm_itentifiers_def)
  next
    case True
    with t(2) have b: "p < p'" "p < p' + n'" "p' + n' \<le> e" by simp_all
    let ?L = "algorithms_loop lib buf e (p' + n') (Suc (p' + n' - p')) p' n' (- 1)"
    have r: "mbedtls_asn1_get_algorithm_itentifiers lib buf p e =
        on_parse ?L fails (\<lambda>alg q. asserts (p' + n' = q) (yields alg q))"
      using True t(1) by (simp add: mbedtls_asn1_get_algorithm_itentifiers_def Let_def del: algorithms_loop.simps)
    have "?L = Inl AssertFailed \<or> (\<exists>a q. ?L = yields a q \<and> p' \<le> q \<and> q \<le> e)"
      using b assms by (intro algorithms_loop_cases) simp_all
    then show ?thesis
    proof (elim disjE exE conjE)
      fix a q assume q: "?L = yields a q" "p' \<le> q" "q \<le> e"
      with b r show ?thesis by (cases "p' + n' = q") (simp_all del: algorithms_loop.simps)
    qed (simp add: r del: algorithms_loop.simps)
  qed
qed

text \<open>
  Reading algorithm identifiers ends, stays inside the area and never reports an error: either
  every byte of the sequence was taken, or an assertion stops the program. Malformed input thus
  reaches \<open>assert(0)\<close> where the code means to return an error.
\<close>

theorem algorithm_identifiers_total:
  assumes "tag_spec lib buf" "e \<le> length buf"
  shows "mbedtls_asn1_get_algorithm_itentifiers lib buf p e = Inl AssertFailed \<or>
    (\<exists>alg q. mbedtls_asn1_get_algorithm_itentifiers lib buf p e = yields alg q \<and> p < q \<and> q \<le> e)"
  using algorithm_identifiers_bounds [OF assms] .

subsection \<open>Certificates\<close>

text \<open>A parsed certificate keeps the bytes it was parsed from.\<close>

definition crt_spec :: "'c asn1_lib \<Rightarrow> bool" where
  "crt_spec lib \<longleftrightarrow>
     (\<forall>bs c. al_crt_parse_der lib bs = Some c \<longrightarrow> (\<exists>rest. bs = al_crt_raw lib c @ rest \<and> al_crt_raw lib c \<noteq> []))"

definition node_raw :: "'c asn1_lib \<Rightarrow> 'c option \<Rightarrow> u8 list" where
  "node_raw lib c = (case c of None \<Rightarrow> [] | Some c \<Rightarrow> al_crt_raw lib c)"

definition chain_raw :: "'c asn1_lib \<Rightarrow> 'c option list \<Rightarrow> u8 list" where
  "chain_raw lib chain = concat (map (node_raw lib) chain)"

lemma chain_raw_add_crt: "chain_raw lib (add_crt chain c) = chain_raw lib chain @ al_crt_raw lib c"
  by (simp add: add_crt_def chain_raw_def node_raw_def)

lemma certificate_loop_eq:
  assumes "crt_spec lib" "p + len \<le> length buf" "len < k"
  shows "\<exists>chain' q. certificate_loop lib buf k p len chain = yields chain' q \<and> p \<le> q \<and> q \<le> p + len \<and>
    chain_raw lib chain' = chain_raw lib chain @ take (q - p) (drop p buf)"
  using assms(2,3)
proof (induction k arbitrary: p len chain)
  case 0
  then show ?case by simp
next
  case (Suc k)
  show ?case
  proof (cases "al_crt_parse_der lib (take len (drop p buf))")
    case None
    then show ?thesis by auto
  next
    case (Some c)
    let ?r = "al_crt_raw lib c"
    obtain rest where r: "take len (drop p buf) = ?r @ rest" "?r \<noteq> []"
      using assms(1) Some unfolding crt_spec_def by blast
    have l: "length ?r + length rest = len"
      using arg_cong [OF r(1), of length] Suc.prems(1) by simp
    have t: "take (length ?r) (drop p buf) = ?r"
      using arg_cong [OF r(1), of "take (length ?r)"] l by (simp add: min_def)
    have n: "len - length ?r < k" "p + length ?r + (len - length ?r) \<le> length buf"
      using r(2) l Suc.prems by (auto simp flip: length_greater_0_conv)
    obtain chain' q where i: "certificate_loop lib buf k (p + length ?r) (len - length ?r) (add_crt chain c)
        = yields chain' q" "p + length ?r \<le> q" "q \<le> p + length ?r + (len - length ?r)"
      "chain_raw lib chain' = chain_raw lib (add_crt chain c) @
         take (q - (p + length ?r)) (drop (p + length ?r) buf)"
      using Suc.IH [OF n(2,1)] by blast
    have "take (q - p) (drop p buf) = ?r @ take (q - (p + length ?r)) (drop (p + length ?r) buf)"
      using i(2) t take_add [of "length ?r" "q - (p + length ?r)" "drop p buf"]
      by (simp add: add.commute)
    with i Some l show ?thesis by (auto simp: chain_raw_add_crt)
  qed
qed

text \<open>
  The certificates of a reply: the loop over them ends, and when it returns, the chain holds
  them in the order of the reply - the raw bytes of its nodes are exactly the bytes of the area, no
  byte left over. An area with anything else in it stops the program by an assertion.
\<close>

theorem certificate_set_complete:
  assumes "crt_spec lib" "p \<le> e" "e \<le> length buf" "al_calloc_crt lib"
  shows "mbedtls_asn1_get_certificate_set lib buf p e [] = Inl AssertFailed \<or>
    (\<exists>chain. mbedtls_asn1_get_certificate_set lib buf p e [] = yields chain e \<and>
       chain_raw lib chain = take (e - p) (drop p buf))"
proof -
  obtain chain' q where "certificate_loop lib buf (Suc (e - p)) p (e - p) [None] = yields chain' q"
    "q \<le> p + (e - p)" "chain_raw lib chain' = chain_raw lib [None] @ take (q - p) (drop p buf)"
    using certificate_loop_eq [OF assms(1), of p "e - p" buf "Suc (e - p)" "[None]"] assms(2,3) by auto
  with assms(4) show ?thesis
    by (cases "e = q")
      (auto simp: mbedtls_asn1_get_certificate_set_def chain_raw_def node_raw_def
        simp del: certificate_loop.simps)
qed

subsection \<open>Fingerprints\<close>

text \<open>The memory and the position after the text \<open>t\<close> was written with room for \<open>n\<close> bytes of it.\<close>

definition shown :: "u8 list \<Rightarrow> nat \<Rightarrow> u8 list \<Rightarrow> u8 list \<times> nat" where
  "shown mem n t = (take n t @ drop (min n (length t)) mem, min n (length t))"

lemma shown_Nil: "shown mem n [] = (mem, 0)"
  by (simp add: shown_def)

lemma put_min_shown:
  "n \<le> length mem \<Longrightarrow> shown mem n t = (m, p) \<Longrightarrow> put_min m p (int n) bs = Inr (shown mem n (t @ bs))"
  by (cases "length t < n"; cases "n = length t + length bs")
    (auto simp: shown_def put_min_def put_bytes_def min_room_def min_def nat_diff_distrib add.commute)

lemma put_if_shown:
  "n \<le> length mem \<Longrightarrow> shown mem n t = (m, p) \<Longrightarrow> put_if m p (int n) b = Inr (shown mem n (t @ [b]))"
  by (cases "length t < n"; cases "n = Suc (length t)") (auto simp: shown_def put_if_def put_bytes_def min_def)

fun hex_text :: "u8 list \<Rightarrow> u8 list" where
  "hex_text [] = []"
| "hex_text (b # bs) = [hex_char (drop_bit 4 b), hex_char (and b 0xF)] @
     (if bs = [] then [] else 58 # hex_text bs)"

lemma fingerprint_loop_shown:
  assumes "n \<le> length mem" "shown mem n t = (m, p)"
  shows "fingerprint_loop m p (int n) bs = Inr (shown mem n (t @ hex_text bs))"
  using assms(2)
proof (induction bs arbitrary: t m p)
  case Nil
  then show ?case by simp
next
  case (Cons b bs)
  let ?t1 = "t @ [hex_char (drop_bit 4 b)]" let ?t2 = "?t1 @ [hex_char (and b 0xF)]"
  obtain m1 p1 where s1: "shown mem n ?t1 = (m1, p1)" by fastforce
  obtain m2 p2 where s2: "shown mem n ?t2 = (m2, p2)" by fastforce
  obtain m3 p3 where s3: "shown mem n (?t2 @ [58]) = (m3, p3)" by fastforce
  note w = put_if_shown [OF assms(1) Cons.prems] put_if_shown [OF assms(1) s1] put_if_shown [OF assms(1) s2]
  show ?case
  proof (cases bs)
    case Nil
    with w s1 s2 s3 show ?thesis by simp
  next
    case (Cons a as)
    with w s1 s2 s3 Cons.IH [OF s3] show ?thesis by simp
  qed
qed

definition fprint_text :: "'c asn1_lib \<Rightarrow> u8 list option \<Rightarrow> nat \<Rightarrow> u8 list \<Rightarrow> u8 list" where
  "fprint_text lib prefix mdt output =
     (case prefix of None \<Rightarrow> [] | Some s \<Rightarrow> s) @ al_md_name lib mdt @ FINGERPRINT @ hex_text output"

definition fprint_result :: "nat \<Rightarrow> u8 list \<Rightarrow> u8 list" where
  "fprint_result len t = (if length t < len - 4 then t else take (len - 4) t @ [46, 46, 46]) @ [0]"

text \<open>
  A fingerprint is printed as prefix, digest name, \<open> fingerprint: \<close> and the digest in hexadecimal
  with colons, ended by a zero, cut to the buffer with three dots; in a buffer of at least four
  bytes nothing is written outside it.
\<close>

theorem crt_fprint_writes:
  assumes "4 \<le> len" "len \<le> length mem"
  shows "fprint_put lib mem len prefix mdt output =
    (let out = fprint_result len (fprint_text lib prefix mdt output)
     in Inr (Some (length out), out @ drop (length out) mem)) \<and>
    length (fprint_result len (fprint_text lib prefix mdt output)) \<le> len"
proof -
  let ?n = "len - 4" and ?t = "fprint_text lib prefix mdt output"
  let ?pre = "case prefix of None \<Rightarrow> [] | Some s \<Rightarrow> s"
  have n: "?n \<le> length mem" and e: "int len - 4 = int ?n" using assms by simp_all
  obtain m1 p1 where s1: "shown mem ?n ?pre = (m1, p1)" by fastforce
  obtain m2 p2 where s2: "shown mem ?n (?pre @ al_md_name lib mdt) = (m2, p2)" by fastforce
  obtain m3 p3 where s3: "shown mem ?n ((?pre @ al_md_name lib mdt) @ FINGERPRINT) = (m3, p3)" by fastforce
  obtain m4 p4 where s4: "shown mem ?n ?t = (m4, p4)" by fastforce
  have w1: "(case prefix of None \<Rightarrow> Inr (mem, 0) | Some s \<Rightarrow> put_min mem 0 (int ?n) s) = Inr (m1, p1)"
    using put_min_shown [OF n shown_Nil] s1 by (auto simp: shown_Nil split: option.split)
  have w4: "fingerprint_loop m3 p3 (int ?n) output = Inr (m4, p4)"
    using fingerprint_loop_shown [OF n s3, where bs = "output"] s4 by (simp add: fprint_text_def)
  have m4: "m4 = take ?n ?t @ drop (min ?n (length ?t)) mem" and p4: "p4 = min ?n (length ?t)"
    using s4 by (auto simp: shown_def)
  have "fprint_put lib mem len prefix mdt output =
      bind_res (if p4 = ?n then put_bytes m4 p4 [46, 46, 46] else Inr (m4, p4)) (\<lambda>(mem, p).
      bind_res (put_bytes mem p [0]) (\<lambda>(mem, p). Inr (Some p, mem)))"
    using w1 put_min_shown [OF n s1] s2 put_min_shown [OF n s2] s3 w4
    by (simp add: fprint_put_def Let_def e)
  moreover have "Suc (Suc (Suc (Suc (len - 4)))) = len" using assms(1) by simp
  ultimately show ?thesis using assms
    by (cases "length ?t < ?n") (auto simp: m4 p4 fprint_result_def put_bytes_def Let_def)
qed

text \<open>With fewer than four bytes the limit lies before the buffer and the whole text is written.\<close>

lemma crt_fprint_small_buffer:
  "fprint_put lib (replicate 3 0) 3 None mdt output = Inl OutOfBounds"
  by (simp add: fprint_put_def put_min_def min_room_def put_bytes_def FINGERPRINT_def bind_res_def Let_def)

end
