(* ===== verification/TsSigner.thy ===== *)
theory TsSigner
  imports TsUtils
begin

text \<open>
  \<open>src/lib/Update/src/mbedtls-ts-addons/signer_info.cpp\<close> and \<open>sign.h\<close>: the \<open>SignerInfo\<close> of a time
  stamp reply, that is who signed, over which attributes, and the two digests among them (of the
  signed content and of the signer's certificate).

  The macro \<open>_TS_DEBUG\<close> turns every failed check into \<open>assert(0)\<close>. It is an argument here
  (\<open>dbg\<close>): \<open>x509_ts_utils.h\<close> defines it when \<open>ARDUHAL_LOG_LEVEL >= ARDUHAL_LOG_LEVEL_VERBOSE\<close>, which
  also holds where neither macro is known yet. What it prints is left out.
\<close>

section \<open>Checks\<close>

definition checked :: "bool \<Rightarrow> ts_err \<Rightarrow> nat \<Rightarrow> 'a parsed" where
  "checked dbg e p = (if dbg then Inl AssertFailed else fails e p)"

definition chk_read ::
  "bool \<Rightarrow> fault + int \<times> nat \<times> 'a \<Rightarrow> (nat \<Rightarrow> 'a \<Rightarrow> 'b parsed) \<Rightarrow> 'b parsed" where
  "chk_read dbg r good = on_read r (\<lambda>ret p x. checked dbg (LibErr ret) p) good"

definition chk_parse :: "bool \<Rightarrow> 'a parsed \<Rightarrow> ('a \<Rightarrow> nat \<Rightarrow> 'b parsed) \<Rightarrow> 'b parsed" where
  "chk_parse dbg r good = on_parse r (checked dbg) good"

definition chk_cond :: "bool \<Rightarrow> bool \<Rightarrow> ts_err \<Rightarrow> nat \<Rightarrow> 'b parsed \<Rightarrow> 'b parsed" where
  "chk_cond dbg bad e p good = (if bad then checked dbg e p else good)"

lemma chk_simps [simp]:
  "chk_read dbg (Inl f) good = Inl f"
  "chk_read dbg (Inr (ret, p, y)) good = (if ret = 0 then good p y else checked dbg (LibErr ret) p)"
  "chk_parse dbg (Inl f) good2 = Inl f"
  "chk_parse dbg (fails e p) good2 = checked dbg e p"
  "chk_parse dbg (yields x p) good2 = good2 x p"
  "chk_cond dbg True e p r = checked dbg e p"
  "chk_cond dbg False e p r = r"
  by (simp_all add: chk_read_def chk_parse_def chk_cond_def)

lemma checked_not_yields [simp]: "checked dbg e p \<noteq> yields x q" "yields x q \<noteq> checked dbg e p"
  by (simp_all add: checked_def)

lemma yields_chk_read:
  "chk_read dbg r good = yields x p \<longleftrightarrow> (\<exists>q y. r = Inr (0, q, y) \<and> good q y = yields x p)"
  by (auto simp: chk_read_def yields_on_read split: if_splits)

lemma yields_chk_parse:
  "chk_parse dbg r good = yields x p \<longleftrightarrow> (\<exists>y q. r = yields y q \<and> good y q = yields x p)"
  by (auto simp: chk_parse_def yields_on_parse)

lemma yields_chk_cond:
  "chk_cond dbg bad e q r = yields x p \<longleftrightarrow> \<not> bad \<and> r = yields x p"
  by (cases bad) auto

lemma yields_fails_parse: "on_parse r fails good = yields x p \<longleftrightarrow> (\<exists>y q. r = yields y q \<and> good y q = yields x p)"
  by (auto simp: yields_on_parse)

lemmas yields_chk = yields_asserts yields_need_read yields_bind_res yields_chk_read yields_chk_parse
  yields_chk_cond yields_fails_parse

section \<open>\<open>mbedtls_asn1_ts_pki_signer_info\<close>\<close>

text \<open>Pointers into the reply are indices, \<open>None\<close> for a null pointer.\<close>

record signer_info =
  si_sid_name :: x509_name
  si_sid_serial :: bitstring
  si_sig_digest_type :: int
  si_sig_digest :: "nat option"
  si_sig_digest_len :: nat
  si_sig_type :: int
  si_sig :: "nat option"
  si_sig_len :: nat
  si_signed_attribute_raw :: "nat option"
  si_signed_attribute_len :: nat
  si_signing_cert_hash_len :: nat
  si_signing_cert_hash_type :: int
  si_signing_cert_hash :: "nat option"

definition signer_info_zero :: signer_info where
  "signer_info_zero = \<lparr>si_sid_name = [], si_sid_serial = \<lparr>bs_len = 0, bs_unused_bits = 0, bs_p = 0\<rparr>,
     si_sig_digest_type = 0, si_sig_digest = None, si_sig_digest_len = 0, si_sig_type = 0,
     si_sig = None, si_sig_len = 0, si_signed_attribute_raw = None, si_signed_attribute_len = 0,
     si_signing_cert_hash_len = 0, si_signing_cert_hash_type = 0, si_signing_cert_hash = None\<rparr>"

text \<open>Object identifiers; \<open>OID_PKCS9\<close> is \<open>iso(1) member-body(2) us(840) rsadsi(113549) pkcs(1) 9\<close>.\<close>

definition OID_PKCS :: "u8 list" where "OID_PKCS = [0x2A, 0x86, 0x48, 0x86, 0xF7, 0x0D, 0x01]"
definition OID_PKCS9 :: "u8 list" where "OID_PKCS9 = OID_PKCS @ [0x09]"
definition OID_MESSAGE_DIGEST :: "u8 list" where "OID_MESSAGE_DIGEST = OID_PKCS9 @ [0x04]"
definition OID_SIGNING_CERT :: "u8 list" where "OID_SIGNING_CERT = OID_PKCS9 @ [0x10, 0x02, 0x0C]"
definition OID_SIGNING_CERT_V2 :: "u8 list" where "OID_SIGNING_CERT_V2 = OID_PKCS9 @ [0x10, 0x02, 0x2F]"

section \<open>Signed attributes\<close>

text \<open>
  The value of an attribute, up to \<open>evap\<close>. \<open>len\<close> is the variable of the caller, which is used again
  after the last attribute.
\<close>

definition message_digest_attr ::
  "bool \<Rightarrow> 'c asn1_lib \<Rightarrow> u8 list \<Rightarrow> nat \<Rightarrow> nat \<Rightarrow> nat \<Rightarrow> signer_info \<Rightarrow> (signer_info \<times> nat) parsed" where
  "message_digest_attr dbg lib buf p evap len out =
     chk_cond dbg (si_sig_digest out \<noteq> None) (LibErr 1) p (
     chk_read dbg (al_get_tag lib buf p evap len ASN1_OCTET_STRING) (\<lambda>p len.
       yields (if si_sig_digest_len out < len
               then out\<lparr>si_sig_digest := Some p, si_sig_digest_len := len\<rparr> else out, len) p))"

definition signing_cert_attr ::
  "bool \<Rightarrow> 'c asn1_lib \<Rightarrow> u8 list \<Rightarrow> nat \<Rightarrow> nat \<Rightarrow> nat \<Rightarrow> signer_info \<Rightarrow> (signer_info \<times> nat) parsed" where
  "signing_cert_attr dbg lib buf p evap len out =
     chk_read dbg (al_get_tag lib buf p evap len ASN1_SEQUENCE) (\<lambda>p len.
     chk_read dbg (al_get_tag lib buf p evap len ASN1_SEQUENCE) (\<lambda>p len.
     chk_read dbg (al_get_tag lib buf p evap len ASN1_SEQUENCE) (\<lambda>p len.
     chk_read dbg (al_get_tag lib buf p evap len ASN1_OCTET_STRING) (\<lambda>p len.
       yields (if si_signing_cert_hash_len out < len
               then out\<lparr>si_signing_cert_hash := Some p, si_signing_cert_hash_len := len\<rparr> else out, len) p))))"

definition signing_cert_v2_attr ::
  "bool \<Rightarrow> 'c asn1_lib \<Rightarrow> u8 list \<Rightarrow> nat \<Rightarrow> nat \<Rightarrow> nat \<Rightarrow> signer_info \<Rightarrow> (signer_info \<times> nat) parsed" where
  "signing_cert_v2_attr dbg lib buf p evap len out =
     chk_read dbg (al_get_tag lib buf p evap len ASN1_SEQUENCE) (\<lambda>p len.
     chk_parse dbg (mbedtls_asn1_get_algorithm_itentifiers lib buf p evap) (\<lambda>md_alg p.
     chk_read dbg (al_get_tag lib buf p evap len ASN1_SEQUENCE) (\<lambda>p len.
     chk_read dbg (al_get_tag lib buf p evap len ASN1_OCTET_STRING) (\<lambda>p len.
       yields (out\<lparr>si_signing_cert_hash_type := md_alg, si_signing_cert_hash := Some p,
                   si_signing_cert_hash_len := len\<rparr>, len) p))))"

text \<open>One round of the loop over the attributes, up to \<open>ep\<close>.\<close>

definition signed_attribute ::
  "bool \<Rightarrow> 'c asn1_lib \<Rightarrow> u8 list \<Rightarrow> nat \<Rightarrow> nat \<Rightarrow> nat \<Rightarrow> signer_info \<Rightarrow> (signer_info \<times> nat) parsed" where
  "signed_attribute dbg lib buf p ep len out =
     chk_read dbg (al_get_tag lib buf p ep len ASN1_SEQUENCE) (\<lambda>p len. let eap = p + len in
     chk_read dbg (al_get_tag lib buf p ep len ASN1_OID) (\<lambda>p len.
     let oid = take len (drop p buf); p = p + len in
     chk_read dbg (al_get_tag lib buf p eap len ASN1_SET) (\<lambda>p len. let evap = p + len in
     on_parse
       (if oid = OID_MESSAGE_DIGEST then message_digest_attr dbg lib buf p evap len out
        else if oid = OID_SIGNING_CERT then signing_cert_attr dbg lib buf p evap len out
        else if oid = OID_SIGNING_CERT_V2 then signing_cert_v2_attr dbg lib buf p evap len out
        else yields (out, len) p)
       fails (\<lambda>r p. yields r evap))))"

fun signed_attributes ::
  "bool \<Rightarrow> 'c asn1_lib \<Rightarrow> u8 list \<Rightarrow> nat \<Rightarrow> nat \<Rightarrow> nat \<Rightarrow> nat \<Rightarrow> signer_info \<Rightarrow> (signer_info \<times> nat) parsed" where
  "signed_attributes dbg lib buf ep 0 p len out = Inl NoReturn"
| "signed_attributes dbg lib buf ep (Suc k) p len out =
     (if p < ep then
        on_parse (signed_attribute dbg lib buf p ep len out) fails (\<lambda>(out, len) p.
          signed_attributes dbg lib buf ep k p len out)
      else yields (out, len) p)"

section \<open>\<open>mbedtls_ts_get_signer_info\<close>\<close>

text \<open>
  \<open>sid SignerIdentifier\<close>: version 1 names the issuer, version 3 is not taken care of, and what
  follows is then read as if the identifier were not there.
\<close>

definition signer_sid ::
  "bool \<Rightarrow> 'c asn1_lib \<Rightarrow> u8 list \<Rightarrow> nat \<Rightarrow> nat \<Rightarrow> nat \<Rightarrow> int \<Rightarrow> signer_info \<Rightarrow> (signer_info \<times> nat) parsed" where
  "signer_sid dbg lib buf p e len sigVersion out =
     (if sigVersion = 1 then
        chk_read dbg (al_get_tag lib buf p e len ASN1_SEQUENCE) (\<lambda>p len.
        chk_read dbg (al_get_tag lib buf p e len ASN1_SEQUENCE) (\<lambda>p len.
        chk_read dbg (al_get_name lib buf p (p + len)) (\<lambda>p name.
        chk_parse dbg (mbedtls_asn1_get_serial_bitstring lib buf p e) (\<lambda>serial p.
          yields (out\<lparr>si_sid_name := name, si_sid_serial := serial\<rparr>, len) p))))
      else if sigVersion = 3 then yields (out, len) p
      else fails TS_REPLY_INVALID_FORMAT p)"

text \<open>The optional signed attributes: \<open>sap\<close> is where their tag is.\<close>

definition signer_attrs ::
  "bool \<Rightarrow> 'c asn1_lib \<Rightarrow> u8 list \<Rightarrow> nat \<Rightarrow> nat \<Rightarrow> nat \<Rightarrow> signer_info \<Rightarrow> (signer_info \<times> nat) parsed" where
  "signer_attrs dbg lib buf sap e len out =
     on_read (al_get_tag lib buf sap e len ASN1_CONTEXT)
       (\<lambda>ret p len. yields (out, len) p)
       (\<lambda>p len.
         signed_attributes dbg lib buf (p + len) (Suc len) p len
           (out\<lparr>si_signed_attribute_len := len + p - sap, si_signed_attribute_raw := Some sap\<rparr>))"

definition mbedtls_ts_get_signer_info ::
  "bool \<Rightarrow> 'c asn1_lib \<Rightarrow> u8 list \<Rightarrow> nat \<Rightarrow> nat \<Rightarrow> signer_info parsed" where
  "mbedtls_ts_get_signer_info dbg lib buf p e =
     chk_read dbg (al_get_tag lib buf p e 0 ASN1_SEQUENCE) (\<lambda>p len. let eap = p + len in
     chk_read dbg (al_get_int lib buf p e) (\<lambda>p sigVersion.
     on_parse (signer_sid dbg lib buf p e len sigVersion signer_info_zero) fails (\<lambda>(out, len) p.
     chk_parse dbg (mbedtls_asn1_get_algorithm_itentifiers lib buf p (p + len)) (\<lambda>digest_type p.
     on_parse (signer_attrs dbg lib buf p e len
         (out\<lparr>si_sig_digest_type := digest_type, si_signing_cert_hash_type := int MD_SHA1\<rparr>)) fails
       (\<lambda>(out, len) p.
     chk_parse dbg (mbedtls_asn1_get_algorithm_itentifiers lib buf p (p + len)) (\<lambda>sig_type p.
     chk_read dbg (al_get_tag lib buf p e len ASN1_OCTET_STRING) (\<lambda>p len.
       yields (out\<lparr>si_sig_type := sig_type, si_sig := Some p, si_sig_len := len\<rparr>) eap)))))))"

section \<open>Regular results\<close>

text \<open>
  A result that is a value with \<open>P\<close>, a reported error or a failed assertion: the program neither
  leaves the buffer nor loops forever. One rule per construct of the parsers.
\<close>

definition regular :: "('a \<Rightarrow> nat \<Rightarrow> bool) \<Rightarrow> 'a parsed \<Rightarrow> bool" where
  "regular P r \<longleftrightarrow> r = Inl AssertFailed \<or> (\<exists>e q. r = fails e q) \<or> (\<exists>x q. r = yields x q \<and> P x q)"

named_theorems regular_intros \<open>results without a fault\<close>

lemma regular_simps [simp]:
  "regular P (Inl AssertFailed)" "regular P (fails e q)" "regular P (checked dbg e q)"
  "regular P (yields x q) = P x q"
  by (auto simp: regular_def checked_def)

lemma regular_get_tag [regular_intros]:
  assumes "tag_spec lib buf" "e \<le> length buf"
    and "\<And>q m. p < q \<Longrightarrow> q + m \<le> e \<Longrightarrow> buf ! p = t \<Longrightarrow> regular P (good q m)"
  shows "regular P (chk_read dbg (al_get_tag lib buf p e n t) good)"
proof -
  obtain ret q m where t: "al_get_tag lib buf p e n t = Inr (ret, q, m)"
      "ret = 0 \<Longrightarrow> p < q \<and> q + m \<le> e \<and> buf ! p = t"
    using tag_specD [OF assms(1,2)] by metis
  then show ?thesis using assms(3) by simp
qed

lemma regular_on_parse [regular_intros]:
  assumes "regular Q r" "\<And>x q. Q x q \<Longrightarrow> regular P (good x q)"
  shows "regular P (on_parse r fails good)"
  using assms by (auto simp: regular_def [of Q])

lemma regular_chk_parse [regular_intros]:
  assumes "regular Q r" "\<And>x q. Q x q \<Longrightarrow> regular P (good x q)"
  shows "regular P (chk_parse dbg r good)"
  using assms by (auto simp: regular_def [of Q])

lemma regular_chk_cond [regular_intros]:
  "(\<not> bad \<Longrightarrow> regular P r) \<Longrightarrow> regular P (chk_cond dbg bad e p r)"
  by (cases bad) auto

lemma regular_if [regular_intros]:
  "(b \<Longrightarrow> regular P r) \<Longrightarrow> (\<not> b \<Longrightarrow> regular P s) \<Longrightarrow> regular P (if b then r else s)"
  by simp

lemma regular_mono: "regular Q r \<Longrightarrow> (\<And>x q. Q x q \<Longrightarrow> P x q) \<Longrightarrow> regular P r"
  by (auto simp: regular_def)

lemma regular_no_fault: "regular P r \<Longrightarrow> r \<noteq> Inl OutOfBounds \<and> r \<noteq> Inl NoReturn"
  by (auto simp: regular_def)

lemma regular_yields: "regular P r \<Longrightarrow> r = yields x q \<Longrightarrow> P x q"
  by (auto simp: regular_def)

lemma regular_algorithms:
  assumes "tag_spec lib buf" "e \<le> length buf"
  shows "regular (\<lambda>a q. p < q \<and> q \<le> e) (mbedtls_asn1_get_algorithm_itentifiers lib buf p e)"
  using algorithm_identifiers_bounds [OF assms] by (auto simp: regular_def)

text \<open>The digests found so far lie before \<open>e\<close>.\<close>

definition si_within :: "nat \<Rightarrow> signer_info \<Rightarrow> bool" where
  "si_within e s \<longleftrightarrow>
     (\<forall>i. si_sig_digest s = Some i \<longrightarrow> i + si_sig_digest_len s \<le> e) \<and>
     (\<forall>i. si_signing_cert_hash s = Some i \<longrightarrow> i + si_signing_cert_hash_len s \<le> e)"

lemma si_within_frame [simp]:
  "si_within e (s\<lparr>si_signed_attribute_len := n, si_signed_attribute_raw := r\<rparr>) = si_within e s"
  "si_within e (s\<lparr>si_sig_digest_type := t, si_signing_cert_hash_type := u\<rparr>) = si_within e s"
  "si_within e (s\<lparr>si_sig_type := t, si_sig := g, si_sig_len := n\<rparr>) = si_within e s"
  "si_within e (s\<lparr>si_sid_name := nm, si_sid_serial := b\<rparr>) = si_within e s"
  "si_within e signer_info_zero"
  by (simp_all add: si_within_def signer_info_zero_def)

lemma si_within_mono: "si_within e s \<Longrightarrow> e \<le> e' \<Longrightarrow> si_within e' s"
  by (auto simp: si_within_def)

lemma regular_attr_values:
  assumes "tag_spec lib buf" "evap \<le> ep" "ep \<le> length buf" "si_within ep out"
  shows "regular (\<lambda>(o', n) q. si_within ep o') (message_digest_attr dbg lib buf p evap len out)"
    and "regular (\<lambda>(o', n) q. si_within ep o') (signing_cert_attr dbg lib buf p evap len out)"
    and "regular (\<lambda>(o', n) q. si_within ep o') (signing_cert_v2_attr dbg lib buf p evap len out)"
proof -
  from assms(2,3) have e: "evap \<le> length buf" by simp
  note i = regular_get_tag [OF assms(1) e]
  show "regular (\<lambda>(o', n) q. si_within ep o') (message_digest_attr dbg lib buf p evap len out)"
    unfolding message_digest_attr_def
    by (intro regular_chk_cond i) (use assms(2,4) in \<open>auto simp: si_within_def\<close>)
  show "regular (\<lambda>(o', n) q. si_within ep o') (signing_cert_attr dbg lib buf p evap len out)"
    unfolding signing_cert_attr_def
    by (intro i) (use assms(2,4) in \<open>auto simp: si_within_def\<close>)
  show "regular (\<lambda>(o', n) q. si_within ep o') (signing_cert_v2_attr dbg lib buf p evap len out)"
    unfolding signing_cert_v2_attr_def
    by (intro i regular_chk_parse [OF regular_algorithms [OF assms(1) e]])
      (use assms(2,4) in \<open>auto simp: si_within_def\<close>)
qed

lemma regular_signed_attribute:
  assumes "tag_spec lib buf" "ep \<le> length buf" "si_within ep out"
  shows "regular (\<lambda>(o', n) q. p < q \<and> si_within ep o') (signed_attribute dbg lib buf p ep len out)"
  unfolding signed_attribute_def Let_def
proof (intro regular_get_tag [OF assms(1,2)])
  fix p1 n1 p2 n2
  assume 1: "p < p1" "p1 + n1 \<le> ep" and 2: "p1 < p2" "p2 + n2 \<le> ep"
  let ?oid = "take n2 (drop p2 buf)"
  have e: "p1 + n1 \<le> length buf" using 1 assms(2) by simp
  show "regular (\<lambda>(o', n) q. p < q \<and> si_within ep o')
     (chk_read dbg (al_get_tag lib buf (p2 + n2) (p1 + n1) n2 ASN1_SET) (\<lambda>p3 n3. on_parse
       (if ?oid = OID_MESSAGE_DIGEST then message_digest_attr dbg lib buf p3 (p3 + n3) n3 out
        else if ?oid = OID_SIGNING_CERT then signing_cert_attr dbg lib buf p3 (p3 + n3) n3 out
        else if ?oid = OID_SIGNING_CERT_V2 then signing_cert_v2_attr dbg lib buf p3 (p3 + n3) n3 out
        else yields (out, n3) p3)
       fails (\<lambda>r q. yields r (p3 + n3))))"
  proof (rule regular_get_tag [OF assms(1) e])
    fix p3 n3 assume 3: "p2 + n2 < p3" "p3 + n3 \<le> p1 + n1"
    with 1 have v: "p3 + n3 \<le> ep" by simp
    have "regular (\<lambda>(o', n) q. si_within ep o')
       (if ?oid = OID_MESSAGE_DIGEST then message_digest_attr dbg lib buf p3 (p3 + n3) n3 out
        else if ?oid = OID_SIGNING_CERT then signing_cert_attr dbg lib buf p3 (p3 + n3) n3 out
        else if ?oid = OID_SIGNING_CERT_V2 then signing_cert_v2_attr dbg lib buf p3 (p3 + n3) n3 out
        else yields (out, n3) p3)"
      using assms(3) by (intro regular_if regular_attr_values [OF assms(1) v assms(2,3)]) simp
    then show "regular (\<lambda>(o', n) q. p < q \<and> si_within ep o') (on_parse
       (if ?oid = OID_MESSAGE_DIGEST then message_digest_attr dbg lib buf p3 (p3 + n3) n3 out
        else if ?oid = OID_SIGNING_CERT then signing_cert_attr dbg lib buf p3 (p3 + n3) n3 out
        else if ?oid = OID_SIGNING_CERT_V2 then signing_cert_v2_attr dbg lib buf p3 (p3 + n3) n3 out
        else yields (out, n3) p3)
       fails (\<lambda>r q. yields r (p3 + n3)))"
      by (rule regular_on_parse) (use 1 2 3 in auto)
  qed
qed

lemma regular_signed_attributes:
  assumes "tag_spec lib buf" "ep \<le> length buf" "si_within ep out" "ep - p < k"
  shows "regular (\<lambda>(o', n) q. ep \<le> q \<and> si_within ep o') (signed_attributes dbg lib buf ep k p len out)"
  using assms(3,4)
proof (induction k arbitrary: p len out)
  case 0
  then show ?case by simp
next
  case (Suc k)
  show ?case
  proof (cases "p < ep")
    case False
    with Suc.prems show ?thesis by simp
  next
    case True
    have "regular (\<lambda>(o', n) q. ep \<le> q \<and> si_within ep o')
       (on_parse (signed_attribute dbg lib buf p ep len out) fails
         (\<lambda>(out, len) p. signed_attributes dbg lib buf ep k p len out))"
      using Suc.IH Suc.prems(2) True
      by (intro regular_on_parse [OF regular_signed_attribute [OF assms(1,2) Suc.prems(1)]]) auto
    with True show ?thesis by simp
  qed
qed

text \<open>
  C16. Reading the signed attributes ends and stays inside the reply, whatever the bytes are: the loop
  takes every attribute, or an error is reported, or an assertion fails; and the message digest and
  the certificate hash that were found lie inside the attributes.
\<close>

theorem signed_attributes_total:
  assumes "tag_spec lib buf" "p + len \<le> length buf" "si_sig_digest out = None" "si_signing_cert_hash out = None"
  shows "regular (\<lambda>(o', n) q. p + len \<le> q \<and> si_within (p + len) o')
    (signed_attributes dbg lib buf (p + len) (Suc len) p len out)"
  using assms by (intro regular_signed_attributes) (simp_all add: si_within_def)

text \<open>What the code relies on for optional elements: a tag that does not match moves nothing.\<close>

definition mismatch_spec :: "'c asn1_lib \<Rightarrow> u8 list \<Rightarrow> bool" where
  "mismatch_spec lib buf \<longleftrightarrow>
     (\<forall>p e n t. p < length buf \<longrightarrow> buf ! p \<noteq> t \<longrightarrow>
        (\<exists>ret. ret \<noteq> 0 \<and> al_get_tag lib buf p e n t = Inr (ret, p, n)))"

lemma algorithms_not_oid:
  assumes "mismatch_spec lib buf" "al_get_tag lib buf p e 0 ASN1_SEQUENCE = Inr (0, q, n)"
    and "0 < n" "q < length buf" "buf ! q = ASN1_SEQUENCE"
  shows "mbedtls_asn1_get_algorithm_itentifiers lib buf p e = Inl AssertFailed"
proof -
  have "buf ! q \<noteq> ASN1_NULL" "buf ! q \<noteq> ASN1_OID"
    using assms(5) by (simp_all add: ASN1_SEQUENCE_def ASN1_NULL_def ASN1_OID_def)
  with assms(1,4) obtain r1 r2 where
    "r1 \<noteq> 0 \<and> al_get_tag lib buf q e n ASN1_NULL = Inr (r1, q, n)"
    "r2 \<noteq> 0 \<and> al_get_tag lib buf q e 0 ASN1_OID = Inr (r2, q, 0)"
    unfolding mismatch_spec_def by metis
  with assms(2,3) show ?thesis
    by (simp add: mbedtls_asn1_get_algorithm_itentifiers_def mbedtls_asn1_get_algorithm_itentifier_def Let_def)
qed

text \<open>
  C15. A \<open>SigningCertificateV2\<close> attribute, built as RFC 5035 says (a sequence of \<open>ESSCertIDv2\<close>
  sequences), stops the program: the code takes the sequence of certificates for the hash
  algorithm, and finds a sequence where an object identifier has to be.
\<close>

theorem signing_cert_v2_asserts:
  assumes "mismatch_spec lib buf"
    and "al_get_tag lib buf p evap len ASN1_SEQUENCE = Inr (0, p1, n1)"
    and "al_get_tag lib buf p1 evap 0 ASN1_SEQUENCE = Inr (0, p2, n2)"
    and "0 < n2" "p2 < length buf" "buf ! p2 = ASN1_SEQUENCE"
  shows "signing_cert_v2_attr dbg lib buf p evap len out = Inl AssertFailed"
  using algorithms_not_oid [OF assms(1,3-6)] assms(2) by (simp add: signing_cert_v2_attr_def)

end
