(* ===== verification/TsReply.thy ===== *)
theory TsReply
  imports TsSigner "HOL-Library.Multiset"
begin

text \<open>
  \<open>src/lib/Update/src/mbedtls-ts-addons/ts.cpp\<close> and \<open>ts.h\<close>: the RFC 3161 time stamp reply in front of
  an update. \<open>mbedtls_x509_ts_reply_parse_der\<close> takes the reply apart, moves the signer's certificate
  to the head of the chain and verifies the signature.

  The reply is the whole buffer, so \<open>*buf\<close> is index 0. Two local variables of the code are read
  without having been set; their former contents are arguments: \<open>sb\<close> is the text buffer
  \<open>statusBuff\<close>, \<open>bs0\<close> the bit string \<open>bs\<close>.
\<close>

section \<open>\<open>PKIStatusInfo\<close>\<close>

record pki_status_info =
  ps_status :: int
  ps_statusString :: "u8 list option"
  ps_failInfo :: int

definition STATUS_BUFF_SIZE :: nat where "STATUS_BUFF_SIZE = 2 * 1024"

definition bytes_at :: "u8 list \<Rightarrow> nat \<Rightarrow> nat \<Rightarrow> fault + u8 list" where
  "bytes_at buf i n = (if i + n \<le> length buf then Inr (take n (drop i buf)) else Inl OutOfBounds)"

definition strlen_at :: "u8 list \<Rightarrow> fault + nat" where
  "strlen_at sb = (case index_of 0 sb of None \<Rightarrow> Inl OutOfBounds | Some n \<Rightarrow> Inr n)"

definition store_byte :: "u8 list \<Rightarrow> nat \<Rightarrow> u8 \<Rightarrow> fault + u8 list" where
  "store_byte sb i b = (if i < length sb then Inr (sb[i := b]) else Inl OutOfBounds)"

text \<open>One text of \<open>PKIFreeText\<close> is appended, after a line end when there is text already.\<close>

definition append_text :: "u8 list \<Rightarrow> u8 list \<Rightarrow> nat \<Rightarrow> nat \<Rightarrow> fault + u8 list" where
  "append_text sb buf p len =
     bind_res (rd sb 0) (\<lambda>b.
     bind_res (if b \<noteq> 0
               then bind_res (strlen_at sb) (\<lambda>at. bind_res (store_byte sb at 10) (\<lambda>sb. Inr (sb, at + 1)))
               else Inr (sb, 0)) (\<lambda>(sb, at).
     let l = (if STATUS_BUFF_SIZE + 1 < at + len then int STATUS_BUFF_SIZE - int at - 1 else int len) in
     if 0 < l then
       bind_res (bytes_at buf p (nat l)) (\<lambda>bs.
       bind_res (put_bytes sb at bs) (\<lambda>(sb, _). store_byte sb (nat l) 0))
     else Inr sb))"

fun free_text ::
  "bool \<Rightarrow> 'c asn1_lib \<Rightarrow> u8 list \<Rightarrow> nat \<Rightarrow> nat \<Rightarrow> nat \<Rightarrow> nat \<Rightarrow> nat \<Rightarrow> u8 list \<Rightarrow> (u8 list \<times> nat) parsed" where
  "free_text dbg lib buf e endp 0 p len sb = Inl NoReturn"
| "free_text dbg lib buf e endp (Suc k) p len sb =
     (if p < endp then
        chk_read dbg (al_get_tag lib buf p e len ASN1_UTF8_STRING) (\<lambda>p len.
        bind_res (append_text sb buf p len) (\<lambda>sb.
          free_text dbg lib buf e endp k (p + len) len sb))
      else yields (sb, len) p)"

text \<open>
  The optional parts: the texts, then the failure bits, of which at most one byte is accepted. \<open>bs\<close>
  is read whether or not a bit string was found.
\<close>

definition status_options ::
  "bool \<Rightarrow> 'c asn1_lib \<Rightarrow> u8 list \<Rightarrow> nat \<Rightarrow> u8 list \<Rightarrow> bitstring \<Rightarrow> nat \<Rightarrow> nat \<Rightarrow> (u8 list \<times> int) parsed" where
  "status_options dbg lib buf e sb bs0 p len =
     on_parse
       (on_read (al_get_tag lib buf p (p + len) len ASN1_SEQUENCE)
          (\<lambda>ret p len. yields (sb, len) p)
          (\<lambda>p len. free_text dbg lib buf e (p + len) (Suc len) p len sb))
       fails
       (\<lambda>(sb, len) p.
         bind_res (al_get_bitstring lib buf p (p + len) bs0) (\<lambda>(ret, p, bs).
         chk_cond dbg (1 < bs_len bs) X509_INVALID_FORMAT p (
           if bs_len bs = 0 then yields (sb, 0) p
           else bind_res (rd buf (bs_p bs)) (\<lambda>b.
             yields (sb, uint (and b (drop_bit (bs_unused_bits bs) 0xFF))) p))))"

definition mbedtls_asn1_get_ts_pkistatusinfo ::
  "bool \<Rightarrow> 'c asn1_lib \<Rightarrow> u8 list \<Rightarrow> u8 list \<Rightarrow> bitstring \<Rightarrow> nat \<Rightarrow> nat \<Rightarrow> pki_status_info parsed" where
  "mbedtls_asn1_get_ts_pkistatusinfo dbg lib buf sb bs0 p e =
     chk_read dbg (al_get_tag lib buf p e 0 ASN1_SEQUENCE) (\<lambda>p len. let endp = p + len in
     chk_cond dbg (e - p \<le> len) X509_INVALID_FORMAT p (
     chk_read dbg (al_get_int lib buf p e) (\<lambda>p status.
     on_parse (if p < endp then status_options dbg lib buf e sb bs0 p len else yields (sb, - 1) p)
       fails (\<lambda>(sb, failInfo) p.
     chk_cond dbg (p \<noteq> endp) X509_INVALID_FORMAT p (
     bind_res (rd sb 0) (\<lambda>b.
     bind_res (if b \<noteq> 0 then bind_res (strlen_at sb) (\<lambda>n. Inr (Some (take n sb))) else Inr None) (\<lambda>s.
       yields \<lparr>ps_status = status, ps_statusString = s, ps_failInfo = failInfo\<rparr> p)))))))"

section \<open>\<open>TSTInfo\<close>\<close>

text \<open>\<open>payload_digest\<close> is where the digest of the payload starts in the reply.\<close>

record ts_info =
  ti_digest_type :: int
  ti_payload_digest :: nat
  ti_payload_digest_len :: nat
  ti_signed_time :: x509_time

definition x509_time_zero :: x509_time where
  "x509_time_zero = \<lparr>tm_year = 0, tm_mon = 0, tm_day = 0, tm_hour = 0, tm_min = 0, tm_sec = 0\<rparr>"

text \<open>\<open>accuracy\<close>: up to three integers, whatever follows them is skipped.\<close>

definition tsinfo_accuracy :: "'c asn1_lib \<Rightarrow> u8 list \<Rightarrow> nat \<Rightarrow> nat \<Rightarrow> nat \<Rightarrow> fault + nat \<times> nat" where
  "tsinfo_accuracy lib buf p e len =
     bind_res (al_get_tag lib buf p e len ASN1_SEQUENCE) (\<lambda>(ret, p, len).
     if ret \<noteq> 0 then Inr (p, len)
     else let ep = p + len in
       bind_res (al_get_int lib buf p ep) (\<lambda>(r1, p, sec).
       bind_res (if r1 = 0 then al_get_int lib buf p ep else Inr (r1, p, 0)) (\<lambda>(r2, p, milli).
       bind_res (if r2 = 0 then al_get_int lib buf p ep else Inr (r2, p, 0)) (\<lambda>(r3, p, micro).
         Inr (ep, len)))))"

text \<open>\<open>tsa\<close>: only a \<open>directoryName\<close> passes the switch.\<close>

definition tsinfo_tsa :: "bool \<Rightarrow> 'c asn1_lib \<Rightarrow> u8 list \<Rightarrow> nat \<Rightarrow> nat \<Rightarrow> nat \<Rightarrow> nat parsed" where
  "tsinfo_tsa dbg lib buf p e len =
     bind_res (rd buf p) (\<lambda>b.
     if and b 0xF \<noteq> 0 then yields len p
     else on_read (al_get_tag lib buf p e len ASN1_CONTEXT) (\<lambda>ret p len. yields len p) (\<lambda>p len.
       bind_res (rd buf p) (\<lambda>c.
       chk_read dbg (al_get_tag lib buf p e len c) (\<lambda>p len.
         if and c 0xF = 4 then
           on_parse (mbedtls_x509_get_names lib buf p (p + len)) fails (\<lambda>directoryName p. yields len p)
         else Inl AssertFailed))))"

text \<open>
  \<open>extensions\<close>: \<open>p += len\<close> moves the pointer to the position instead of the position, and the next
  read through it leaves the object.
\<close>

definition tsinfo_extensions :: "'c asn1_lib \<Rightarrow> u8 list \<Rightarrow> nat \<Rightarrow> nat \<Rightarrow> nat \<Rightarrow> fault + nat" where
  "tsinfo_extensions lib buf p e len =
     bind_res (rd buf p) (\<lambda>b.
     if and b 0xF \<noteq> 1 then Inr p
     else bind_res (al_get_tag lib buf p e len ASN1_CONTEXT) (\<lambda>(ret, p, len).
       if ret = 0 \<and> len \<noteq> 0 then Inl OutOfBounds else Inr p))"

definition tsinfo_optional ::
  "bool \<Rightarrow> 'c asn1_lib \<Rightarrow> u8 list \<Rightarrow> nat \<Rightarrow> nat \<Rightarrow> nat \<Rightarrow> ts_info \<Rightarrow> ts_info parsed" where
  "tsinfo_optional dbg lib buf p e len out =
     bind_res (tsinfo_accuracy lib buf p e len) (\<lambda>(p, len).
     bind_res (al_get_bool lib buf p e) (\<lambda>(ret, p, ordering).
     on_parse (on_parse (mbedtls_asn1_get_uint64 lib buf p e) (\<lambda>err p. yields () p) (\<lambda>nonce p. yields () p))
       fails (\<lambda>_ p.
     on_parse (tsinfo_tsa dbg lib buf p e len) fails (\<lambda>len p.
     bind_res (tsinfo_extensions lib buf p e len) (\<lambda>p.
       asserts (e = p) (yields out e))))))"

definition mbedtls_ts_get_tsinfo ::
  "bool \<Rightarrow> 'c asn1_lib \<Rightarrow> u8 list \<Rightarrow> nat \<Rightarrow> nat \<Rightarrow> ts_info parsed" where
  "mbedtls_ts_get_tsinfo dbg lib buf p e =
     chk_read dbg (al_get_tag lib buf p e 0 ASN1_SEQUENCE) (\<lambda>p len. let end_tsinfo = p + len in
     need_read (al_get_int lib buf p end_tsinfo) (\<lambda>p v.
     chk_cond dbg (v \<noteq> 1) X509_INVALID_FORMAT p (
     chk_read dbg (al_get_tag lib buf p end_tsinfo len ASN1_OID) (\<lambda>p len. let p = p + len in
     chk_read dbg (al_get_tag lib buf p end_tsinfo len ASN1_SEQUENCE) (\<lambda>p len.
     chk_parse dbg (mbedtls_asn1_get_algorithm_itentifiers lib buf p end_tsinfo) (\<lambda>digest_type p.
     chk_read dbg (al_get_tag lib buf p end_tsinfo len ASN1_OCTET_STRING) (\<lambda>payload_digest payload_len.
     chk_parse dbg (mbedtls_asn1_get_uint64 lib buf (payload_digest + payload_len) end_tsinfo) (\<lambda>serial p.
     chk_read dbg (al_get_tag lib buf p end_tsinfo payload_len ASN1_GENERALIZED_TIME) (\<lambda>p len.
     chk_parse dbg (x509_parse_time buf p len 4 x509_time_zero) (\<lambda>signed_time p.
       tsinfo_optional dbg lib buf p end_tsinfo len
         \<lparr>ti_digest_type = digest_type, ti_payload_digest = payload_digest,
          ti_payload_digest_len = payload_len, ti_signed_time = signed_time\<rparr>))))))))))"

section \<open>The fields of the reply\<close>

text \<open>
  \<open>mbedtls_ts_reply\<close>. A node of the chain that was allocated but holds no certificate is \<open>None\<close>;
  the null pointer is the empty chain.
\<close>

record 'c tsreply =
  tr_status :: pki_status_info
  tr_ts_info :: ts_info
  tr_signer_info :: signer_info
  tr_chain :: "'c option list"

definition OID_PKCS7_ID_SIGNED :: "u8 list" where "OID_PKCS7_ID_SIGNED = OID_PKCS @ [0x07, 0x02]"
definition OID_STINFO :: "u8 list" where "OID_STINFO = OID_PKCS9 @ [0x10, 0x01, 0x04]"

text \<open>What the signature check needs beside the reply: the signed bytes and their digest type.\<close>

record signed_area =
  sa_data :: nat
  sa_len :: nat
  sa_digest_type :: int

text \<open>\<open>TimeStampResp\<close> down to the start of \<open>SignedData\<close>; \<open>e\<close> is the end of the reply.\<close>

definition reply_status ::
  "bool \<Rightarrow> 'c asn1_lib \<Rightarrow> u8 list \<Rightarrow> u8 list \<Rightarrow> bitstring \<Rightarrow> (pki_status_info \<times> nat) parsed" where
  "reply_status dbg lib buf sb bs0 =
     chk_read dbg (al_get_tag lib buf 0 (length buf) 0 ASN1_SEQUENCE) (\<lambda>p len. let e = p + len in
     chk_parse dbg (mbedtls_asn1_get_ts_pkistatusinfo dbg lib buf sb bs0 p e) (\<lambda>status p.
     chk_read dbg (al_get_tag lib buf p e len ASN1_SEQUENCE) (\<lambda>p len.
     if len \<noteq> e - p then fails TS_REPLY_LENGTH_MISMATCH p
     else chk_read dbg (al_get_tag lib buf p e len ASN1_OID) (\<lambda>p len.
     if take len (drop p buf) \<noteq> OID_PKCS7_ID_SIGNED then fails X509_INVALID_FORMAT (p + len)
     else yields (status, e) (p + len)))))"

text \<open>\<open>SignedData\<close> down to the content: version, digest algorithms, content type.\<close>

definition reply_content ::
  "bool \<Rightarrow> 'c asn1_lib \<Rightarrow> u8 list \<Rightarrow> nat \<Rightarrow> nat \<Rightarrow> signed_area parsed" where
  "reply_content dbg lib buf p e =
     chk_read dbg (al_get_tag lib buf p e 0 ASN1_CONTEXT) (\<lambda>p len.
     chk_read dbg (al_get_tag lib buf p e len ASN1_SEQUENCE) (\<lambda>p len.
     chk_cond dbg (e - p < len) X509_INVALID_FORMAT p (
     chk_read dbg (al_get_int lib buf p e) (\<lambda>p v.
     chk_read dbg (al_get_tag lib buf p e len ASN1_SET) (\<lambda>p len.
     chk_parse dbg (mbedtls_asn1_get_algorithm_itentifiers lib buf p (p + len)) (\<lambda>digest_type p.
     chk_read dbg (al_get_tag lib buf p e len ASN1_SEQUENCE) (\<lambda>p len.
     chk_read dbg (al_get_tag lib buf p e len ASN1_OID) (\<lambda>p len.
     chk_cond dbg (take len (drop p buf) \<noteq> OID_STINFO) X509_INVALID_FORMAT (p + len) (
     chk_read dbg (al_get_tag lib buf (p + len) e len ASN1_CONTEXT) (\<lambda>p len.
     chk_read dbg (al_get_tag lib buf p e len ASN1_OCTET_STRING) (\<lambda>p len.
       yields \<lparr>sa_data = p, sa_len = len, sa_digest_type = digest_type\<rparr> p)))))))))))"

text \<open>The optional certificates and revocation lists, both asked for with the tag \<open>[0]\<close>.\<close>

definition reply_certs ::
  "bool \<Rightarrow> 'c asn1_lib \<Rightarrow> u8 list \<Rightarrow> nat \<Rightarrow> nat \<Rightarrow> 'c option list parsed" where
  "reply_certs dbg lib buf p e =
     on_parse
       (on_read (al_get_tag lib buf p e 0 ASN1_CONTEXT)
          (\<lambda>ret p len. yields [] p)
          (\<lambda>p len. chk_parse dbg (mbedtls_asn1_get_certificate_set lib buf p (p + len) []) yields))
       fails
       (\<lambda>chain p.
         on_read (al_get_tag lib buf p e 0 ASN1_CONTEXT)
           (\<lambda>ret p len. yields chain p) (\<lambda>p len. yields chain (p + len)))"

definition reply_fields ::
  "bool \<Rightarrow> 'c asn1_lib \<Rightarrow> u8 list \<Rightarrow> u8 list \<Rightarrow> bitstring \<Rightarrow> ('c tsreply \<times> signed_area) parsed" where
  "reply_fields dbg lib buf sb bs0 =
     on_parse (reply_status dbg lib buf sb bs0) fails (\<lambda>(status, e) p.
     on_parse (reply_content dbg lib buf p e) fails (\<lambda>area p.
     chk_parse dbg (mbedtls_ts_get_tsinfo dbg lib buf p e) (\<lambda>tsinfo p.
     on_parse (reply_certs dbg lib buf p e) fails (\<lambda>chain p.
     chk_read dbg (al_get_tag lib buf p e 0 ASN1_SET) (\<lambda>p len.
     chk_parse dbg (mbedtls_ts_get_signer_info dbg lib buf p e) (\<lambda>signer p.
       yields (\<lparr>tr_status = status, tr_ts_info = tsinfo, tr_signer_info = signer, tr_chain = chain\<rparr>,
               area) p))))))"

section \<open>The signer's certificate\<close>

text \<open>An \<open>mbedtls_md_type_t\<close> is stored through an \<open>int *\<close>; read back it is unsigned.\<close>

definition md_type :: "int \<Rightarrow> nat" where
  "md_type i = nat (i mod 2 ^ 32)"

text \<open>Set up, start, one update for each part, finish.\<close>

fun md_updates :: "('c, 'd) crypto \<Rightarrow> 'd \<Rightarrow> u8 list list \<Rightarrow> 'd option" where
  "md_updates cr d [] = Some d"
| "md_updates cr d (bs # rest) = Option.bind (md_update cr d bs) (\<lambda>d. md_updates cr d rest)"

definition md_digest :: "('c, 'd) crypto \<Rightarrow> nat \<Rightarrow> u8 list list \<Rightarrow> u8 list option" where
  "md_digest cr t parts =
     Option.bind (md_start cr (Some t)) (\<lambda>d. Option.bind (md_updates cr d parts) (md_finish cr))"

text \<open>The index of the first certificate with this digest; \<open>None\<close> when the loop reaches the end.\<close>

fun match_signer ::
  "('c, 'd) crypto \<Rightarrow> 'c asn1_lib \<Rightarrow> nat \<Rightarrow> u8 list \<Rightarrow> 'c option list \<Rightarrow> ts_err + nat option" where
  "match_signer cr lib t cert_hash [] = Inr None"
| "match_signer cr lib t cert_hash (c # cs) =
     (case md_digest cr t [node_raw lib c] of
        None \<Rightarrow> Inl MD_FAILED
      | Some digest \<Rightarrow>
          if take (md_get_size cr t) digest = cert_hash then Inr (Some 0)
          else bind_res (match_signer cr lib t cert_hash cs) (\<lambda>r. Inr (map_option Suc r)))"

text \<open>The node is unlinked and put_bytes at the head.\<close>

definition move_to_front :: "nat \<Rightarrow> 'a list \<Rightarrow> 'a list" where
  "move_to_front i xs = xs ! i # take i xs @ drop (Suc i) xs"

text \<open>
  The chain after the search, and \<open>crt\<close>: it stays null without a certificate hash among the signed
  attributes and when no certificate has that hash.
\<close>

definition find_signer ::
  "bool \<Rightarrow> ('c, 'd) crypto \<Rightarrow> 'c asn1_lib \<Rightarrow> u8 list \<Rightarrow> signer_info \<Rightarrow> 'c option list \<Rightarrow> nat \<Rightarrow>
   ('c option option \<times> 'c option list) parsed" where
  "find_signer dbg cr lib buf si chain p =
     (case si_signing_cert_hash si of
        None \<Rightarrow> yields (None, chain) p
      | Some h \<Rightarrow>
          let t = md_type (si_signing_cert_hash_type si) in
          asserts (md_known cr t) (
          if si_signing_cert_hash_len si \<noteq> md_get_size cr t then fails PK_SIG_LEN_MISMATCH p
          else bind_res (bytes_at buf h (md_get_size cr t)) (\<lambda>cert_hash.
            case match_signer cr lib t cert_hash chain of
              Inl e \<Rightarrow> checked dbg e p
            | Inr None \<Rightarrow> yields (None, chain) p
            | Inr (Some i) \<Rightarrow> yields (Some (chain ! i), move_to_front i chain) p)))"

section \<open>The signature\<close>

text \<open>
  The digest the signature is made over: of the content, or of the signed attributes when they are
  there and carry the digest of the content. Their first byte, an implicit tag, is replaced by the
  one of a set.
\<close>

definition signed_digest ::
  "bool \<Rightarrow> ('c, 'd) crypto \<Rightarrow> u8 list \<Rightarrow> signer_info \<Rightarrow> signed_area \<Rightarrow> nat \<Rightarrow> u8 list parsed" where
  "signed_digest dbg cr buf si area p =
     (let t = md_type (sa_digest_type area) in
      asserts (md_known cr t \<and> md_get_size cr t \<noteq> 0 \<and> sa_len area \<noteq> 0) (
      bind_res (bytes_at buf (sa_data area) (sa_len area)) (\<lambda>signed_data.
      case md_digest cr t [signed_data] of
        None \<Rightarrow> checked dbg MD_FAILED p
      | Some digest \<Rightarrow>
          (case (si_signed_attribute_raw si, si_sig_digest si) of
             (Some attrs, Some d) \<Rightarrow>
               if si_sig_digest_len si \<noteq> md_get_size cr t then fails PK_SIG_LEN_MISMATCH p
               else if si_sig_digest_type si \<noteq> sa_digest_type area \<or> sa_digest_type area = 0
               then fails X509_INVALID_SIGNATURE p
               else bind_res (bytes_at buf d (si_sig_digest_len si)) (\<lambda>sig_digest.
                 if take (si_sig_digest_len si) digest \<noteq> sig_digest then fails PK_SIG_LEN_MISMATCH p
                 else asserts (si_signed_attribute_len si \<noteq> 0) (
                   bind_res (bytes_at buf (attrs + 1) (si_signed_attribute_len si - 1)) (\<lambda>rest.
                   case md_digest cr t [[ASN1_SET], rest] of
                     None \<Rightarrow> checked dbg MD_FAILED p
                   | Some digest \<Rightarrow> yields digest p)))
           | _ \<Rightarrow> yields digest p))))"

definition verify_signature ::
  "('c, 'd) crypto \<Rightarrow> 'c asn1_lib \<Rightarrow> u8 list \<Rightarrow> 'c option option \<Rightarrow> int \<Rightarrow> u8 list \<Rightarrow> signer_info \<Rightarrow> nat \<Rightarrow>
   unit parsed" where
  "verify_signature cr lib buf crt digest_type digest si p =
     asserts (digest_type \<noteq> 0 \<and> si_sig si \<noteq> None \<and> si_sig_len si \<noteq> 0) (
       case crt of
         None \<Rightarrow> Inl NullPointer
       | Some c \<Rightarrow>
           bind_res (bytes_at buf (the (si_sig si)) (si_sig_len si)) (\<lambda>sig.
             let ret = al_pk_verify lib c digest_type (take (md_get_size cr (md_type digest_type)) digest) sig
             in if ret = 0 then yields () p else fails (LibErr ret) p))"

definition mbedtls_x509_ts_reply_parse_der ::
  "bool \<Rightarrow> ('c, 'd) crypto \<Rightarrow> 'c asn1_lib \<Rightarrow> u8 list \<Rightarrow> bitstring \<Rightarrow> u8 list \<Rightarrow> 'c tsreply parsed" where
  "mbedtls_x509_ts_reply_parse_der dbg cr lib sb bs0 buf =
     on_parse (reply_fields dbg lib buf sb bs0) fails (\<lambda>(reply, area) p. let si = tr_signer_info reply in
     on_parse (find_signer dbg cr lib buf si (tr_chain reply) p) fails (\<lambda>(crt, chain) p.
     on_parse (signed_digest dbg cr buf si area p) fails (\<lambda>digest p.
     on_parse (verify_signature cr lib buf crt (sa_digest_type area) digest si p) fails (\<lambda>_ p.
       yields (reply\<lparr>tr_chain := chain\<rparr>) p))))"

section \<open>Freeing a reply\<close>

text \<open>
  The blocks handed to \<open>free\<close>. A reply that is refused is freed this way before the error is
  returned; \<open>NULL\<close> for the reply is \<open>None\<close>.
\<close>

datatype heap_block = StatusText | ChainNode nat

definition mbedtls_ts_pki_status_info_free :: "pki_status_info option \<Rightarrow> heap_block list" where
  "mbedtls_ts_pki_status_info_free status =
     (case status of
        None \<Rightarrow> []
      | Some st \<Rightarrow> if ps_statusString st \<noteq> None then [StatusText] else [])"

definition mbedtls_asn1_ts_pki_ts_info_free :: "ts_info option \<Rightarrow> heap_block list" where
  "mbedtls_asn1_ts_pki_ts_info_free tsinfo = []"

definition mbedtls_ts_reply_free :: "'c tsreply option \<Rightarrow> heap_block list" where
  "mbedtls_ts_reply_free reply =
     (case reply of
        None \<Rightarrow> []
      | Some r \<Rightarrow>
          mbedtls_ts_pki_status_info_free (Some (tr_status r)) @
          mbedtls_asn1_ts_pki_ts_info_free (Some (tr_ts_info r)) @
          (if tr_chain r \<noteq> [] then [ChainNode 0] else []))"

text \<open>Only the first node of the chain is freed: the others are lost.\<close>

lemma reply_free_leaks_chain: "ChainNode (Suc i) \<notin> set (mbedtls_ts_reply_free reply)"
  by (auto simp: mbedtls_ts_reply_free_def mbedtls_ts_pki_status_info_free_def
      mbedtls_asn1_ts_pki_ts_info_free_def split: option.split)

section \<open>What an accepted reply proves\<close>

lemma md_updates_absorbed:
  "md_spec absorbed hash cr \<Longrightarrow> md_updates cr d parts = Some d' \<Longrightarrow>
   absorbed d' = (fst (absorbed d), snd (absorbed d) @ concat parts)"
proof (induction parts arbitrary: d)
  case (Cons bs rest)
  from Cons.prems(2) obtain d1 where d: "md_update cr d bs = Some d1" "md_updates cr d1 rest = Some d'"
    by (auto simp: bind_eq_Some_conv)
  from Cons.IH [OF Cons.prems(1) d(2)] md_update_absorbed [OF Cons.prems(1) d(1)] show ?case by simp
qed simp

lemma md_digest_hash:
  assumes "md_spec absorbed hash cr" "md_digest cr t parts = Some h"
  shows "h = hash t (concat parts)"
proof -
  from assms(2) obtain d d' where "md_start cr (Some t) = Some d" "md_updates cr d parts = Some d'"
      "md_finish cr d' = Some h"
    by (auto simp: md_digest_def bind_eq_Some_conv)
  with md_start_absorbed [OF assms(1)] md_updates_absorbed [OF assms(1)] md_finish_hash [OF assms(1)]
  show ?thesis by fastforce
qed

lemma match_signer_Some:
  assumes "md_spec absorbed hash cr" "match_signer cr lib t cert_hash chain = Inr (Some i)"
  shows "i < length chain \<and> hash t (node_raw lib (chain ! i)) = cert_hash \<and>
    (\<forall>j < i. hash t (node_raw lib (chain ! j)) \<noteq> cert_hash)"
  using assms(2)
proof (induction chain arbitrary: i)
  case Nil
  then show ?case by simp
next
  case (Cons c cs)
  then obtain d where d: "md_digest cr t [node_raw lib c] = Some d"
    by (auto split: option.splits)
  have h: "take (md_get_size cr t) d = hash t (node_raw lib c)"
    using md_digest_hash [OF assms(1) d] length_hash [OF assms(1)] by simp
  show ?case
  proof (cases "hash t (node_raw lib c) = cert_hash")
    case True
    with Cons.prems d h show ?thesis by simp
  next
    case False
    with Cons.prems d h obtain k where k: "i = Suc k" "match_signer cr lib t cert_hash cs = Inr (Some k)"
      by (auto simp: bind_res_Inr_iff)
    from Cons.IH [OF k(2)] k(1) False show ?thesis by (auto simp: less_Suc_eq_0_disj)
  qed
qed

lemma mset_move_to_front: "i < length xs \<Longrightarrow> mset (move_to_front i xs) = mset xs"
proof -
  assume "i < length xs"
  then have "mset xs = mset (take i xs @ xs ! i # drop (Suc i) xs)" by (simp flip: id_take_nth_drop)
  then show ?thesis by (simp add: move_to_front_def)
qed

lemma bytes_at_Inr: "bytes_at buf i n = Inr bs \<longleftrightarrow> i + n \<le> length buf \<and> bs = take n (drop i buf)"
  by (auto simp: bytes_at_def)

lemma signer_chosen:
  assumes "md_spec absorbed hash cr" "find_signer dbg cr lib buf si chain p = yields (crt, chain') q"
  shows "mset chain' = mset chain \<and>
    (case crt of
       None \<Rightarrow> chain' = chain
     | Some c \<Rightarrow> \<exists>i h. i < length chain \<and> chain ! i = c \<and> chain' = c # take i chain @ drop (Suc i) chain \<and>
         si_signing_cert_hash si = Some h \<and>
         hash (md_type (si_signing_cert_hash_type si)) (node_raw lib c) =
           take (si_signing_cert_hash_len si) (drop h buf) \<and>
         (\<forall>j < i. hash (md_type (si_signing_cert_hash_type si)) (node_raw lib (chain ! j)) \<noteq>
           take (si_signing_cert_hash_len si) (drop h buf)))"
proof (cases "si_signing_cert_hash si")
  case None
  with assms(2) show ?thesis by (simp add: find_signer_def)
next
  case (Some h)
  let ?t = "md_type (si_signing_cert_hash_type si)"
  from assms(2) Some obtain m where m: "si_signing_cert_hash_len si = md_get_size cr ?t"
    "match_signer cr lib ?t (take (md_get_size cr ?t) (drop h buf)) chain = Inr m"
    "(case m of None \<Rightarrow> (None, chain) | Some i \<Rightarrow> (Some (chain ! i), move_to_front i chain)) = (crt, chain')"
    by (auto simp: find_signer_def Let_def yields_chk bytes_at_Inr split: if_splits sum.splits option.splits)
  show ?thesis
  proof (cases m)
    case None
    with m(3) show ?thesis by simp
  next
    case (Some i)
    with m(2) match_signer_Some [OF assms(1)] have i: "i < length chain"
        "hash ?t (node_raw lib (chain ! i)) = take (md_get_size cr ?t) (drop h buf)"
        "\<forall>j < i. hash ?t (node_raw lib (chain ! j)) \<noteq> take (md_get_size cr ?t) (drop h buf)"
      by blast+
    from m(3) Some have c: "crt = Some (chain ! i)" "chain' = move_to_front i chain" by simp_all
    show ?thesis unfolding c option.case
      by (rule conjI, simp add: mset_move_to_front i(1), rule exI [of _ i], rule exI [of _ h])
        (use i m(1) \<open>si_signing_cert_hash si = Some h\<close> in \<open>simp_all add: mset_move_to_front move_to_front_def\<close>)
  qed
qed

text \<open>
  The search for the signer: it puts the first certificate whose digest is the one among the
  signed attributes at the head of the chain and keeps every other certificate in its order. Without
  such a certificate the chain stays as it was and there is no signer.
\<close>

theorem find_signer_moves_to_front:
  assumes "md_spec absorbed hash cr" "find_signer dbg cr lib buf si chain p = yields (crt, chain') q"
  shows "mset chain' = mset chain \<and>
    (case crt of
       None \<Rightarrow> chain' = chain
     | Some c \<Rightarrow> \<exists>i h. i < length chain \<and> chain ! i = c \<and> chain' = c # take i chain @ drop (Suc i) chain \<and>
         si_signing_cert_hash si = Some h \<and>
         hash (md_type (si_signing_cert_hash_type si)) (node_raw lib c) =
           take (si_signing_cert_hash_len si) (drop h buf) \<and>
         (\<forall>j < i. hash (md_type (si_signing_cert_hash_type si)) (node_raw lib (chain ! j)) \<noteq>
           take (si_signing_cert_hash_len si) (drop h buf)))"
  using signer_chosen [OF assms] .

text \<open>
  The signature on the signed area: \<open>c\<close> verifies it over the attributes, which hold the digest of
  the content, or over the content itself.
\<close>

definition area_signed ::
  "('c, 'd) crypto \<Rightarrow> 'c asn1_lib \<Rightarrow> (nat \<Rightarrow> u8 list \<Rightarrow> u8 list) \<Rightarrow> u8 list \<Rightarrow> signer_info \<Rightarrow> signed_area \<Rightarrow>
   'c option \<Rightarrow> bool" where
  "area_signed cr lib hash buf si area c \<longleftrightarrow>
     (\<exists>g. let t = md_type (sa_digest_type area);
              content = take (sa_len area) (drop (sa_data area) buf);
              signature = take (si_sig_len si) (drop g buf);
              signed = (\<lambda>bs. al_pk_verify lib c (sa_digest_type area) (hash t bs) signature = 0)
          in si_sig si = Some g \<and> content \<noteq> [] \<and> signature \<noteq> [] \<and>
             (case (si_signed_attribute_raw si, si_sig_digest si) of
                (Some attrs, Some d) \<Rightarrow>
                  take (si_sig_digest_len si) (drop d buf) = hash t content \<and>
                  signed (ASN1_SET # take (si_signed_attribute_len si - 1) (drop (attrs + 1) buf))
              | _ \<Rightarrow> signed content))"

lemma signed_digest_eq:
  assumes "md_spec absorbed hash cr" "signed_digest dbg cr buf si area p = yields digest q"
  shows "let t = md_type (sa_digest_type area); content = take (sa_len area) (drop (sa_data area) buf) in
    content \<noteq> [] \<and>
    (case (si_signed_attribute_raw si, si_sig_digest si) of
       (Some attrs, Some d) \<Rightarrow>
         take (si_sig_digest_len si) (drop d buf) = hash t content \<and>
         digest = hash t (ASN1_SET # take (si_signed_attribute_len si - 1) (drop (attrs + 1) buf))
     | _ \<Rightarrow> digest = hash t content)"
proof -
  let ?t = "md_type (sa_digest_type area)" and ?content = "take (sa_len area) (drop (sa_data area) buf)"
  from assms(2) obtain d1 where d1: "md_digest cr ?t [?content] = Some d1" "sa_len area \<noteq> 0"
      "sa_data area + sa_len area \<le> length buf"
    by (auto simp: signed_digest_def Let_def yields_chk bytes_at_Inr split: option.splits)
  have h: "d1 = hash ?t ?content" "length d1 = md_get_size cr ?t"
    using md_digest_hash [OF assms(1) d1(1)] length_hash [OF assms(1)] by simp_all
  have n: "?content \<noteq> []" using d1 by simp
  show ?thesis
  proof (cases "\<exists>attrs d. si_signed_attribute_raw si = Some attrs \<and> si_sig_digest si = Some d")
    case False
    with assms(2) d1 h n show ?thesis
      by (auto simp: signed_digest_def Let_def yields_chk bytes_at_Inr split: option.splits)
  next
    case True
    then obtain attrs d where a: "si_signed_attribute_raw si = Some attrs" "si_sig_digest si = Some d" by blast
    let ?rest = "take (si_signed_attribute_len si - 1) (drop (attrs + 1) buf)"
    from assms(2) d1 a have "md_digest cr ?t [[ASN1_SET], ?rest] = Some digest"
        "si_sig_digest_len si = md_get_size cr ?t" "take (si_sig_digest_len si) d1 = take (si_sig_digest_len si) (drop d buf)"
      by (simp_all add: signed_digest_def Let_def yields_chk bytes_at_Inr split: option.splits if_splits)
    with md_digest_hash [OF assms(1), of ?t "[[ASN1_SET], ?rest]" digest] h n a show ?thesis by (simp add: Let_def)
  qed
qed

lemma verified_area:
  assumes "md_spec absorbed hash cr" "signed_digest dbg cr buf si area p = yields digest q"
    and "verify_signature cr lib buf (Some c) (sa_digest_type area) digest si p' = yields () q'"
  shows "area_signed cr lib hash buf si area c"
proof -
  let ?t = "md_type (sa_digest_type area)"
  note d = signed_digest_eq [OF assms(1,2)]
  have l: "take (md_get_size cr ?t) (hash ?t bs) = hash ?t bs" for bs
    using length_hash [OF assms(1)] by simp
  from assms(3) obtain g where g: "si_sig si = Some g" "g + si_sig_len si \<le> length buf" "si_sig_len si \<noteq> 0"
    "al_pk_verify lib c (sa_digest_type area) (take (md_get_size cr ?t) digest)
       (take (si_sig_len si) (drop g buf)) = 0"
    by (auto simp: verify_signature_def Let_def yields_chk bytes_at_Inr split: if_splits)
  then have "take (si_sig_len si) (drop g buf) \<noteq> []" by simp
  with d g l show ?thesis
    by (auto simp: area_signed_def Let_def split: option.splits)
qed

lemma find_signer_pos:
  assumes "find_signer dbg cr lib buf si chain p = yields x q"
  shows "q = p"
proof (cases "si_signing_cert_hash si")
  case None
  with assms show ?thesis by (simp add: find_signer_def)
next
  case (Some h)
  with assms obtain bs where "(case match_signer cr lib (md_type (si_signing_cert_hash_type si)) bs chain of
      Inl e \<Rightarrow> checked dbg e p
    | Inr None \<Rightarrow> yields (None, chain) p
    | Inr (Some i) \<Rightarrow> yields (Some (chain ! i), move_to_front i chain) p) = yields x q"
    by (auto simp: find_signer_def Let_def yields_chk split: if_splits)
  then show ?thesis by (simp split: sum.splits option.splits)
qed

lemma reply_accepted:
  assumes "mbedtls_x509_ts_reply_parse_der dbg cr lib sb bs0 buf = yields r q"
  obtains reply area c chain digest p where
    "reply_fields dbg lib buf sb bs0 = yields (reply, area) p"
    "r = reply\<lparr>tr_chain := chain\<rparr>"
    "find_signer dbg cr lib buf (tr_signer_info r) (tr_chain reply) p = yields (Some c, chain) p"
    "signed_digest dbg cr buf (tr_signer_info r) area p = yields digest p"
    "verify_signature cr lib buf (Some c) (sa_digest_type area) digest (tr_signer_info r) p = yields () p"
proof -
  from assms obtain reply area p crt chain p1 digest p2 p3 where f:
    "reply_fields dbg lib buf sb bs0 = yields (reply, area) p"
    "find_signer dbg cr lib buf (tr_signer_info reply) (tr_chain reply) p = yields (crt, chain) p1"
    "signed_digest dbg cr buf (tr_signer_info reply) area p1 = yields digest p2"
    "verify_signature cr lib buf crt (sa_digest_type area) digest (tr_signer_info reply) p2 = yields () p3"
    "r = reply\<lparr>tr_chain := chain\<rparr>"
    by (auto simp: mbedtls_x509_ts_reply_parse_der_def Let_def yields_fails_parse)
  from f(4) obtain c where c: "crt = Some c" by (cases crt) (auto simp: verify_signature_def yields_chk)
  have "p1 = p"
    using f(2) by (rule find_signer_pos)
  moreover have "p2 = p1"
    using f(3) by (auto simp: signed_digest_def Let_def yields_chk split: option.splits if_splits)
  moreover have "p3 = p2" using f(4) c by (auto simp: verify_signature_def Let_def yields_chk split: if_splits)
  ultimately show thesis using that f c by simp
qed

text \<open>
  Every accepted reply is signed: the head of the certificate chain is the certificate whose
  digest the reply's signer named, and it verifies the signature over the signed attributes, which
  hold the digest of the content, or over the content when there are none.
\<close>

theorem accepted_reply_is_signed:
  assumes "md_spec absorbed hash cr"
    and "mbedtls_x509_ts_reply_parse_der dbg cr lib sb bs0 buf = yields r q"
  shows "\<exists>reply area p c h. reply_fields dbg lib buf sb bs0 = yields (reply, area) p \<and>
    tr_signer_info r = tr_signer_info reply \<and> tr_ts_info r = tr_ts_info reply \<and>
    mset (tr_chain r) = mset (tr_chain reply) \<and> tr_chain r \<noteq> [] \<and> c = hd (tr_chain r) \<and>
    si_signing_cert_hash (tr_signer_info r) = Some h \<and>
    hash (md_type (si_signing_cert_hash_type (tr_signer_info r))) (node_raw lib c) =
      take (si_signing_cert_hash_len (tr_signer_info r)) (drop h buf) \<and>
    area_signed cr lib hash buf (tr_signer_info r) area c"
proof -
  from assms(2) obtain reply area c chain digest p where r:
    "reply_fields dbg lib buf sb bs0 = yields (reply, area) p" "r = reply\<lparr>tr_chain := chain\<rparr>"
    "find_signer dbg cr lib buf (tr_signer_info r) (tr_chain reply) p = yields (Some c, chain) p"
    "signed_digest dbg cr buf (tr_signer_info r) area p = yields digest p"
    "verify_signature cr lib buf (Some c) (sa_digest_type area) digest (tr_signer_info r) p = yields () p"
    by (rule reply_accepted)
  from signer_chosen [OF assms(1) r(3)] obtain h where h: "mset chain = mset (tr_chain reply)"
    "chain \<noteq> []" "hd chain = c" "si_signing_cert_hash (tr_signer_info r) = Some h"
    "hash (md_type (si_signing_cert_hash_type (tr_signer_info r))) (node_raw lib c) =
      take (si_signing_cert_hash_len (tr_signer_info r)) (drop h buf)"
    by auto
  have "area_signed cr lib hash buf (tr_signer_info r) area c"
    by (rule verified_area [OF assms(1) r(4,5)])
  with r(1,2) h show ?thesis by force
qed


section \<open>The reply in front of an update\<close>

text \<open>
  What \<open>UpdateProcessorRFC3161\<close> uses of the reply. A reply that stops the program is not accepted
  either.
\<close>

definition ts_reply_of :: "u8 list \<Rightarrow> 'c tsreply \<Rightarrow> 'c ts_reply" where
  "ts_reply_of buf r = \<lparr>rp_digest_type = md_type (ti_digest_type (tr_ts_info r)),
     rp_payload_digest = drop (ti_payload_digest (tr_ts_info r)) buf,
     rp_chain = List.map_filter (\<lambda>c. c) (tr_chain r)\<rparr>"

definition parse_reply ::
  "bool \<Rightarrow> ('c, 'd) crypto \<Rightarrow> 'c asn1_lib \<Rightarrow> u8 list \<Rightarrow> bitstring \<Rightarrow> u8 list \<Rightarrow> 'c ts_reply option" where
  "parse_reply dbg cr lib sb bs0 buf =
     (case mbedtls_x509_ts_reply_parse_der dbg cr lib sb bs0 buf of
        Inr (Inr (r, p)) \<Rightarrow> Some (ts_reply_of buf r)
      | _ \<Rightarrow> None)"

definition with_parser ::
  "bool \<Rightarrow> ('c, 'd) crypto \<Rightarrow> 'c asn1_lib \<Rightarrow> u8 list \<Rightarrow> bitstring \<Rightarrow> ('c, 'd) crypto" where
  "with_parser dbg cr lib sb bs0 = cr\<lparr>ts_reply_parse := parse_reply dbg cr lib sb bs0\<rparr>"

lemma parse_reply_Some:
  "parse_reply dbg cr lib sb bs0 buf = Some x \<longleftrightarrow>
     (\<exists>r p. mbedtls_x509_ts_reply_parse_der dbg cr lib sb bs0 buf = yields r p \<and> x = ts_reply_of buf r)"
  by (auto simp: parse_reply_def yields_def split: sum.splits prod.splits)

lemma rfc_verify_reply_again:
  "rfc_verify_reply cr blob s = (PROC_AGAIN, s') \<Longrightarrow>
   \<exists>x. ts_reply_parse cr blob = Some x \<and> rf_reply s' = Some x \<and> MD_SHA256 \<le> rp_digest_type x \<and>
       crt_verify cr (rp_chain x) (rf_trustChain s)"
  by (auto simp: rfc_verify_reply_def Let_def split: option.splits if_splits)

text \<open>The first certificate of the chain handed on is the signer's: an empty node verifies nothing.\<close>

definition pk_spec :: "'c asn1_lib \<Rightarrow> bool" where
  "pk_spec lib \<longleftrightarrow> (\<forall>t h sig. al_pk_verify lib None t h sig \<noteq> 0)"

lemma area_signed_crt: "pk_spec lib \<Longrightarrow> area_signed cr lib hash buf si area c \<Longrightarrow> \<exists>x. c = Some x"
  by (cases c) (auto simp: pk_spec_def area_signed_def Let_def split: option.splits)

text \<open>
  C5. With the parser in place: when the header processor lets an update through, the chain it
  verified against the trusted certificates starts with the certificate that signed the reply, the
  reply's content is covered by that signature, and the digest the payload is compared with is the
  one the reply states.
\<close>

theorem verified_update_is_signed:
  assumes "md_spec absorbed hash cr" "pk_spec lib"
    and "rfc_verify_reply (with_parser dbg cr lib sb bs0) blob s = (PROC_AGAIN, s')"
  shows "\<exists>reply area p signer rest x r q.
    reply_fields dbg lib blob sb bs0 = yields (reply, area) p \<and>
    mbedtls_x509_ts_reply_parse_der dbg cr lib sb bs0 blob = yields r q \<and>
    rf_reply s' = Some x \<and> rp_chain x = signer # rest \<and> crt_verify cr (rp_chain x) (rf_trustChain s) \<and>
    area_signed cr lib hash blob (tr_signer_info reply) area (Some signer) \<and>
    rp_payload_digest x = drop (ti_payload_digest (tr_ts_info reply)) blob \<and>
    MD_SHA256 \<le> md_type (ti_digest_type (tr_ts_info reply))"
proof -
  from rfc_verify_reply_again [OF assms(3)] obtain x where x:
    "parse_reply dbg cr lib sb bs0 blob = Some x" "rf_reply s' = Some x" "MD_SHA256 \<le> rp_digest_type x"
    "crt_verify cr (rp_chain x) (rf_trustChain s)"
    by (auto simp: with_parser_def)
  then obtain r q where r: "mbedtls_x509_ts_reply_parse_der dbg cr lib sb bs0 blob = yields r q"
      "x = ts_reply_of blob r"
    by (auto simp: parse_reply_Some)
  obtain reply area c chain digest p where f:
    "reply_fields dbg lib blob sb bs0 = yields (reply, area) p" "r = reply\<lparr>tr_chain := chain\<rparr>"
    "find_signer dbg cr lib blob (tr_signer_info r) (tr_chain reply) p = yields (Some c, chain) p"
    "signed_digest dbg cr blob (tr_signer_info r) area p = yields digest p"
    "verify_signature cr lib blob (Some c) (sa_digest_type area) digest (tr_signer_info r) p = yields () p"
    by (rule reply_accepted [OF r(1)])
  have a: "area_signed cr lib hash blob (tr_signer_info r) area c"
    by (rule verified_area [OF assms(1) f(4,5)])
  with area_signed_crt [OF assms(2)] obtain signer where c: "c = Some signer" by blast
  from signer_chosen [OF assms(1) f(3)] c obtain rest where "chain = Some signer # rest" by auto
  then have "rp_chain x = signer # List.map_filter (\<lambda>c. c) rest"
    using r(2) f(2) by (simp add: ts_reply_of_def List.map_filter_simps)
  with x r f(1,2) a c show ?thesis by (auto simp: ts_reply_of_def)
qed

section \<open>Failure information and texts\<close>

lemma index_of_0: "xs \<noteq> [] \<Longrightarrow> index_of (hd xs) xs = Some 0"
  by (cases xs) simp_all

text \<open>
  The first status text in the 2048 byte buffer: a shorter text is stored with its end marker,
  a longer one is cut - but a text of 2048 or 2049 bytes is written past the end of the buffer on the
  stack, because the test compares with one byte more than there is.
\<close>

theorem status_text_bounds:
  assumes "length sb = STATUS_BUFF_SIZE" "sb ! 0 = 0" "p + len \<le> length buf"
  shows "append_text sb buf p len =
    (if len = 0 then Inr sb
     else if len = STATUS_BUFF_SIZE \<or> len = STATUS_BUFF_SIZE + 1 then Inl OutOfBounds
     else let n = min len (STATUS_BUFF_SIZE - 1) in
       Inr (take n (drop p buf) @ 0 # drop (n + 1) sb))"
proof -
  have sb: "rd sb 0 = Inr 0" using assms(1,2) by (simp add: rd_def STATUS_BUFF_SIZE_def)
  let ?l = "if STATUS_BUFF_SIZE + 1 < len then int STATUS_BUFF_SIZE - 1 else int len"
  have a: "append_text sb buf p len = (if 0 < ?l then
       bind_res (bytes_at buf p (nat ?l)) (\<lambda>bs. bind_res (put_bytes sb 0 bs) (\<lambda>(sb, _). store_byte sb (nat ?l) 0))
     else Inr sb)"
    by (simp add: append_text_def sb Let_def)
  have st: "bind_res (bytes_at buf p n) (\<lambda>bs. bind_res (put_bytes sb 0 bs) (\<lambda>(sb, _). store_byte sb n 0)) =
      Inr (take n (drop p buf) @ 0 # drop (n + 1) sb)" if "n \<le> len" "n < length sb" for n
  proof -
    have "length (take n (drop p buf)) = n" using that assms(3) by simp
    then obtain bs where "take n (drop p buf) = bs" "length bs = n" by blast
    with that assms(3) show ?thesis
      by (simp add: bytes_at_def put_bytes_def store_byte_def list_update_append Cons_nth_drop_Suc [symmetric])
  qed
  consider "len = 0" | "0 < len" "len < STATUS_BUFF_SIZE" | "len = STATUS_BUFF_SIZE" | "len = STATUS_BUFF_SIZE + 1"
    | "STATUS_BUFF_SIZE + 1 < len" by linarith
  then show ?thesis
  proof cases
    case 2
    then have "min len (STATUS_BUFF_SIZE - 1) = len" by simp
    with 2 assms(1) st [of len] show ?thesis by (simp add: a)
  next
    case 5
    then have "nat ?l = STATUS_BUFF_SIZE - 1" "0 < ?l" by (simp_all add: STATUS_BUFF_SIZE_def)
    moreover from 5 have "min len (STATUS_BUFF_SIZE - 1) = STATUS_BUFF_SIZE - 1" by simp
    moreover from 5 assms(1) have "STATUS_BUFF_SIZE - 1 \<le> len" "STATUS_BUFF_SIZE - 1 < length sb"
      by (simp_all add: STATUS_BUFF_SIZE_def)
    ultimately show ?thesis using 5 st [of "STATUS_BUFF_SIZE - 1"] unfolding a
      by (simp add: Let_def del: One_nat_def)
  qed (use assms a in \<open>auto simp: bytes_at_def put_bytes_def store_byte_def STATUS_BUFF_SIZE_def\<close>)
qed

text \<open>The end marker of a second text is put_bytes at its length, not behind it: \<open>ok\<close>, \<open>x\<close> leaves \<open>o\<close>.\<close>

lemma second_status_text_cuts_first:
  "append_text (111 # 107 # 0 # y # ys) [120] 0 1 = Inr (111 # 0 # 10 # 120 # ys)"
  by (simp add: append_text_def rd_def strlen_at_def store_byte_def bytes_at_def put_bytes_def
      STATUS_BUFF_SIZE_def)

text \<open>
  A failure is reported by its bit, the first bit being the highest of the byte. The mask keeps
  the low bits instead of the high ones: \<open>badAlg\<close>, one bit with seven unused, is read as no failure.
\<close>

theorem bad_alg_is_lost:
  assumes "al_get_tag lib buf p (p + len) len ASN1_SEQUENCE = Inr (ret, q, n)" "ret \<noteq> 0"
    and "al_get_bitstring lib buf q (q + n) bs0 = Inr (0, r, \<lparr>bs_len = 1, bs_unused_bits = 7, bs_p = b\<rparr>)"
    and "b < length buf" "buf ! b = 0x80"
  shows "status_options dbg lib buf e sb bs0 p len = yields (sb, 0) r"
  using assms by (simp add: status_options_def)

text \<open>
  A \<open>TSTInfo\<close> with extensions stops the program: their tag is not the one that is asked for, so
  they are never skipped and the assertion that everything was read fails.
\<close>

theorem tsinfo_extensions_assert:
  assumes "mismatch_spec lib buf" "p < length buf" "p \<noteq> e"
  shows "bind_res (tsinfo_extensions lib buf p e len) (\<lambda>p. asserts (e = p) (yields out e)) = Inl AssertFailed"
proof (cases "and (buf ! p) 0xF = 1")
  case True
  then have "buf ! p \<noteq> ASN1_CONTEXT" by (auto simp: ASN1_CONTEXT_def)
  with assms(1,2) obtain ret where "ret \<noteq> 0" "al_get_tag lib buf p e len ASN1_CONTEXT = Inr (ret, p, len)"
    unfolding mismatch_spec_def by metis
  with True assms(2,3) show ?thesis by (simp add: tsinfo_extensions_def)
next
  case False
  with assms(2,3) show ?thesis by (simp add: tsinfo_extensions_def)
qed

end
