(* ===== verification/TsExample.thy ===== *)
theory TsExample
  imports TsReply
begin

text \<open>
  A reader of DER elements that keeps the promises of \<open>mbedtls_asn1_get_tag\<close>, a toy 
cryptographic
  library, and a complete reply of 197 bytes. With them the hypotheses of the properties of the
  reply parser are met, and the parser runs.
\<close>

section \<open>A DER reader\<close>

text \<open>Lengths below 128, and the long forms of one and two bytes.\<close>

definition der_len :: "u8 list \<Rightarrow> nat \<Rightarrow> nat \<Rightarrow> (nat \<times> 
nat) option" where
  "der_len buf p e =
     (if e \<le> p then None
      else if buf ! p < 0x80 then Some (p + 1, unat (buf ! p))
      else if buf ! p = 0x81 \<and> p + 1 < e then Some (p + 2, unat (buf ! (p + 1)))
      else if buf ! p = 0x82 \<and> p + 2 < e then Some (p + 3, unat (buf ! (p + 1)) * 256 + unat 
(buf ! (p + 2)))
      else None)"

definition der_get_tag :: "u8 list \<Rightarrow> nat \<Rightarrow> nat \<Rightarrow> nat 
\<Rightarrow> u8 \<Rightarrow> fault + int \<times> nat \<times> nat" where
  "der_get_tag buf p e n t =
     (if e \<le> p then Inr (- 0x60, p, n)
      else if length buf \<le> p then Inl OutOfBounds
      else if buf ! p \<noteq> t then Inr (- 0x62, p, n)
      else case der_len buf (p + 1) (min e (length buf)) of
             None \<Rightarrow> Inr (- 0x64, p + 1, n)
           | Some (q, m) \<Rightarrow> if q + m \<le> e then Inr (0, q, m) else Inr (- 0x60, p + 
1, m))"

definition der_get_int :: "u8 list \<Rightarrow> nat \<Rightarrow> nat \<Rightarrow> fault + int 
\<times> nat \<times> int" where
  "der_get_int buf p e =
     bind_res (der_get_tag buf p e 0 ASN1_INTEGER) (\<lambda>(ret, p, n).
       if ret \<noteq> 0 then Inr (ret, p, 0)
       else if n \<noteq> 1 then Inr (- 0x64, p, 0)
       else bind_res (rd buf p) (\<lambda>b. Inr (0, p + 1, uint b)))"

definition der_get_bitstring :: "u8 list \<Rightarrow> nat \<Rightarrow> nat \<Rightarrow> 
bitstring \<Rightarrow> fault + int \<times> nat \<times> bitstring" where
  "der_get_bitstring buf p e bs =
     bind_res (der_get_tag buf p e 0 ASN1_BIT_STRING) (\<lambda>(ret, p, n).
       if ret \<noteq> 0 then Inr (ret, p, bs)
       else if n = 0 then Inr (- 0x64, p, bs)
       else bind_res (rd buf p) (\<lambda>b.
         Inr (0, p + n, \<lparr>bs_len = n - 1, bs_unused_bits = unat b, bs_p = p + 1\<rparr>)))"

text \<open>
  One digest algorithm (42 is SHA-256), one key algorithm (43, whose number is also 6); 
certificates
  are the elements with tag 48; a signature is the digest itself.
\<close>

definition ex_lib :: "u8 list asn1_lib" where
  "ex_lib = \<lparr>
     al_get_tag = der_get_tag,
     al_get_int = der_get_int,
     al_get_bool = (\<lambda>buf p e. Inr (- 0x62, p, 0)),
     al_get_bitstring = der_get_bitstring,
     al_get_name = (\<lambda>buf p e. Inr (0, e, [])),
     al_oid_md = (\<lambda>oid. if oid = [42] then Some 6 else None),
     al_oid_pk = (\<lambda>oid. if oid = [43] then Some 6 else None),
     al_md_name = (\<lambda>t. [83, 72, 65]),
     al_crt_parse_der = (\<lambda>bs. case bs of
        t # n # r \<Rightarrow> if t = 48 \<and> unat n \<le> length r then Some (take (2 + unat 
n) bs) else None
      | _ \<Rightarrow> None),
     al_crt_raw = (\<lambda>c. c),
     al_calloc_crt = True,
     al_pk_verify = (\<lambda>c t h sig. if c \<noteq> None \<and> h = sig then 0 else - 
1)\<rparr>"

text \<open>The digest of a byte string is its last byte.\<close>

definition ts_hash :: "nat \<Rightarrow> u8 list \<Rightarrow> u8 list" where
  "ts_hash t bs = [if bs = [] then 0 else last bs]"

definition ts_crypto :: "(u8 list, nat \<times> u8 list) crypto" where
  "ts_crypto = \<lparr>
     ts_reply_parse = (\<lambda>blob. None),
     md_known = (\<lambda>t. True),
     md_get_size = (\<lambda>t. 1),
     md_start = map_option (\<lambda>t. (t, [])),
     md_starts = (\<lambda>d. (fst d, [])),
     md_update = (\<lambda>d bs. Some (fst d, snd d @ bs)),
     md_finish = (\<lambda>d. Some (ts_hash (fst d) (snd d))),
     crt_parse = (\<lambda>der. Inr [der]),
     crt_verify = (\<lambda>chain trusted. True),
     malloc_ok = (\<lambda>n. True),
     sizeof_crt = 0\<rparr>"

section \<open>A reply\<close>

definition ts_blob :: "u8 list" where
  "ts_blob =
    [48, 130, 0, 193, 48, 3, 2, 1, 0, 48, 130, 0, 184, 6, 9, 42, 134, 72, 134, 247, 13, 1, 7, 2, 
160, 130, 0, 169, 48, 130, 0, 165, 2, 1, 3, 49, 5, 48, 3, 6, 1, 42, 48, 52, 6, 11, 42, 134, 72, 
134, 247, 13, 1, 9, 16, 1, 4, 160, 37, 4, 35, 48, 33, 2, 1, 1, 6, 1, 1, 48, 8, 48, 3, 6, 1, 42, 
4, 1, 1, 2, 1, 5, 24, 12, 50, 48, 50, 52, 48, 48, 48, 48, 48, 48, 48, 48, 160, 3, 48, 1, 7, 49, 
94, 48, 92, 2, 1, 1, 48, 13, 48, 8, 0, 0, 0, 0, 0, 0, 0, 0, 2, 1, 5, 48, 3, 6, 1, 42, 160, 59, 
48, 24, 6, 11, 42, 134, 72, 134, 247, 13, 1, 9, 16, 2, 12, 49, 9, 48, 7, 48, 5, 48, 3, 4, 1, 7, 
48, 16, 6, 9, 42, 134, 72, 134, 247, 13, 1, 9, 4, 49, 3, 4, 1, 48, 48, 13, 6, 1, 9, 49, 8, 9, 9, 
9, 9, 9, 9, 9, 9, 48, 3, 6, 1, 42, 4, 1, 9]"

definition ts_bs :: bitstring where
  "ts_bs = \<lparr>bs_len = 0, bs_unused_bits = 0, bs_p = 0\<rparr>"

definition ts_result :: "u8 list tsreply" where
  "ts_result = \<lparr>tr_status = \<lparr>ps_status = 0, ps_statusString = None, ps_failInfo = - 1\<rparr>,
     tr_ts_info = \<lparr>ti_digest_type = 6, ti_payload_digest = 78, ti_payload_digest_len = 1,
       ti_signed_time = \<lparr>tm_year = 2024, tm_mon = 0, tm_day = 0, tm_hour = 0, tm_min = 0, tm_sec = 0\<rparr>\<rparr>,
     tr_signer_info = \<lparr>si_sid_name = [], si_sid_serial = \<lparr>bs_len = 1, bs_unused_bits = 0, bs_p = 122\<rparr>,
       si_sig_digest_type = 6, si_sig_digest = Some 173, si_sig_digest_len = 1, si_sig_type = 6,
       si_sig = Some 196, si_sig_len = 1, si_signed_attribute_raw = Some 128,
       si_signed_attribute_len = 61, si_signing_cert_hash_len = 1, si_signing_cert_hash_type = 4,
       si_signing_cert_hash = Some 155\<rparr>,
     tr_chain = [Some [48, 1, 7]]\<rparr>"

lemma ts_run: "mbedtls_x509_ts_reply_parse_der False ts_crypto ex_lib [0] ts_bs ts_blob = yields ts_result 197"
  by code_simp

section \<open>The promises of the libraries\<close>

lemma der_len_bounds: "der_len buf p e = Some (q, m) \<Longrightarrow> p < q"
  by (auto simp: der_len_def split: if_splits)

lemma der_tag_spec: "tag_spec ex_lib buf"
  unfolding tag_spec_def
proof (intro allI impI)
  fix p e n t assume e: "e \<le> length buf"
  show "\<exists>ret p' n'. al_get_tag ex_lib buf p e n t = Inr (ret, p', n') \<and>
      (p < e \<longrightarrow> p \<le> p' \<and> p' \<le> e) \<and> (e \<le> p \<longrightarrow> ret \<noteq> 0 \<and> p' = p) \<and>
      (ret = 0 \<longrightarrow> p < p' \<and> p' + n' \<le> e \<and> buf ! p = t)"
  proof (cases "p < e \<and> buf ! p = t")
    case False
    with e show ?thesis by (auto simp: ex_lib_def der_get_tag_def)
  next
    case True
    with e show ?thesis
      by (auto simp: ex_lib_def der_get_tag_def min_def split: option.split dest: der_len_bounds)
  qed
qed

lemma der_mismatch_spec: "mismatch_spec ex_lib buf"
  by (auto simp: mismatch_spec_def ex_lib_def der_get_tag_def)

lemma ex_crt_spec: "crt_spec ex_lib"
  unfolding crt_spec_def
proof (intro allI impI)
  fix bs c assume "al_crt_parse_der ex_lib bs = Some c"
  then obtain t n r where "bs = t # n # r" "c = take (2 + unat n) bs"
    by (auto simp: ex_lib_def split: list.splits if_splits)
  then show "\<exists>rest. bs = al_crt_raw ex_lib c @ rest \<and> al_crt_raw ex_lib c \<noteq> []"
    by (intro exI [of _ "drop (2 + unat n) bs"]) (simp add: ex_lib_def)
qed

lemma ex_pk_spec: "pk_spec ex_lib"
  by (simp add: pk_spec_def ex_lib_def)

lemma ts_md_spec: "md_spec (\<lambda>d. d) ts_hash ts_crypto"
  by (auto simp: md_spec_def ts_crypto_def ts_hash_def)

definition nat_mpi :: "nat mpi_lib" where
  "nat_mpi = \<lparr>mp_init = 0, mp_lset = (\<lambda>v z. (0, z)), mp_shift_l = (\<lambda>v k. (0, v * 2 ^ k))\<rparr>"

lemma nat_mpi_spec: "mpi_spec (\<lambda>v. v) nat_mpi"
  by (simp add: mpi_spec_def nat_mpi_def)

section \<open>What the signature does not cover\<close>

text \<open>
  The reply again, with the length of the octet string around the \<open>TSTInfo\<close> set to two and the
  digest in the signed attributes changed to match; \<open>x\<close> is the digest of the payload.
\<close>

definition open_reply :: "u8 \<Rightarrow> u8 list" where
  "open_reply x = ts_blob[60 := 2, 173 := 33, 78 := x]"


text \<open>A key algorithm in the place of the digest algorithms is taken for SHA-256.\<close>

lemma key_algorithm_taken_for_digest:
  "mbedtls_x509_ts_reply_parse_der False ts_crypto ex_lib [0] ts_bs (ts_blob[41 := 43, 75 := 43, 127 := 43, 193 := 43]) = yields ts_result 197"
  by code_simp

section \<open>Witnesses\<close>

lemma asn1_get_uint64_value_witness:
  "mbedtls_asn1_get_uint64 ex_lib [2, 3, 0, 1, 5] 0 5 = yields 261 5"
proof -
  have "al_get_tag ex_lib [2, 3, 0, 1, 5] 0 5 0 ASN1_INTEGER = Inr (0, 2, 3)" by code_simp
  from asn1_get_uint64_value [OF this] show ?thesis by (simp add: drop_Cons_numeral)
qed

lemma serial_mpi_keeps_last_byte_witness:
  "mbedtls_asn1_get_serial_mpi ex_lib nat_mpi [2, 2, 1, 5] 0 4 = yields 1280 4 \<and> (1280 :: nat) = 5 * 256"
proof -
  have t: "al_get_tag ex_lib [2, 2, 1, 5] 0 4 0 ASN1_INTEGER = Inr (0, 2, 2)" by code_simp
  have r: "mbedtls_asn1_get_serial_mpi ex_lib nat_mpi [2, 2, 1, 5] 0 4 = yields 1280 4" by code_simp
  from serial_mpi_keeps_last_byte [OF nat_mpi_spec t _ r] r show ?thesis by simp
qed

text \<open>\<open>20240131235958.5Z\<close>\<close>

lemma x509_parse_time_written_witness:
  "x509_parse_time ([24] @ time_text 2024 1 31 23 59 58 @ [46, 53, 90]) 1 17 4 x509_time_zero =
   yields \<lparr>tm_year = 2024, tm_mon = 1, tm_day = 31, tm_hour = 23, tm_min = 59, tm_sec = 58\<rparr> 18"
  using x509_parse_time_written [of 2024 1 31 23 59 58
      "[24] @ time_text 2024 1 31 23 59 58 @ [46, 53, 90] @ []" "[24]" "[46, 53, 90]" "[]" x509_time_zero]
  by simp

lemma algorithm_identifiers_total_witness:
  "mbedtls_asn1_get_algorithm_itentifiers ex_lib [48, 3, 6, 1, 42] 0 5 = Inl AssertFailed \<or>
   (\<exists>alg q. mbedtls_asn1_get_algorithm_itentifiers ex_lib [48, 3, 6, 1, 42] 0 5 = yields alg q \<and> 0 < q \<and> q \<le> 5)"
  by (rule algorithm_identifiers_total [OF der_tag_spec]) simp

lemma certificate_set_complete_witness:
  "\<exists>chain. mbedtls_asn1_get_certificate_set ex_lib [48, 1, 7, 48, 0] 0 5 [] = yields chain 5 \<and>
     chain_raw ex_lib chain = [48, 1, 7, 48, 0]"
proof -
  have "mbedtls_asn1_get_certificate_set ex_lib [48, 1, 7, 48, 0] 0 5 [] \<noteq> Inl AssertFailed" by code_simp
  with certificate_set_complete [OF ex_crt_spec, of 0 5 "[48, 1, 7, 48, 0]"] show ?thesis
    by (simp add: ex_lib_def)
qed

lemma crt_fprint_writes_witness:
  "let out = fprint_result 12 (fprint_text ex_lib None 6 [0xAB]) in
   fprint_put ex_lib (replicate 12 0) 12 None 6 [0xAB] = Inr (Some 12, out) \<and> length out = 12"
proof -
  have "fprint_result 12 (fprint_text ex_lib None 6 [0xAB]) = [83, 72, 65, 32, 102, 105, 110, 103, 46, 46, 46, 0]"
    by code_simp
  with crt_fprint_writes [of 12 "replicate 12 0" ex_lib None 6 "[0xAB]"] show ?thesis
    by (simp add: Let_def)
qed

lemma signed_attributes_total_witness:
  "regular (\<lambda>(o', n) q. 130 + 59 \<le> q \<and> si_within (130 + 59) o')
     (signed_attributes False ex_lib ts_blob (130 + 59) (Suc 59) 130 59 signer_info_zero)"
  by (rule signed_attributes_total [OF der_tag_spec]) (simp_all add: ts_blob_def signer_info_zero_def)

text \<open>A \<open>SigningCertificateV2\<close> with one \<open>ESSCertIDv2\<close>: hash algorithm and hash.\<close>

lemma signing_cert_v2_asserts_witness:
  "signing_cert_v2_attr False ex_lib [48, 12, 48, 10, 48, 8, 48, 3, 6, 1, 42, 4, 1, 7] 0 14 0 signer_info_zero
   = Inl AssertFailed"
  by (rule signing_cert_v2_asserts [OF der_mismatch_spec, where ?p1.0 = 2 and ?n1.0 = 12 and ?p2.0 = 4 and ?n2.0 = 10]; code_simp)

lemma find_signer_moves_to_front_witness:
  "find_signer False ts_crypto ex_lib [7]
     (signer_info_zero\<lparr>si_signing_cert_hash := Some 0, si_signing_cert_hash_len := 1, si_signing_cert_hash_type := 4\<rparr>)
     [Some [48, 1, 3], Some [48, 1, 7], Some [48, 1, 9]] 0 =
     yields (Some (Some [48, 1, 7]), [Some [48, 1, 7], Some [48, 1, 3], Some [48, 1, 9]]) 0 \<and>
   mset [Some [48, 1, 7], Some [48, 1, 3], Some [48, 1, 9 :: u8]] =
     mset [Some [48, 1, 3], Some [48, 1, 7], Some [48, 1, 9]]"
proof -
  have r: "find_signer False ts_crypto ex_lib [7]
     (signer_info_zero\<lparr>si_signing_cert_hash := Some 0, si_signing_cert_hash_len := 1, si_signing_cert_hash_type := 4\<rparr>)
     [Some [48, 1, 3], Some [48, 1, 7], Some [48, 1, 9]] 0 =
     yields (Some (Some [48, 1, 7]), [Some [48, 1, 7], Some [48, 1, 3], Some [48, 1, 9]]) 0"
    by code_simp
  with find_signer_moves_to_front [OF ts_md_spec r] show ?thesis by simp
qed

lemma accepted_reply_is_signed_witness:
  "\<exists>reply area p c. reply_fields False ex_lib ts_blob [0] ts_bs = yields (reply, area) p \<and>
     c = hd (tr_chain ts_result) \<and> area_signed ts_crypto ex_lib ts_hash ts_blob (tr_signer_info ts_result) area c"
  using accepted_reply_is_signed [OF ts_md_spec ts_run] by blast


lemma verified_update_is_signed_witness:
  "\<exists>s' x signer rest area. rfc_verify_reply (with_parser False ts_crypto ex_lib [0] ts_bs) ts_blob
     ((rfc_init ())\<lparr>rf_trustChain := [[48, 0]]\<rparr>) = (PROC_AGAIN, s') \<and>
   rf_reply s' = Some x \<and> rp_chain x = signer # rest \<and>
   area_signed ts_crypto ex_lib ts_hash ts_blob (tr_signer_info ts_result) area (Some signer)"
proof -
  let ?s = "(rfc_init ())\<lparr>rf_trustChain := [[48, 0]]\<rparr>"
  have "parse_reply False ts_crypto ex_lib [0] ts_bs ts_blob = Some (ts_reply_of ts_blob ts_result)"
    using ts_run by (auto simp: parse_reply_Some)
  then obtain s' where r: "rfc_verify_reply (with_parser False ts_crypto ex_lib [0] ts_bs) ts_blob ?s = (PROC_AGAIN, s')"
    by (simp add: rfc_verify_reply_def with_parser_def ts_reply_of_def ts_result_def ts_crypto_def
        md_type_def MD_SHA256_def rfc_init_def Let_def)
  have f: "reply_fields False ex_lib ts_blob [0] ts_bs =
      yields (ts_result, \<lparr>sa_data = 61, sa_len = 35, sa_digest_type = 6\<rparr>) 197"
    by code_simp
  from verified_update_is_signed [OF ts_md_spec ex_pk_spec r] r show ?thesis
    by (auto simp: f)
qed

lemma status_text_bounds_witness:
  "append_text (replicate 2048 0) (replicate 2048 65) 0 2048 = Inl OutOfBounds \<and>
   append_text (replicate 2048 0) [111, 107] 0 2 = Inr ([111, 107, 0] @ replicate 2045 0)"
proof -
  have z: "replicate 2048 0 ! 0 = (0 :: u8)" "length (replicate 2048 (0 :: u8)) = STATUS_BUFF_SIZE"
    by (simp_all add: STATUS_BUFF_SIZE_def)
  have "drop 3 (replicate 2048 (0 :: u8)) = replicate 2045 0" by simp
  with status_text_bounds [OF z(2,1), of 0 2048 "replicate 2048 65"]
    status_text_bounds [OF z(2,1), of 0 2 "[111, 107]"]
  show ?thesis by (simp add: STATUS_BUFF_SIZE_def numeral_3_eq_3)
qed

lemma bad_alg_is_lost_witness:
  "status_options False ex_lib [3, 2, 7, 128] 4 [0] ts_bs 0 4 = yields ([0], 0) 4"
  by (rule bad_alg_is_lost [where ret = "- 0x62" and q = 0 and n = 4 and b = 3]; code_simp)

lemma tsinfo_extensions_assert_witness:
  "bind_res (tsinfo_extensions ex_lib [0xA1, 0] 0 2 0) (\<lambda>p. asserts (2 = p) (yields () 2)) = Inl AssertFailed"
  by (rule tsinfo_extensions_assert [OF der_mismatch_spec]) simp_all

end
