(* ===== verification/ServiceOta.thy ===== *)
theory ServiceOta
  imports OtaExample
begin

text \<open>
  \<open>src/lib/service_ota/service_ota.cpp\<close>: the HTTP upload of a new firmware. The web server calls the
  handlers with what it received; what they do to the outside (responses, the LED state, restarts)
  is a list of actions. Readings of \<open>millis()\<close> and of the free flash space are arguments.
\<close>

section \<open>State and actions\<close>

datatype ota_action =
    HttpSend nat string string \<comment> \<open>status, content type, body\<close>
  | SetStateOTA
  | DelayMs nat
  | RestartEsp
  | ServerStop
  | ServerBegin

definition UPDATE_FAIL :: string where "UPDATE_FAIL = ''Update: fail''"
definition TEXT_PLAIN :: string where "TEXT_PLAIN = ''text/plain''"

text \<open>\<open>HTTP_MAX_POST_WAIT\<close> of the Arduino web server, in milliseconds.\<close>

definition HTTP_MAX_POST_WAIT :: nat where "HTTP_MAX_POST_WAIT = 5000"

definition chunkSize :: nat where "chunkSize = 102400"

text \<open>\<open>ot_next\<close> is the function's static \<open>next\<close>, the next progress milestone.\<close>

record ('p, 'f, 'part) ota =
  ot_updater :: "('p, 'f, 'part) updater"
  ot_uploadTimeout :: nat
  ot_next :: nat

type_synonym ('c, 'd) ota_proc = "('c, 'd, unit) rfc3161 device_check"

section \<open>Start-up\<close>

text \<open>Without a usable certificate the service stays off: no processor, no server.\<close>

definition ota_service_init ::
  "('c, 'd) crypto \<Rightarrow> ('f, 'part) hardware \<Rightarrow> u8 list \<Rightarrow> string \<Rightarrow> string \<Rightarrow>
   (unit, 'f, 'part) updater \<Rightarrow> 'f \<Rightarrow>
   (('c, 'd) ota_proc, 'f, 'part) ota option \<times> 'f \<times> ota_action list" where
  "ota_service_init cr hw key_chain model hwRev u f =
     (case addTrustedCerts cr key_chain (rfc_init ()) of (ret, rfcChecker) \<Rightarrow>
        if ret \<noteq> 0 then (None, f, [])
        else case setProcessor UpdateProcessorLegacy hw (device_check_init model hwRev rfcChecker) u f of
          (u', f') \<Rightarrow> (Some \<lparr>ot_updater = u', ot_uploadTimeout = 0, ot_next = chunkSize\<rparr>, f', [ServerBegin]))"

definition ota_loop :: "nat \<Rightarrow> ('p, 'f, 'part) ota \<Rightarrow> ota_action list" where
  "ota_loop millis s =
     (if ot_uploadTimeout s \<noteq> 0 \<and> millis > ot_uploadTimeout s
      then [ServerStop, DelayMs 500, RestartEsp] else [])"

definition max_sketch_size :: "u32 \<Rightarrow> u32" where
  "max_sketch_size freeSketchSpace = and (freeSketchSpace - 0x1000) 0xFFFFF000"

section \<open>The upload handlers\<close>

definition abortUpload ::
  "'p processor \<Rightarrow> ('f, 'part) hardware \<Rightarrow> nat \<Rightarrow> string \<Rightarrow> ('p, 'f, 'part) ota \<Rightarrow> 'f \<Rightarrow>
   ('p, 'f, 'part) ota \<times> 'f \<times> ota_action list" where
  "abortUpload P hw code content s f =
     (if \<not> hasError (ot_updater s) then
        (case updater_abort P hw (ot_updater s) f of (u, f') \<Rightarrow>
           (s\<lparr>ot_updater := u\<rparr>, f', [HttpSend code TEXT_PLAIN content]))
      else (s, f, [HttpSend code TEXT_PLAIN content]))"

definition upload_deadline :: "nat \<Rightarrow> nat" where
  "upload_deadline millis = (millis + HTTP_MAX_POST_WAIT + 2000) mod 2 ^ 32"

definition upload_start ::
  "'p processor \<Rightarrow> ('f, 'part) hardware \<Rightarrow> int \<Rightarrow> u32 \<Rightarrow> nat \<Rightarrow> ('p, 'f, 'part) ota \<Rightarrow> 'f \<Rightarrow>
   ('p, 'f, 'part) ota \<times> 'f \<times> ota_action list" where
  "upload_start P hw contentLength freeSketchSpace millis s f =
     (if contentLength \<le> 0 then abortUpload P hw 411 UPDATE_FAIL s f
      else let maxSketchSpace = max_sketch_size freeSketchSpace in
      if contentLength > uint maxSketchSpace then
        abortUpload P hw 413 (''Update: fail'' @ [CHR 0x0D, CHR 0x0A] @ ''Error: firmware file too big'') s f
      else case updater_begin P hw (unat maxSketchSpace) U_FLASH (- 1) False (ot_updater s) f of
        (ok, u, f1) \<Rightarrow>
          if \<not> ok then abortUpload P hw 400 UPDATE_FAIL (s\<lparr>ot_updater := u\<rparr>) f1
          else (s\<lparr>ot_updater := u, ot_next := chunkSize, ot_uploadTimeout := upload_deadline millis\<rparr>,
                f1, [SetStateOTA]))"

definition write_error_code :: "update_error \<Rightarrow> nat" where
  "write_error_code e =
     (case e of
        UPDATE_ERROR_SIZE \<Rightarrow> 413
      | UPDATE_ERROR_CHECKSUM \<Rightarrow> 400
      | UPDATE_ERROR_MAGIC_BYTE \<Rightarrow> 400
      | UPDATE_ERROR_BAD_ARGUMENT \<Rightarrow> 400
      | _ \<Rightarrow> 500)"

definition upload_write ::
  "'p processor \<Rightarrow> ('f, 'part) hardware \<Rightarrow> u8 list \<Rightarrow> nat \<Rightarrow> nat \<Rightarrow> ('p, 'f, 'part) ota \<Rightarrow> 'f \<Rightarrow>
   (fault + ('p, 'f, 'part) ota \<times> 'f \<times> ota_action list) option" where
  "upload_write P hw buf totalSize millis s f =
     (if hasError (ot_updater s) then Some (Inr (s, f, []))
      else map_option (\<lambda>r. bind_res r (\<lambda>(n, u, f1).
        let s1 = s\<lparr>ot_updater := u\<rparr> in
        if n \<noteq> length buf then
          (case abortUpload P hw (write_error_code (up_error u)) UPDATE_FAIL s1 f1 of
             (s2, f2, acts) \<Rightarrow> Inr (s2, f2, acts @ [DelayMs 500, RestartEsp]))
        else
          Inr (s1\<lparr>ot_next := (if ot_next s \<le> totalSize then ot_next s + chunkSize else ot_next s),
                  ot_uploadTimeout := upload_deadline millis\<rparr>, f1, [])))
        (updater_write P hw buf (ot_updater s) f))"

definition upload_end ::
  "'p processor \<Rightarrow> ('f, 'part) hardware \<Rightarrow> ('p, 'f, 'part) ota \<Rightarrow> 'f \<Rightarrow>
   fault + ('p, 'f, 'part) ota \<times> 'f" where
  "upload_end P hw s f =
     (let s0 = s\<lparr>ot_uploadTimeout := 0\<rparr> in
      bind_res (updater_end P hw True (ot_updater s0) f) (\<lambda>(ok, u, f1).
        if ok then
          (case updater_activate P hw u f1 of (_, u2, f2) \<Rightarrow> Inr (s0\<lparr>ot_updater := u2\<rparr>, f2))
        else if \<not> hasError u then
          (case updater_abort P hw u f1 of (u2, f2) \<Rightarrow> Inr (s0\<lparr>ot_updater := u2\<rparr>, f2))
        else Inr (s0\<lparr>ot_updater := u\<rparr>, f1)))"

definition upload_aborted ::
  "'p processor \<Rightarrow> ('f, 'part) hardware \<Rightarrow> ('p, 'f, 'part) ota \<Rightarrow> 'f \<Rightarrow>
   ('p, 'f, 'part) ota \<times> 'f \<times> ota_action list" where
  "upload_aborted P hw s f =
     (case abortUpload P hw 408 UPDATE_FAIL s f of
        (s1, f1, acts) \<Rightarrow> (s1, f1, acts @ [DelayMs 500, RestartEsp]))"

datatype upload_event =
    UPLOAD_FILE_START int u32 nat
  | UPLOAD_FILE_WRITE "u8 list" nat nat
  | UPLOAD_FILE_END
  | UPLOAD_FILE_ABORTED
  | UPLOAD_FILE_UNKNOWN

definition upload_handler ::
  "'p processor \<Rightarrow> ('f, 'part) hardware \<Rightarrow> upload_event \<Rightarrow> ('p, 'f, 'part) ota \<Rightarrow> 'f \<Rightarrow>
   (fault + ('p, 'f, 'part) ota \<times> 'f \<times> ota_action list) option" where
  "upload_handler P hw ev s f =
     (case ev of
        UPLOAD_FILE_START contentLength free millis \<Rightarrow>
          Some (Inr (upload_start P hw contentLength free millis s f))
      | UPLOAD_FILE_WRITE buf totalSize millis \<Rightarrow> upload_write P hw buf totalSize millis s f
      | UPLOAD_FILE_END \<Rightarrow> Some (bind_res (upload_end P hw s f) (\<lambda>(s', f'). Inr (s', f', [])))
      | UPLOAD_FILE_ABORTED \<Rightarrow> Some (Inr (upload_aborted P hw s f))
      | UPLOAD_FILE_UNKNOWN \<Rightarrow> Some (Inr (s\<lparr>ot_uploadTimeout := 0\<rparr>, f, [])))"

text \<open>The handler of the completed \<open>POST\<close> request.\<close>

definition upload_response :: "('p, 'f, 'part) ota \<Rightarrow> ota_action list" where
  "upload_response s =
     [HttpSend (if hasError (ot_updater s) then 400 else 200) TEXT_PLAIN
        (if hasError (ot_updater s) then UPDATE_FAIL else ''Update: OK!''),
      DelayMs 500, RestartEsp]"

section \<open>The status page\<close>

definition getTableLine :: "nat \<Rightarrow> string \<Rightarrow> string \<Rightarrow> string" where
  "getTableLine len name val =
     snprintf len (''<li><div class=\"title\">'' @ name @ ''</div><div class=\"content\">'' @ val @ ''</div></li>'')"

datatype reset_reason =
    POWERON_RESET | SW_RESET | OWDT_RESET | DEEPSLEEP_RESET | SDIO_RESET | TG0WDT_SYS_RESET
  | TG1WDT_SYS_RESET | RTCWDT_SYS_RESET | INTRUSION_RESET | TGWDT_CPU_RESET | SW_CPU_RESET
  | RTCWDT_CPU_RESET | EXT_CPU_RESET | RTCWDT_BROWN_OUT_RESET | RTCWDT_RTC_RESET | OTHER_RESET

fun getResetReason :: "reset_reason \<Rightarrow> string" where
  "getResetReason POWERON_RESET = ''Power on reset''"
| "getResetReason SW_RESET = ''Software reset digital core''"
| "getResetReason OWDT_RESET = ''Legacy watch dog reset digital core''"
| "getResetReason DEEPSLEEP_RESET = ''Deep sleep reset digital core''"
| "getResetReason SDIO_RESET = ''Reset by SLC module, reset digital core''"
| "getResetReason TG0WDT_SYS_RESET = ''Timer group0 watch dog reset digital core''"
| "getResetReason TG1WDT_SYS_RESET = ''Timer group1 watch dog reset digital core''"
| "getResetReason RTCWDT_SYS_RESET = ''RTC watch dog reset digital core''"
| "getResetReason INTRUSION_RESET = ''Instrusion tested to reset CPU''"
| "getResetReason TGWDT_CPU_RESET = ''Timer group reset CPU''"
| "getResetReason SW_CPU_RESET = ''Software reset CPU''"
| "getResetReason RTCWDT_CPU_RESET = ''RTC watch dog reset CPU''"
| "getResetReason EXT_CPU_RESET = ''External CPU reset''"
| "getResetReason RTCWDT_BROWN_OUT_RESET = ''Voltage unstable reset''"
| "getResetReason RTCWDT_RTC_RESET = ''RTC watch dog reset digital core and RTC module''"
| "getResetReason OTHER_RESET = ''Unknown reset reason''"

text \<open>The page lists its rows between the header and the footer resource; the time only with NTP.\<close>

definition status_page ::
  "string \<Rightarrow> string \<Rightarrow> (string \<times> string) list \<Rightarrow> string option \<Rightarrow> string" where
  "status_page status_header status_footer rows time =
     status_header @ concat (map (\<lambda>(name, val). getTableLine 200 name val) rows) @
     (case time of None \<Rightarrow> [] | Some t \<Rightarrow> getTableLine 200 ''Time'' t) @ status_footer"

definition status_rows ::
  "string \<Rightarrow> string \<Rightarrow> string \<Rightarrow> string \<Rightarrow> string \<Rightarrow> string \<Rightarrow> nat \<Rightarrow> string \<Rightarrow> reset_reason \<Rightarrow>
   (string \<times> string) list" where
  "status_rows friendlyName hostname version serial model revision freeHeap uptime reason =
     [(''Name'', friendlyName), (''Hostname'', hostname), (''Version'', version), (''Serial'', serial),
      (''Model'', model), (''Revision'', revision), (''Free heap'', show_nat freeHeap),
      (''Uptime'', uptime), (''Reset reason'', getResetReason reason)]"

text \<open>
  A short value is shown completely and as it is: a friendly name, which has at most 40 characters
  and is set over the network, can hold markup.
\<close>

lemma getTableLine_verbatim:
  assumes "length name + length val < 139"
  shows "getTableLine 200 name val =
    ''<li><div class=\"title\">'' @ name @ ''</div><div class=\"content\">'' @ val @ ''</div></li>''"
  using assms by (simp add: getTableLine_def snprintf_def)

section \<open>What an upload can change\<close>

fun run_upload ::
  "'p processor \<Rightarrow> ('f, 'part) hardware \<Rightarrow> upload_event list \<Rightarrow> ('p, 'f, 'part) ota \<Rightarrow> 'f \<Rightarrow>
   (fault + ('p, 'f, 'part) ota \<times> 'f \<times> ota_action list) option" where
  "run_upload P hw [] s f = Some (Inr (s, f, []))"
| "run_upload P hw (ev # evs) s f =
     (case upload_handler P hw ev s f of
        Some (Inr (s1, f1, acts)) \<Rightarrow>
          map_option (\<lambda>r. bind_res r (\<lambda>(s2, f2, acts2). Inr (s2, f2, acts @ acts2)))
            (run_upload P hw evs s1 f1)
      | r \<Rightarrow> r)"

text \<open>
  One step of the service, for the updater and the flash before and after: the gate stays shut or
  open, and as long as it is shut only the first byte of a partition can have changed.
\<close>

definition beyond_first :: "('f \<Rightarrow> 'part \<Rightarrow> nat \<Rightarrow> u8) \<Rightarrow> 'f \<Rightarrow> 'part \<Rightarrow> nat \<Rightarrow> u8" where
  "beyond_first contents f = (\<lambda>p i. contents f p (Suc i))"

lemma beyond_first_cong: "contents f = contents g \<Longrightarrow> beyond_first contents f = beyond_first contents g"
  by (simp add: beyond_first_def)

definition gated_step ::
  "('s \<Rightarrow> bool) \<Rightarrow> ('s \<Rightarrow> bool) \<Rightarrow> ('f \<Rightarrow> 'part \<Rightarrow> nat \<Rightarrow> u8) \<Rightarrow>
   ('s, 'f, 'part) updater \<times> 'f \<Rightarrow> ('s, 'f, 'part) updater \<times> 'f \<Rightarrow> bool" where
  "gated_step Inv Verified contents st st' \<longleftrightarrow>
     (\<forall>c. gate Inv Verified (beyond_first contents) c st \<longrightarrow>
          gate Inv Verified (beyond_first contents) c st')"

lemma gated_step_refl [simp]: "gated_step Inv Verified contents st st"
  by (simp add: gated_step_def)

lemma gated_step_trans:
  "gated_step Inv Verified contents st st' \<Longrightarrow> gated_step Inv Verified contents st' st'' \<Longrightarrow>
   gated_step Inv Verified contents st st''"
  by (simp add: gated_step_def)

context gated_processor
begin

lemma gated_stepI:
  assumes "\<And>c. gate Inv Verified contents c (u, f) \<Longrightarrow> gate Inv Verified contents c st'"
  shows "gated_step Inv Verified contents (u, f) st'"
proof (unfold gated_step_def, intro allI impI)
  fix c
  let ?m = "beyond_first contents"
  assume g: "gate Inv Verified ?m c (u, f)"
  obtain u' f' where st': "st' = (u', f')" by (cases st')
  have here: "gate Inv Verified contents (contents f) (u, f)"
    using g by (simp add: gate_def)
  note after = assms [OF here, unfolded st']
  show "gate Inv Verified ?m c st'"
  proof (cases "Verified (up_processor u)")
    case False
    with g have "c = ?m f" by (simp add: gate_def)
    with after st' show ?thesis
      using beyond_first_cong [of contents f' f] by (auto simp: gate_def)
  next
    case True
    then have any: "gate Inv Verified contents c' (u, f)" for c'
      using g by (simp add: gate_def)
    have "Verified (up_processor u')"
    proof (rule ccontr)
      assume "\<not> Verified (up_processor u')"
      with assms [OF any, unfolded st'] have eq: "contents f' = c'" for c'
        by (simp add: gate_def)
      have "contents f' p i = 0" for p i by (subst eq [of "\<lambda>_ _. 0"]) (rule refl)
      moreover have "contents f' p i = 1" for p i by (subst eq [of "\<lambda>_ _. 1"]) (rule refl)
      ultimately show False by (metis zero_neq_one)
    qed
    with after st' show ?thesis by (simp add: gate_def)
  qed
qed

lemma gated_activate:
  assumes "flash_spec contents boot hw"
  shows "gated_step Inv Verified contents (u, f) (snd (updater_activate P hw u f))"
proof -
  let ?m = "beyond_first contents"
  have same: "?m f1 = ?m f" if "enablePartition hw f prt = Some f1" for f1 prt
  proof -
    from that obtain p buf where b: "fl_read4 hw f p = Some buf"
        "fl_write hw f p 0 (ESP_IMAGE_HEADER_MAGIC # tl buf) = Some f1"
      by (auto simp: enablePartition_def split: option.splits)
    have "tl buf = map (contents f p) [1..<4]"
      using flash_read4 [OF assms b(1)] by (simp add: upt_rec)
    with flash_write [OF assms b(2)] show ?thesis
      by (auto simp: fun_eq_iff beyond_first_def)
  qed
  have gpio: "?m (gpio_write hw g pin v) = ?m g" for g pin v
    by (simp add: beyond_first_def flash_gpio(2) [OF assms])
  have step: "gated_step Inv Verified contents (u, f) (updater_reset P hw u g)"
    "gated_step Inv Verified contents (u, f) (updater_abort_with P hw err u g)"
    if "?m g = ?m f" for g err
    using that reset_gate [of "up_processor u"] gpio
    by (auto simp: gated_step_def gate_def updater_reset_def updater_abort_with_def)
  have boot: "?m g = ?m f1" if "fl_set_boot hw f1 prt = Some g" for g f1 prt
    using beyond_first_cong flash_set_boot [OF assms that] by metis
  show ?thesis
    by (auto simp: updater_activate_def step same boot bind_eq_Some_conv
        split: option.split intro!: step dest!: same boot)
qed

lemma gated_begin:
  assumes "flash_spec contents boot hw" "updater_begin P hw sz cmd pin lvl u f = (ok, st')"
  shows "gated_step Inv Verified contents (u, f) st'"
  by (rule gated_stepI) (use gate_begin [OF assms(1)] assms(2) in \<open>metis snd_conv\<close>)

lemma gated_abort:
  assumes "flash_spec contents boot hw"
  shows "gated_step Inv Verified contents (u, f) (updater_abort P hw u f)"
  unfolding updater_abort_def by (rule gated_stepI) (rule gate_abort [OF assms])

lemma gated_write:
  assumes "flash_spec contents boot hw" "updater_write P hw data u f = Some (Inr (n, st'))"
  shows "gated_step Inv Verified contents (u, f) st'"
  by (rule gated_stepI) (rule gate_write [OF assms(1) _ assms(2)])

lemma gated_end:
  assumes "flash_spec contents boot hw" "updater_end P hw b u f = Inr (r, st')"
  shows "gated_step Inv Verified contents (u, f) st'"
  by (rule gated_stepI) (rule gate_end [OF assms(1) _ assms(2)])

lemma gated_abortUpload:
  assumes "flash_spec contents boot hw" "abortUpload P hw code content s f = (s', f', acts)"
  shows "gated_step Inv Verified contents (ot_updater s, f) (ot_updater s', f')"
  using assms(2) gated_abort [OF assms(1), of "ot_updater s" f]
  by (auto simp: abortUpload_def split: if_splits prod.splits)

lemma gated_start:
  assumes "flash_spec contents boot hw"
    and "upload_start P hw contentLength free millis s f = (s', f', acts)"
  shows "gated_step Inv Verified contents (ot_updater s, f) (ot_updater s', f')"
proof -
  obtain ok u f1 where b: "updater_begin P hw (unat (max_sketch_size free)) U_FLASH (- 1) False
      (ot_updater s) f = (ok, u, f1)"
    by (metis prod_cases3)
  note step = gated_begin [OF assms(1) b]
  have "gated_step Inv Verified contents (u, f1) (ot_updater s', f')"
    if "abortUpload P hw 400 UPDATE_FAIL (s\<lparr>ot_updater := u\<rparr>) f1 = (s', f', acts)"
    using gated_abortUpload [OF assms(1) that] by simp
  with assms(2) b step gated_abortUpload [OF assms(1), of _ _ s f s' f' acts] gated_step_trans [OF step]
  show ?thesis by (auto simp: upload_start_def Let_def split: if_splits)
qed

lemma gated_upload_write:
  assumes "flash_spec contents boot hw"
    and "upload_write P hw buf totalSize millis s f = Some (Inr (s', f', acts))"
  shows "gated_step Inv Verified contents (ot_updater s, f) (ot_updater s', f')"
proof (cases "hasError (ot_updater s)")
  case True
  with assms(2) show ?thesis by (simp add: upload_write_def)
next
  case False
  with assms(2) obtain n u f1 where w: "updater_write P hw buf (ot_updater s) f = Some (Inr (n, u, f1))"
    by (auto simp: upload_write_def bind_res_Inr_iff)
  note step = gated_write [OF assms(1) w]
  have "gated_step Inv Verified contents (u, f1) (ot_updater s', f')"
    if "abortUpload P hw (write_error_code (up_error u)) UPDATE_FAIL (s\<lparr>ot_updater := u\<rparr>) f1 = (s', f', a)" for a
    using gated_abortUpload [OF assms(1) that] by simp
  with assms(2) False w step gated_step_trans [OF step] show ?thesis
    by (auto simp: upload_write_def Let_def split: if_splits prod.splits)
qed

lemma gated_upload_end:
  assumes "flash_spec contents boot hw" "upload_end P hw s f = Inr (s', f')"
  shows "gated_step Inv Verified contents (ot_updater s, f) (ot_updater s', f')"
proof -
  from assms(2) obtain ok u f1 where e: "updater_end P hw True (ot_updater s) f = Inr (ok, u, f1)"
    by (auto simp: upload_end_def bind_res_Inr_iff Let_def)
  note step = gated_step_trans [OF gated_end [OF assms(1) e]]
  obtain b u2 f2 where a: "updater_activate P hw u f1 = (b, u2, f2)" by (metis prod_cases3)
  obtain u3 f3 where ab: "updater_abort P hw u f1 = (u3, f3)" by fastforce
  have "gated_step Inv Verified contents (u, f1) (u2, f2)" "gated_step Inv Verified contents (u, f1) (u3, f3)"
    using gated_activate [OF assms(1), of u f1] a gated_abort [OF assms(1), of u f1] ab by simp_all
  with assms(2) e a ab step gated_end [OF assms(1) e] show ?thesis
    by (auto simp: upload_end_def Let_def split: if_splits)
qed

lemma gated_handler:
  assumes "flash_spec contents boot hw" "upload_handler P hw ev s f = Some (Inr (s', f', acts))"
  shows "gated_step Inv Verified contents (ot_updater s, f) (ot_updater s', f')"
proof (cases ev)
  case (UPLOAD_FILE_START n free t)
  with assms show ?thesis by (auto simp: upload_handler_def intro: gated_start)
next
  case (UPLOAD_FILE_WRITE b total t)
  with assms show ?thesis by (auto simp: upload_handler_def intro: gated_upload_write)
next
  case UPLOAD_FILE_END
  with assms show ?thesis by (auto simp: upload_handler_def bind_res_Inr_iff intro: gated_upload_end)
next
  case UPLOAD_FILE_ABORTED
  with assms show ?thesis
    by (auto simp: upload_handler_def upload_aborted_def intro: gated_abortUpload split: prod.splits)
next
  case UPLOAD_FILE_UNKNOWN
  with assms show ?thesis by (auto simp: upload_handler_def)
qed

lemma gated_run:
  assumes "flash_spec contents boot hw" "run_upload P hw evs s f = Some (Inr (s', f', acts))"
  shows "gated_step Inv Verified contents (ot_updater s, f) (ot_updater s', f')"
  using assms(2)
proof (induction evs arbitrary: s f acts)
  case Nil
  then show ?case by simp
next
  case (Cons ev evs)
  then obtain s1 f1 a1 a2 where
      "upload_handler P hw ev s f = Some (Inr (s1, f1, a1))"
      "run_upload P hw evs s1 f1 = Some (Inr (s', f', a2))"
    by (auto simp: bind_res_Inr_iff split: option.splits sum.splits prod.splits)
  with Cons.IH gated_handler [OF assms(1)] gated_step_trans show ?case by blast
qed

end

section \<open>Properties of the update service\<close>

lemma ota_service_init_chain:
  assumes "ota_service_init cr hw key_chain model hwRev UpdateClassEx f = (Some s, f1, acts)"
  shows "\<exists>certs. up_processor (ot_updater s) = ota_chain model hwRev certs \<and>
    \<not> up_post_header (ot_updater s) \<and> up_progress_callback (ot_updater s) = None"
proof -
  obtain rfcChecker where r: "addTrustedCerts cr key_chain (rfc_init ()) = (0, rfcChecker)"
      "ot_updater s = fst (setProcessor UpdateProcessorLegacy hw (device_check_init model hwRev rfcChecker) UpdateClassEx f)"
    using assms by (auto simp: ota_service_init_def split: prod.splits if_splits)
  then obtain certs where "rfcChecker = (rfc_init ())\<lparr>rf_trustChain := certs\<rparr>"
    by (auto simp: addTrustedCerts_def X509_ALLOC_FAILED_def rfc_init_def split: if_splits sum.splits)
  with r(2) show ?thesis
    by (auto simp: setProcessor_def updater_reset_def UpdateClassEx_def ota_chain_def)
qed


text \<open>Data that does not fill the sector buffer is only stored.\<close>

lemma write_stored:
  assumes "up_buffer u = Some buf" "length buf = SPI_FLASH_SEC_SIZE" "isRunning u" "\<not> hasError u"
    and "up_bufferLen u + length data < SPI_FLASH_SEC_SIZE" "up_bufferLen u + length data < remaining u"
  shows "updater_write P hw data u f = Some (Inr (length data,
    u\<lparr>up_buffer := Some (take (up_bufferLen u) buf @ data @ drop (up_bufferLen u + length data) buf),
      up_bufferLen := up_bufferLen u + length data\<rparr>, f))"
proof (cases "data = []")
  case True
  with assms show ?thesis by (subst updater_write_def, subst write_loop.simps) simp
next
  case False
  let ?u = "u\<lparr>up_buffer := Some (take (up_bufferLen u) buf @ data @ drop (up_bufferLen u + length data) buf),
      up_bufferLen := up_bufferLen u + length data\<rparr>"
  have fill: "fill_buffer data 0 u = Inr (length data, ?u)"
    using assms(1,2,5) by (simp add: fill_buffer_def Let_def)
  have flush: "flush_if_full P hw ?u f = Inr (True, ?u, f)"
    using assms(5,6) by (simp add: flush_if_full_def remaining_def)
  have fin: "write_loop P hw data (length data) ?u f = Some (Inr (length data, ?u, f))"
    by (subst write_loop.simps) simp
  have "write_loop P hw data 0 u f = Some (Inr (length data, ?u, f))"
    using False by (subst write_loop.simps) (simp add: fill flush fin)
  with assms(3-6) show ?thesis by (simp add: updater_write_def)
qed

definition ex_ota ::
  "(nat \<Rightarrow> u8) \<times> unit option \<Rightarrow> ((unit, nat \<times> u8 list) ota_proc, (nat \<Rightarrow> u8) \<times> unit option, unit) ota" where
  "ex_ota f = the (fst (ota_service_init ex_crypto ex_hw [] ''UCD2'' ''5.4'' UpdateClassEx f))"

lemma ex_ota: "ex_ota f = \<lparr>ot_updater = ex_fresh (device_check_init ''UCD2'' ''5.4'' ex_s0),
    ot_uploadTimeout = 0, ot_next = chunkSize\<rparr>"
  by (simp add: ex_ota_def ota_service_init_def addTrustedCerts_def ex_crypto_def setProcessor_def
      updater_reset_def UpdateClassEx_def ex_hw_def ex_fresh_def ex_s0_def rfc_init_def)

lemma ex_start:
  assumes "0 < n" "n \<le> 0x100000"
  shows "upload_start (ota_processor ex_crypto) ex_hw n 0x101000 0 (ex_ota f0) f =
     (\<lparr>ot_updater = ex_u (device_check_init ''UCD2'' ''5.4'' ex_s0) (replicate 4096 0) 0 0 False,
       ot_uploadTimeout = 7000, ot_next = chunkSize\<rparr>, f, [SetStateOTA])"
proof -
  have m: "max_sketch_size 0x101000 = 0x100000" by (simp add: max_sketch_size_def)
  have r: "pr_reset (ota_processor ex_crypto) s = s" for s by (simp add: ota_processor_def)
  show ?thesis
    using assms ex_begin [of "ota_processor ex_crypto" "device_check_init ''UCD2'' ''5.4'' ex_s0" f]
    by (simp add: upload_start_def m ex_ota ex_fresh_def r upload_deadline_def HTTP_MAX_POST_WAIT_def)
qed

text \<open>Ending an update whose header was never complete.\<close>

lemma ex_end_incomplete:
  assumes "n < 128" "length buf = 4096" "fst f 0 = 0xE9"
  shows "\<exists>s'. upload_end (ota_processor ex_crypto) ex_hw
      \<lparr>ot_updater = ex_u (device_check_init ''UCD2'' ''5.4'' ex_s0) buf n 0 False,
       ot_uploadTimeout = t, ot_next = m\<rparr> f = Inr (s', (fst f, Some ())) \<and> \<not> hasError (ot_updater s')"
proof -
  let ?P = "ota_processor ex_crypto" and ?d = "device_check_init ''UCD2'' ''5.4'' ex_s0"
  have hdr: "pr_header ?P ?d U_FLASH buf n = Inr (PROC_AGAIN, ?d, buf, n)"
    using assms(1)
    by (simp add: ota_processor_def dc_process_header_def device_check_init_def kMaxHeaderLength_def)
  have "sub32 n n = 0" using assms(1) by (subst sub32_exact) simp_all
  then have w: "writeBuffer ?P ex_hw (ex_u ?d buf n 0 False) f = Inr (True, ex_u ?d buf n 0 False, f)"
    using hdr assms(1)
    by (simp add: writeBuffer_def writeBuffer_header_def Let_def SPI_FLASH_SEC_SIZE_def add32_def)
  let ?u = "(ex_u ?d buf n 0 False)\<lparr>up_size := 0\<rparr>"
  have "pr_end ?P ?d = Inr (PROC_OK, ?d)" by (simp add: ota_processor_def)
  then have "end_process ?P ex_hw ?u f = Inr (True, ?u, f)"
    by (simp add: end_process_def ex_u_def)
  then have e: "updater_end ?P ex_hw True (ex_u ?d buf n 0 False) f = Inr (True, ?u, f)"
    by (cases "n = 0") (simp_all add: updater_end_def end_flush_def w hasError_def)
  have same: "(\<lambda>i. if i < 4 then and (fst f i) ((0xE9 # map (fst f) [Suc 0..<4]) ! i) else fst f i) = fst f"
    using assms(3) by (auto simp: fun_eq_iff nth_Cons')
  have tl: "tl (map (fst f) [0..<4]) = map (fst f) [Suc 0..<4]" by (simp add: upt_rec)
  have enable: "enablePartition ex_hw f (Some ()) = Some f"
    by (simp add: enablePartition_def ex_hw_def tl ESP_IMAGE_HEADER_MAGIC_def same cong: if_cong)
  have boot: "partitionIsBootable ex_hw f (Some ())"
    using assms(3) by (simp add: partitionIsBootable_def ex_hw_def upt_rec ESP_IMAGE_HEADER_MAGIC_def)
  have "\<exists>u'. updater_activate ?P ex_hw ?u f = (True, u', (fst f, Some ())) \<and> \<not> hasError u'"
    by (simp add: updater_activate_def enable boot)
      (simp add: ex_hw_def updater_reset_def hasError_def)
  then obtain u' where "updater_activate ?P ex_hw ?u f = (True, u', (fst f, Some ()))" "\<not> hasError u'"
    by blast
  with e show ?thesis by (simp add: upload_end_def)
qed

text \<open>
  C25. Any upload of fewer than 128 bytes, signed or not, makes the device boot the firmware that is
  in the other slot: the header never becomes complete, \<open>process_header\<close> keeps answering AGAIN,
  \<open>end(true)\<close> truncates the size to the progress and succeeds, and \<open>activate\<close> switches the boot
  partition to the old image, which is left unchanged. The client is told that the update is OK.
\<close>

theorem short_upload_boots_other_slot:
  assumes "length data < 128" "fst f 0 = ESP_IMAGE_HEADER_MAGIC"
  shows "\<exists>s' f'. run_upload (ota_processor ex_crypto) ex_hw
      [UPLOAD_FILE_START 200 0x101000 0, UPLOAD_FILE_WRITE data (length data) 0, UPLOAD_FILE_END]
      (ex_ota f) f = Some (Inr (s', f', [SetStateOTA])) \<and>
    ex_contents f' = ex_contents f \<and> snd f' = Some () \<and>
    upload_response s' = [HttpSend 200 TEXT_PLAIN ''Update: OK!'', DelayMs 500, RestartEsp]"
proof -
  let ?P = "ota_processor ex_crypto" and ?d = "device_check_init ''UCD2'' ''5.4'' ex_s0"
  let ?u = "ex_u ?d (replicate 4096 0) 0 0 False"
  let ?b = "data @ drop (length data) (replicate 4096 0)"
  have w: "updater_write ?P ex_hw data ?u f = Some (Inr (length data, ex_u ?d ?b (length data) 0 False, f))"
    using write_stored [of ?u "replicate 4096 0" data ?P ex_hw f] assms(1)
    by (simp add: SPI_FLASH_SEC_SIZE_def isRunning_def hasError_def remaining_def sub32_def)
  have "length ?b = 4096" using assms(1) by simp
  from ex_end_incomplete [OF assms(1) this, where f = f and t = 7000 and m = chunkSize] assms(2) obtain s' where e:
      "upload_end ?P ex_hw \<lparr>ot_updater = ex_u ?d ?b (length data) 0 False, ot_uploadTimeout = 7000,
         ot_next = chunkSize\<rparr> f = Inr (s', (fst f, Some ()))" "\<not> hasError (ot_updater s')"
    by (auto simp: ESP_IMAGE_HEADER_MAGIC_def)
  have "chunkSize > length data" using assms(1) by (simp add: chunkSize_def)
  with w e show ?thesis
    by (simp add: upload_handler_def ex_start upload_write_def hasError_def upload_deadline_def
        HTTP_MAX_POST_WAIT_def upload_response_def ex_contents_def fun_eq_iff)
qed

theorem short_upload_boots_other_slot_witness:
  "\<exists>s' f'. run_upload (ota_processor ex_crypto) ex_hw
      [UPLOAD_FILE_START 200 0x101000 0, UPLOAD_FILE_WRITE [1, 2, 3] 3 0, UPLOAD_FILE_END]
      (ex_ota (\<lambda>_. 0xE9, None)) (\<lambda>_. 0xE9, None) = Some (Inr (s', f', [SetStateOTA])) \<and>
    ex_contents f' = ex_contents (\<lambda>_. 0xE9, None) \<and> snd f' = Some () \<and>
    upload_response s' = [HttpSend 200 TEXT_PLAIN ''Update: OK!'', DelayMs 500, RestartEsp]"
  using short_upload_boots_other_slot [of "[1, 2, 3]" "(\<lambda>_. 0xE9, None)"]
  by (simp add: ESP_IMAGE_HEADER_MAGIC_def numeral_3_eq_3 del: run_upload.simps)


end
