(* ===== verification/LedControl.thy ===== *)
theory LedControl
  imports Platform Util
begin

text \<open>
  \<open>src/lib/led_control\<close> and \<open>src/lib/state/states.h\<close>: the status LED. \<open>setState\<close> turns a state into
  bits of an event group; the LED task shows, one blink cycle after the other, the pattern of the
  bit with the highest priority. A cycle is a list of actions; the event bits read while it runs
  come from outside and are the function \<open>poll\<close> (the \<open>i\<close>-th reading). Arduino's \<open>map\<close> is the
  argument \<open>scale\<close>.
\<close>

section \<open>States\<close>

datatype States =
    NOT_SET | TEST_LED_RED | TEST_LED_GREEN | TEST_LED_BLUE | STARTUP | SETUP | CONNECTING
  | CONN_SUCCESS | NORMAL | NORMAL_CHARGING | ERROR | LED_SETUP | NORMAL_FULLYCHARGED
  | NORMAL_LOWBATTERY | OTA | IDENTIFY | IR_LEARNING | IR_LEARN_OK | IR_LEARN_FAILED

definition TEST_MODE_RED_BIT :: u32 where "TEST_MODE_RED_BIT = 2 ^ 0"
definition TEST_MODE_GREEN_BIT :: u32 where "TEST_MODE_GREEN_BIT = 2 ^ 1"
definition TEST_MODE_BLUE_BIT :: u32 where "TEST_MODE_BLUE_BIT = 2 ^ 0 OR 2 ^ 1"
definition TEST_MODE_BITS :: u32 where "TEST_MODE_BITS = 2 ^ 0 OR 2 ^ 1"
definition OTA_BIT :: u32 where "OTA_BIT = 2 ^ 2"
definition LED_SETUP_BIT :: u32 where "LED_SETUP_BIT = 2 ^ 3"
definition IDENTIFY_BIT :: u32 where "IDENTIFY_BIT = 2 ^ 4"
definition SETUP_BIT :: u32 where "SETUP_BIT = 2 ^ 5"
definition CONNECTING_BIT :: u32 where "CONNECTING_BIT = 2 ^ 6"
definition CONNECTED_BIT :: u32 where "CONNECTED_BIT = 2 ^ 7"
definition IR_LEARN_FAILED_BIT :: u32 where "IR_LEARN_FAILED_BIT = 2 ^ 8"
definition IR_LEARN_OK_BIT :: u32 where "IR_LEARN_OK_BIT = 2 ^ 9"
definition IR_LEARN_ON_BIT :: u32 where "IR_LEARN_ON_BIT = 2 ^ 10"
definition FULLY_CHARGED_BIT :: u32 where "FULLY_CHARGED_BIT = 2 ^ 11"
definition LOW_BATTERY_BIT :: u32 where "LOW_BATTERY_BIT = 2 ^ 12"
definition ERROR_BIT :: u32 where "ERROR_BIT = 2 ^ 13"
definition CHARGING_BIT :: u32 where "CHARGING_BIT = 2 ^ 14"

lemmas led_bit_defs = TEST_MODE_RED_BIT_def TEST_MODE_GREEN_BIT_def TEST_MODE_BLUE_BIT_def
  TEST_MODE_BITS_def OTA_BIT_def LED_SETUP_BIT_def IDENTIFY_BIT_def SETUP_BIT_def CONNECTING_BIT_def
  CONNECTED_BIT_def IR_LEARN_FAILED_BIT_def IR_LEARN_OK_BIT_def IR_LEARN_ON_BIT_def
  FULLY_CHARGED_BIT_def LOW_BATTERY_BIT_def ERROR_BIT_def CHARGING_BIT_def

text \<open>The bits \<open>setState\<close> sets; the states without a pattern set none.\<close>

definition state_bits :: "States \<Rightarrow> u32" where
  "state_bits s =
     (case s of
        TEST_LED_RED \<Rightarrow> TEST_MODE_RED_BIT
      | TEST_LED_GREEN \<Rightarrow> TEST_MODE_GREEN_BIT
      | TEST_LED_BLUE \<Rightarrow> TEST_MODE_BLUE_BIT
      | NORMAL_CHARGING \<Rightarrow> CHARGING_BIT
      | SETUP \<Rightarrow> SETUP_BIT
      | CONNECTING \<Rightarrow> CONNECTING_BIT
      | CONN_SUCCESS \<Rightarrow> CONNECTED_BIT
      | LED_SETUP \<Rightarrow> LED_SETUP_BIT
      | NORMAL_FULLYCHARGED \<Rightarrow> FULLY_CHARGED_BIT
      | NORMAL_LOWBATTERY \<Rightarrow> LOW_BATTERY_BIT
      | ERROR \<Rightarrow> ERROR_BIT
      | OTA \<Rightarrow> OTA_BIT
      | IDENTIFY \<Rightarrow> IDENTIFY_BIT
      | IR_LEARNING \<Rightarrow> IR_LEARN_ON_BIT
      | IR_LEARN_OK \<Rightarrow> IR_LEARN_OK_BIT
      | IR_LEARN_FAILED \<Rightarrow> IR_LEARN_FAILED_BIT
      | _ \<Rightarrow> 0)"

section \<open>The controller\<close>

record 'e led =
  led_eventgroup :: "'e option"
  led_testMode :: bool
  led_minBrightness :: int
  led_maxBrightness :: int

definition led_start :: "'e led" where
  "led_start = \<lparr>led_eventgroup = None, led_testMode = False, led_minBrightness = 5,
                led_maxBrightness = 127\<rparr>"

text \<open>\<open>eg\<close> is what \<open>xEventGroupCreate\<close> returns; a second call changes nothing.\<close>

definition led_init :: "'e \<Rightarrow> bool \<Rightarrow> 'e led \<Rightarrow> 'e led" where
  "led_init eg testMode l =
     (case led_eventgroup l of
        Some _ \<Rightarrow> l
      | None \<Rightarrow> l\<lparr>led_eventgroup := Some eg, led_testMode := testMode\<rparr>)"

text \<open>Without an event group (no \<open>init\<close> before) FreeRTOS stops in its \<open>configASSERT\<close>.\<close>

definition led_setState :: "'e eventgroup_ops \<Rightarrow> States \<Rightarrow> 'e led \<Rightarrow> fault + 'e led" where
  "led_setState ops s l =
     (case led_eventgroup l of
        None \<Rightarrow> Inl AssertFailed
      | Some e \<Rightarrow>
          let e1 = eg_clear ops e 0xFFFF in
          Inr (l\<lparr>led_eventgroup :=
                 Some (if state_bits s = 0 then e1 else eg_set ops e1 (state_bits s))\<rparr>))"

definition setLedMaxBrightness :: "int \<Rightarrow> 'e led \<Rightarrow> 'e led" where
  "setLedMaxBrightness value l =
     (if value \<ge> 0 \<and> value \<le> 255 then l\<lparr>led_maxBrightness := value\<rparr> else l)"

definition getLedMaxBrightness :: "'e led \<Rightarrow> int" where
  "getLedMaxBrightness l = led_maxBrightness l"

section \<open>Output\<close>

datatype led_action =
    LedcWrite nat int \<comment> \<open>PWM channel and duty\<close>
  | LedDelay int
  | LedClearBits u32

definition RED_CHANNEL :: nat where "RED_CHANNEL = 1"
definition GREEN_CHANNEL :: nat where "GREEN_CHANNEL = 2"
definition BLUE_CHANNEL :: nat where "BLUE_CHANNEL = 3"
definition ETH_CHANNEL :: nat where "ETH_CHANNEL = 4"

text \<open>The LEDs have a common anode: duty 0 is the brightest.\<close>

definition invertBrightness :: "int \<Rightarrow> int" where
  "invertBrightness value =
     (let returnValue = abs (value - 255) in if returnValue > 255 then 255 else returnValue)"

text \<open>The parameters are a \<open>uint8_t\<close> and two \<open>uint32_t\<close>, passed on as \<open>int\<close>.\<close>

definition ledWrite :: "int \<Rightarrow> int \<Rightarrow> int \<Rightarrow> led_action list" where
  "ledWrite r g b =
     [LedcWrite RED_CHANNEL (invertBrightness (uint (word_of_int r :: u8))),
      LedcWrite GREEN_CHANNEL (invertBrightness (sint (word_of_int g :: u32))),
      LedcWrite BLUE_CHANNEL (invertBrightness (sint (word_of_int b :: u32)))]"

definition led_blink :: "int \<Rightarrow> int \<Rightarrow> int \<Rightarrow> int \<Rightarrow> led_action list" where
  "led_blink r g b delay_ms =
     ledWrite r g b @ [LedDelay delay_ms] @ ledWrite 0 0 0 @ [LedDelay delay_ms]"

definition led_setEthLedBrightness :: "int \<Rightarrow> 'e led \<Rightarrow> led_action list" where
  "led_setEthLedBrightness value l =
     (if \<not> led_testMode l \<and> value \<ge> 0 \<and> value \<le> 255
      then [LedcWrite ETH_CHANNEL (invertBrightness value)] else [])"

section \<open>Patterns\<close>

definition testModePattern :: "u32 \<Rightarrow> led_action list" where
  "testModePattern bits =
     (if bits AND TEST_MODE_RED_BIT \<noteq> 0 \<and> bits AND TEST_MODE_GREEN_BIT \<noteq> 0 then ledWrite 0 0 255
      else if bits AND TEST_MODE_RED_BIT \<noteq> 0 then ledWrite 255 0 0
      else if bits AND TEST_MODE_GREEN_BIT \<noteq> 0 then ledWrite 0 255 0
      else []) @ [LedDelay 200]"

definition otaPattern :: "int \<Rightarrow> led_action list" where
  "otaPattern brightness =
     concat (map (\<lambda>dutyCycle. ledWrite dutyCycle 0 0 @ [LedDelay 10]) [0..brightness]) @
     [LedDelay 500] @
     concat (map (\<lambda>dutyCycle. ledWrite dutyCycle 0 0 @ [LedDelay 10]) (rev [0..brightness])) @
     [LedDelay 1000]"

text \<open>
  The interruptible loops: each returns its actions, whether it ran to the end, and the number of
  the next reading of the event bits.
\<close>

fun ramp :: "(nat \<Rightarrow> u32) \<Rightarrow> int \<Rightarrow> int list \<Rightarrow> nat \<Rightarrow> led_action list \<times> bool \<times> nat" where
  "ramp poll step [] n = ([], True, n)"
| "ramp poll step (dutyCycle # rest) n =
     (let acts = ledWrite dutyCycle dutyCycle dutyCycle @ [LedDelay step] in
      if \<not> bitIsSetAndNoHigherPrioTask CHARGING_BIT (poll n) then (acts, False, n + 1)
      else case ramp poll step rest (n + 1) of (acts', finished, n') \<Rightarrow> (acts @ acts', finished, n'))"

fun wait_while :: "(nat \<Rightarrow> u32) \<Rightarrow> u32 \<Rightarrow> nat \<Rightarrow> nat \<Rightarrow> led_action list \<times> bool \<times> nat" where
  "wait_while poll bit_mask 0 n = ([], True, n)"
| "wait_while poll bit_mask (Suc k) n =
     (if \<not> bitIsSetAndNoHigherPrioTask bit_mask (poll n) then ([], False, n + 1)
      else case wait_while poll bit_mask k (n + 1) of
        (acts', finished, n') \<Rightarrow> (LedDelay 100 # acts', finished, n'))"

text \<open>Run the second part only when the first was not interrupted.\<close>

definition and_then ::
  "led_action list \<times> bool \<times> nat \<Rightarrow> (nat \<Rightarrow> led_action list \<times> bool \<times> nat) \<Rightarrow> led_action list \<times> bool \<times> nat" where
  "and_then r f =
     (case r of (acts, finished, n) \<Rightarrow>
        if \<not> finished then (acts, False, n)
        else case f n of (acts', finished', n') \<Rightarrow> (acts @ acts', finished', n'))"

definition charging_pause :: "(nat \<Rightarrow> u32) \<Rightarrow> int \<Rightarrow> nat \<Rightarrow> led_action list \<times> bool \<times> nat" where
  "charging_pause poll pause n =
     (if pause > 100 then
        (case wait_while poll CHARGING_BIT (nat (pause div 100)) n of
           (acts, finished, n') \<Rightarrow> (LedDelay (pause mod 100) # acts, finished, n'))
      else ([LedDelay pause], True, n))"

definition charging_check :: "(nat \<Rightarrow> u32) \<Rightarrow> nat \<Rightarrow> led_action list \<times> bool \<times> nat" where
  "charging_check poll n = ([], bitIsSetAndNoHigherPrioTask CHARGING_BIT (poll n), n + 1)"

definition chargingPattern ::
  "(int \<Rightarrow> int \<Rightarrow> int \<Rightarrow> int \<Rightarrow> int \<Rightarrow> int) \<Rightarrow> (nat \<Rightarrow> u32) \<Rightarrow> int \<Rightarrow> led_action list \<times> bool \<times> nat" where
  "chargingPattern scale poll brightness =
     (let ledMapDelay = scale brightness 5 255 30 5; ledMapPause = scale brightness 5 255 1200 0 in
      and_then (ramp poll ledMapDelay [0..brightness] 0) (\<lambda>n.
      and_then (charging_pause poll ledMapPause n) (\<lambda>n.
      and_then (charging_check poll n) (\<lambda>n.
      and_then (ramp poll ledMapDelay (rev [0..brightness]) n) (\<lambda>n.
      wait_while poll CHARGING_BIT 5 n)))))"

definition lowBatteryPattern :: "(nat \<Rightarrow> u32) \<Rightarrow> int \<Rightarrow> led_action list" where
  "lowBatteryPattern poll brightness =
     led_blink brightness brightness brightness 100 @ led_blink brightness brightness brightness 100 @
     fst (wait_while poll LOW_BATTERY_BIT 40 0)"

section \<open>One cycle of the task\<close>

datatype led_pattern =
    P_OFF | P_TEST | P_OTA | P_LED_SETUP | P_IDENTIFY | P_SETUP | P_CONNECTING | P_CONNECTED
  | P_IR_FAILED | P_IR_OK | P_IR_ON | P_FULLY_CHARGED | P_LOW_BATTERY | P_ERROR | P_CHARGING | P_NONE

text \<open>The chain of conditions that selects what a cycle shows.\<close>

definition select_pattern :: "u32 \<Rightarrow> led_pattern" where
  "select_pattern bits =
     (if bits = 0 then P_OFF
      else if bits AND TEST_MODE_BITS \<noteq> 0 then P_TEST
      else if bits AND OTA_BIT \<noteq> 0 then P_OTA
      else if bits AND LED_SETUP_BIT \<noteq> 0 then P_LED_SETUP
      else if bits AND IDENTIFY_BIT \<noteq> 0 then P_IDENTIFY
      else if bits AND SETUP_BIT \<noteq> 0 then P_SETUP
      else if bits AND CONNECTING_BIT \<noteq> 0 then P_CONNECTING
      else if bits AND CONNECTED_BIT \<noteq> 0 then P_CONNECTED
      else if bits AND IR_LEARN_FAILED_BIT \<noteq> 0 then P_IR_FAILED
      else if bits AND IR_LEARN_OK_BIT \<noteq> 0 then P_IR_OK
      else if bits AND IR_LEARN_ON_BIT \<noteq> 0 then P_IR_ON
      else if bits AND FULLY_CHARGED_BIT \<noteq> 0 then P_FULLY_CHARGED
      else if bits AND LOW_BATTERY_BIT \<noteq> 0 then P_LOW_BATTERY
      else if bits AND ERROR_BIT \<noteq> 0 then P_ERROR
      else if bits AND CHARGING_BIT \<noteq> 0 then P_CHARGING
      else P_NONE)"

text \<open>What the cycle does; the log counters of the task are left out.\<close>

definition ledTask_cycle ::
  "(int \<Rightarrow> int \<Rightarrow> int \<Rightarrow> int \<Rightarrow> int \<Rightarrow> int) \<Rightarrow> (nat \<Rightarrow> u32) \<Rightarrow> u32 \<Rightarrow> 'e led \<Rightarrow> led_action list" where
  "ledTask_cycle scale poll bits l =
     (let brightness = led_maxBrightness l;
          minBrightness = max (led_minBrightness l) brightness
      in case select_pattern bits of
        P_OFF \<Rightarrow> ledWrite 0 0 0
      | P_TEST \<Rightarrow> testModePattern bits
      | P_OTA \<Rightarrow> otaPattern minBrightness
      | P_LED_SETUP \<Rightarrow> ledWrite brightness brightness brightness @ [LedDelay 200]
      | P_IDENTIFY \<Rightarrow>
          concat (replicate 2 (led_blink 0 0 255 200 @ led_blink 255 55 0 200 @
            led_blink 0 255 0 200 @ led_blink 255 0 0 200)) @ [LedClearBits IDENTIFY_BIT]
      | P_SETUP \<Rightarrow> led_blink 255 55 0 1000
      | P_CONNECTING \<Rightarrow> led_blink brightness brightness brightness 200
      | P_CONNECTED \<Rightarrow>
          concat (replicate 4 (led_blink brightness brightness brightness 100)) @ [LedClearBits CONNECTED_BIT]
      | P_IR_FAILED \<Rightarrow>
          led_blink brightness 0 0 100 @ led_blink brightness 0 0 100 @ [LedClearBits IR_LEARN_FAILED_BIT]
      | P_IR_OK \<Rightarrow>
          led_blink 0 brightness 0 100 @ led_blink 0 brightness 0 100 @ [LedClearBits IR_LEARN_OK_BIT]
      | P_IR_ON \<Rightarrow> ledWrite 0 brightness 0 @ [LedDelay 200]
      | P_FULLY_CHARGED \<Rightarrow> ledWrite 0 0 0 @ [LedDelay 200]
      | P_LOW_BATTERY \<Rightarrow> lowBatteryPattern poll brightness
      | P_ERROR \<Rightarrow> led_blink minBrightness 0 0 200
      | P_CHARGING \<Rightarrow> fst (chargingPattern scale poll brightness)
      | P_NONE \<Rightarrow> [])"

text \<open>The event group after a cycle.\<close>

fun clear_after :: "'e eventgroup_ops \<Rightarrow> led_action list \<Rightarrow> 'e \<Rightarrow> 'e" where
  "clear_after ops [] e = e"
| "clear_after ops (LedClearBits b # acts) e = clear_after ops acts (eg_clear ops e b)"
| "clear_after ops (_ # acts) e = clear_after ops acts e"

section \<open>Which pattern is shown\<close>

definition pattern_of_bit :: "nat \<Rightarrow> led_pattern" where
  "pattern_of_bit k =
     [P_TEST, P_TEST, P_OTA, P_LED_SETUP, P_IDENTIFY, P_SETUP, P_CONNECTING, P_CONNECTED, P_IR_FAILED,
      P_IR_OK, P_IR_ON, P_FULLY_CHARGED, P_LOW_BATTERY, P_ERROR, P_CHARGING] ! k"

lemma and_bit_iff: "(bits::u32) AND 2 ^ k \<noteq> 0 \<longleftrightarrow> bit bits k"
  using and_exp_eq_0_iff_not_bit [of bits k] by blast

lemma and_test_bits_iff: "(bits::u32) AND TEST_MODE_BITS \<noteq> 0 \<longleftrightarrow> bit bits 0 \<or> bit bits 1"
proof -
  have "bits AND TEST_MODE_BITS = (bits AND 2 ^ 0) OR (bits AND 2 ^ 1)"
    unfolding TEST_MODE_BITS_def by (rule bit.conj_disj_distrib)
  moreover have "(a::u32) OR b = 0 \<longleftrightarrow> a = 0 \<and> b = 0" for a b
    by (rule or_eq_0_iff)
  ultimately show ?thesis
    using and_bit_iff [of bits 0] and_bit_iff [of bits 1] by metis
qed

lemma select_pattern_bits:
  "select_pattern bits =
     (if bits = 0 then P_OFF
      else if bit bits 0 \<or> bit bits 1 then P_TEST
      else if bit bits 2 then P_OTA
      else if bit bits 3 then P_LED_SETUP
      else if bit bits 4 then P_IDENTIFY
      else if bit bits 5 then P_SETUP
      else if bit bits 6 then P_CONNECTING
      else if bit bits 7 then P_CONNECTED
      else if bit bits 8 then P_IR_FAILED
      else if bit bits 9 then P_IR_OK
      else if bit bits 10 then P_IR_ON
      else if bit bits 11 then P_FULLY_CHARGED
      else if bit bits 12 then P_LOW_BATTERY
      else if bit bits 13 then P_ERROR
      else if bit bits 14 then P_CHARGING
      else P_NONE)"
  by (simp only: select_pattern_def and_test_bits_iff OTA_BIT_def LED_SETUP_BIT_def IDENTIFY_BIT_def
      SETUP_BIT_def CONNECTING_BIT_def CONNECTED_BIT_def IR_LEARN_FAILED_BIT_def IR_LEARN_OK_BIT_def
      IR_LEARN_ON_BIT_def FULLY_CHARGED_BIT_def LOW_BATTERY_BIT_def ERROR_BIT_def CHARGING_BIT_def
      and_bit_iff)

lemma less_15_cases:
  "(k::nat) < 15 \<Longrightarrow> k \<in> {0, 1, 2, 3, 4, 5, 6, 7, 8, 9, 10, 11, 12, 13, 14}"
  unfolding insert_iff empty_iff by arith

text \<open>
  A cycle of the LED task shows the pattern of the lowest set bit of the event group: the
  priority order the comment above the bit masks announces.
\<close>

theorem select_pattern_lowest:
  assumes "k < 15" and "bit bits k" and "\<forall>j < k. \<not> bit bits j"
  shows "select_pattern bits = pattern_of_bit k"
proof -
  have "bits \<noteq> 0" using assms(2) by auto
  then show ?thesis
    using less_15_cases [OF assms(1)] assms(2,3)
    by (elim insertE emptyE; simp add: select_pattern_bits pattern_of_bit_def numeral_nat)
qed

theorem select_pattern_lowest_witness: "select_pattern 0x6004 = pattern_of_bit 2"
proof (rule select_pattern_lowest)
  show "bit (0x6004 :: u32) 2" by code_simp
  show "\<forall>j<2. \<not> bit (0x6004 :: u32) j" by code_simp
qed simp

section \<open>Brightness\<close>

text \<open>How bright a pattern may be: the events that must not be missed ignore the user's setting.\<close>

definition brightness_limit :: "led_pattern \<Rightarrow> int \<Rightarrow> int" where
  "brightness_limit p brightness =
     (if p \<in> {P_TEST, P_IDENTIFY, P_SETUP} then 255
      else if p \<in> {P_OTA, P_ERROR} then max 5 brightness
      else brightness)"

definition within :: "int \<Rightarrow> led_action list \<Rightarrow> bool" where
  "within b acts \<longleftrightarrow> (\<forall>c d. LedcWrite c d \<in> set acts \<longrightarrow> 0 \<le> d \<and> d \<le> 255 \<and> 255 - d \<le> b)"

named_theorems within_intros \<open>duty cycles below a limit\<close>

lemma within_simps [simp]:
  "within b []" "within b (LedDelay m # acts) = within b acts"
  "within b (LedClearBits k # acts) = within b acts"
  "within b (as @ bs) \<longleftrightarrow> within b as \<and> within b bs"
  by (auto simp: within_def)

lemma within_concat [simp]: "within b (concat xss) \<longleftrightarrow> (\<forall>xs \<in> set xss. within b xs)"
  by (induction xss) auto

lemma uint8_small: "0 \<le> r \<Longrightarrow> r \<le> 255 \<Longrightarrow> uint (word_of_int r :: u8) = r"
  by (simp add: uint_word_of_int)

lemma sint32_small: "0 \<le> r \<Longrightarrow> r \<le> 255 \<Longrightarrow> sint (word_of_int r :: u32) = r"
  by (simp add: sint_uint uint_word_of_int signed_take_bit_int_eq_self)

lemma within_ledWrite [within_intros]:
  "0 \<le> r \<Longrightarrow> r \<le> b \<Longrightarrow> 0 \<le> g \<Longrightarrow> g \<le> b \<Longrightarrow> 0 \<le> bl \<Longrightarrow> bl \<le> b \<Longrightarrow> b \<le> 255 \<Longrightarrow>
   within b (ledWrite r g bl)"
  by (auto simp: within_def ledWrite_def uint8_small sint32_small invertBrightness_def Let_def)

lemma within_blink [within_intros]:
  "0 \<le> r \<Longrightarrow> r \<le> b \<Longrightarrow> 0 \<le> g \<Longrightarrow> g \<le> b \<Longrightarrow> 0 \<le> bl \<Longrightarrow> bl \<le> b \<Longrightarrow> b \<le> 255 \<Longrightarrow>
   within b (led_blink r g bl m)"
  by (auto simp: led_blink_def intro!: within_ledWrite)

lemma within_ramp [within_intros]:
  "\<forall>d \<in> set ds. 0 \<le> d \<and> d \<le> b \<Longrightarrow> b \<le> 255 \<Longrightarrow> within b (fst (ramp poll step ds n))"
  by (induction poll step ds n rule: ramp.induct)
     (auto simp: Let_def intro!: within_ledWrite split: prod.splits)

lemma within_wait [within_intros]: "within b (fst (wait_while poll m k n))"
  by (induction poll m k n rule: wait_while.induct) (auto split: prod.splits)

lemma within_and_then [within_intros]:
  "within b (fst r) \<Longrightarrow> (\<And>n. within b (fst (f n))) \<Longrightarrow> within b (fst (and_then r f))"
  by (auto simp: and_then_def split: prod.splits) (metis fst_conv)

lemma within_pause [within_intros]: "within b (fst (charging_pause poll p n))"
  using within_wait [of b poll CHARGING_BIT "nat (p div 100)" n]
  by (auto simp: charging_pause_def split: prod.splits)

lemma within_charging [within_intros]:
  "b \<le> 255 \<Longrightarrow> within b (fst (chargingPattern scale poll b))"
  unfolding chargingPattern_def Let_def
  by (intro within_and_then within_ramp within_pause within_wait) (auto simp: charging_check_def)

lemma within_ota [within_intros]: "b \<le> 255 \<Longrightarrow> within b (otaPattern b)"
  by (auto simp: otaPattern_def intro!: within_ledWrite)

lemma within_low_battery [within_intros]:
  "0 \<le> b \<Longrightarrow> b \<le> 255 \<Longrightarrow> within b (lowBatteryPattern poll b)"
  by (auto simp: lowBatteryPattern_def intro!: within_blink within_wait)

lemma within_test [within_intros]: "within 255 (testModePattern bits)"
  by (auto simp: testModePattern_def intro!: within_ledWrite)

text \<open>The settings \<open>init\<close> and \<open>setLedMaxBrightness\<close> keep.\<close>

definition led_inv :: "'e led \<Rightarrow> bool" where
  "led_inv l \<longleftrightarrow> led_minBrightness l = 5 \<and> 0 \<le> led_maxBrightness l \<and> led_maxBrightness l \<le> 255"

lemma led_inv_preserved [inv_intros]:
  "led_inv led_start"
  "led_inv l \<Longrightarrow> led_inv (led_init eg testMode l)"
  "led_inv l \<Longrightarrow> led_inv (setLedMaxBrightness v l)"
  "led_inv l \<Longrightarrow> led_setState ops s l = Inr l' \<Longrightarrow> led_inv l'"
  by (auto simp: led_inv_def led_start_def led_init_def setLedMaxBrightness_def led_setState_def Let_def
      split: option.splits)

text \<open>
  A cycle never drives a LED harder than allowed: every duty is an 8-bit value, and apart
  from the test, identify and setup patterns no LED is brighter than the configured maximum (for
  OTA and errors at least 5).
\<close>

theorem led_brightness_bounded:
  assumes "led_inv l" and "LedcWrite c d \<in> set (ledTask_cycle scale poll bits l)"
  shows "0 \<le> d \<and> d \<le> 255 \<and>
         255 - d \<le> brightness_limit (select_pattern bits) (led_maxBrightness l)"
proof -
  have "within (brightness_limit (select_pattern bits) (led_maxBrightness l))
          (ledTask_cycle scale poll bits l)"
    using assms(1)
    by (cases "select_pattern bits")
       (auto simp: ledTask_cycle_def brightness_limit_def led_inv_def Let_def intro!: within_intros)
  with assms(2) show ?thesis by (auto simp: within_def)
qed

theorem led_brightness_bounded_witness:
  "255 - (155::int) \<le> brightness_limit (select_pattern 8) 100"
proof -
  let ?l = "setLedMaxBrightness 100 led_start :: nat led"
  have "led_inv ?l" by (intro inv_intros)
  moreover have "LedcWrite 1 155 \<in> set (ledTask_cycle (\<lambda>_ _ _ _ _. 0) (\<lambda>_. 8) 8 ?l)"
    by code_simp
  ultimately have "255 - (155::int) \<le> brightness_limit (select_pattern 8) (led_maxBrightness ?l)"
    using led_brightness_bounded by blast
  then show ?thesis by (simp add: setLedMaxBrightness_def)
qed

section \<open>The controller and its task\<close>

text \<open>The pattern of a state, and the states whose pattern is shown once.\<close>

definition state_pattern :: "States \<Rightarrow> led_pattern" where
  "state_pattern s =
     (case s of
        TEST_LED_RED \<Rightarrow> P_TEST | TEST_LED_GREEN \<Rightarrow> P_TEST | TEST_LED_BLUE \<Rightarrow> P_TEST
      | NORMAL_CHARGING \<Rightarrow> P_CHARGING | SETUP \<Rightarrow> P_SETUP | CONNECTING \<Rightarrow> P_CONNECTING
      | CONN_SUCCESS \<Rightarrow> P_CONNECTED | LED_SETUP \<Rightarrow> P_LED_SETUP
      | NORMAL_FULLYCHARGED \<Rightarrow> P_FULLY_CHARGED | NORMAL_LOWBATTERY \<Rightarrow> P_LOW_BATTERY
      | ERROR \<Rightarrow> P_ERROR | OTA \<Rightarrow> P_OTA | IDENTIFY \<Rightarrow> P_IDENTIFY | IR_LEARNING \<Rightarrow> P_IR_ON
      | IR_LEARN_OK \<Rightarrow> P_IR_OK | IR_LEARN_FAILED \<Rightarrow> P_IR_FAILED
      | NOT_SET \<Rightarrow> P_OFF | STARTUP \<Rightarrow> P_OFF | NORMAL \<Rightarrow> P_OFF)"

definition shown_once :: "States \<Rightarrow> bool" where
  "shown_once s \<longleftrightarrow> s \<in> {IDENTIFY, CONN_SUCCESS, IR_LEARN_OK, IR_LEARN_FAILED}"

definition once_bit :: "led_pattern \<Rightarrow> u32" where
  "once_bit p =
     (case p of
        P_IDENTIFY \<Rightarrow> IDENTIFY_BIT | P_CONNECTED \<Rightarrow> CONNECTED_BIT | P_IR_FAILED \<Rightarrow> IR_LEARN_FAILED_BIT
      | P_IR_OK \<Rightarrow> IR_LEARN_OK_BIT | _ \<Rightarrow> 0)"

lemma select_state_bits: "select_pattern (state_bits s) = state_pattern s"
  by (cases s) (simp_all add: state_bits_def state_pattern_def select_pattern_def led_bit_defs)

lemma clear_after_append: "clear_after ops (as @ bs) e = clear_after ops bs (clear_after ops as e)"
  by (induction ops as e rule: clear_after.induct) simp_all

definition keeps_bits :: "led_action list \<Rightarrow> bool" where
  "keeps_bits acts \<longleftrightarrow> (\<forall>b. LedClearBits b \<notin> set acts)"

lemma clear_after_keeps: "keeps_bits acts \<Longrightarrow> clear_after ops acts e = e"
  by (induction ops acts e rule: clear_after.induct) (auto simp: keeps_bits_def)

lemma keeps_simps [simp]:
  "keeps_bits []" "keeps_bits (LedDelay m # acts) = keeps_bits acts"
  "keeps_bits (LedcWrite c d # acts) = keeps_bits acts"
  "keeps_bits (as @ bs) \<longleftrightarrow> keeps_bits as \<and> keeps_bits bs"
  "keeps_bits (ledWrite r g b)" "keeps_bits (led_blink r g b m)"
  by (auto simp: keeps_bits_def ledWrite_def led_blink_def)

lemma keeps_concat [simp]: "keeps_bits (concat xss) \<longleftrightarrow> (\<forall>xs \<in> set xss. keeps_bits xs)"
  by (induction xss) auto

lemma keeps_ramp [simp]: "keeps_bits (fst (ramp poll step ds n))"
  by (induction poll step ds n rule: ramp.induct) (auto simp: Let_def split: prod.splits)

lemma keeps_wait [simp]: "keeps_bits (fst (wait_while poll m k n))"
  by (induction poll m k n rule: wait_while.induct) (auto split: prod.splits)

lemma keeps_and_then: "keeps_bits (fst r) \<Longrightarrow> (\<And>n. keeps_bits (fst (f n))) \<Longrightarrow> keeps_bits (fst (and_then r f))"
  by (auto simp: and_then_def split: prod.splits) (metis fst_conv)

lemma keeps_pause: "keeps_bits (fst (charging_pause poll p n))"
proof (cases "wait_while poll CHARGING_BIT (nat (p div 100)) n")
  case (fields a b c)
  with keeps_wait [of poll CHARGING_BIT "nat (p div 100)" n] have "keeps_bits a" by simp
  with fields show ?thesis by (simp add: charging_pause_def)
qed

lemma keeps_charging [simp]: "keeps_bits (fst (chargingPattern scale poll b))"
  unfolding chargingPattern_def Let_def
  by (intro keeps_and_then keeps_pause) (auto simp: charging_check_def)

text \<open>A cycle clears the bit of a pattern that is shown once, and no other.\<close>

lemma clear_after_cycle:
  assumes "eventgroup_spec ops"
  shows "eg_get ops (clear_after ops (ledTask_cycle scale poll bits l) e) =
     eg_get ops e AND NOT (once_bit (select_pattern bits))"
proof -
  have app: "app_bits IDENTIFY_BIT" "app_bits CONNECTED_BIT" "app_bits IR_LEARN_FAILED_BIT"
    "app_bits IR_LEARN_OK_BIT"
    by (simp_all add: app_bits_def led_bit_defs)
  show ?thesis
    by (cases "select_pattern bits")
       (simp_all add: ledTask_cycle_def once_bit_def Let_def clear_after_keeps clear_after_append
          eg_get_clear [OF assms] app testModePattern_def otaPattern_def lowBatteryPattern_def)
qed

text \<open>
  \<open>setState\<close> runs in other tasks than the LED task: it may come between the moment the task reads
  the bits and the moment it clears the bit of the pattern it has shown. The second component is
  what the task has read in the cycle it is in.
\<close>

inductive led_reach ::
  "'e eventgroup_ops \<Rightarrow> (int \<Rightarrow> int \<Rightarrow> int \<Rightarrow> int \<Rightarrow> int \<Rightarrow> int) \<Rightarrow> 'e \<Rightarrow> States \<Rightarrow> 'e led \<times> u32 option \<Rightarrow> bool"
  for ops scale e0
where
  reach_init: "led_reach ops scale e0 NORMAL (led_init e0 testMode led_start, None)"
| reach_set:
    "led_reach ops scale e0 cur (l, p) \<Longrightarrow> led_setState ops s l = Inr l' \<Longrightarrow>
     led_reach ops scale e0 s (l', p)"
| reach_brightness:
    "led_reach ops scale e0 cur (l, p) \<Longrightarrow> led_reach ops scale e0 cur (setLedMaxBrightness v l, p)"
| reach_read:
    "led_reach ops scale e0 cur (l, None) \<Longrightarrow> led_eventgroup l = Some e \<Longrightarrow>
     led_reach ops scale e0 cur (l, Some (eg_get ops e))"
| reach_finish:
    "led_reach ops scale e0 cur (l, Some bits) \<Longrightarrow> led_eventgroup l = Some e \<Longrightarrow>
     led_reach ops scale e0 cur
       (l\<lparr>led_eventgroup := Some (clear_after ops (ledTask_cycle scale poll bits l) e)\<rparr>, None)"

lemma set_bits_after_clear:
  assumes "eventgroup_spec ops" and "eg_get ops e AND NOT 0xFFFF = 0"
    and "led_eventgroup l = Some e" and "led_setState ops s l = Inr l'"
  shows "\<exists>e'. led_eventgroup l' = Some e' \<and> eg_get ops e' = state_bits s"
proof -
  have "app_bits (state_bits s)" "app_bits 0xFFFF"
    by (cases s) (simp_all add: app_bits_def state_bits_def led_bit_defs)
  then show ?thesis
    using assms by (auto simp: led_setState_def Let_def eg_get_set eg_get_clear)
qed

lemma state_bits_low: "state_bits s AND NOT 0xFFFF = 0"
  by (cases s) (simp_all add: state_bits_def led_bit_defs)

lemma clear_once:
  "state_bits s AND NOT (once_bit p) = state_bits s \<or>
   shown_once s \<and> state_bits s AND NOT (once_bit p) = 0"
  by (cases s; cases p; simp add: state_bits_def once_bit_def led_bit_defs shown_once_def)

text \<open>The bits are those of the last state set, or none when its pattern is shown once.\<close>

lemma led_reach_bits:
  assumes "led_reach ops scale e0 cur lp" and "eventgroup_spec ops" and "eg_get ops e0 = 0"
  shows "\<exists>e. led_eventgroup (fst lp) = Some e \<and>
     (eg_get ops e = state_bits cur \<or> shown_once cur \<and> eg_get ops e = 0)"
  using assms(1)
proof (induction cur lp rule: led_reach.induct)
  case (reach_init testMode)
  then show ?case using assms(3) by (simp add: led_init_def led_start_def state_bits_def)
next
  case (reach_set cur l p s l')
  then obtain e where e: "led_eventgroup l = Some e" "eg_get ops e AND NOT 0xFFFF = 0"
    using state_bits_low [of cur, simplified] by auto
  from set_bits_after_clear [OF assms(2) e(2) e(1) reach_set.hyps(2)] show ?case by auto
next
  case (reach_brightness cur l p v)
  then show ?case by (auto simp: setLedMaxBrightness_def)
next
  case (reach_read cur l e)
  then show ?case by auto
next
  case (reach_finish cur l bits e poll)
  then show ?case
    using clear_once [of cur "select_pattern bits"] by (auto simp: clear_after_cycle [OF assms(2)])
qed



end
