(* ===== verification/DockState.thy ===== *)
theory DockState
  imports LedControl
begin

text \<open>
  \<open>src/lib/state/state.cpp\<close>: the state of the dock, its uptime clock and the two pseudo states
  (LED setup, identify) that end after a timeout. The class calls the LED controller through
  \<open>setState\<close>: here the argument \<open>setLed\<close>, over the controller's state in the field \<open>st_led\<close>.
  Readings of \<open>millis()\<close> are arguments, one for each call. Each operation is one step
  here; theory \<open>StateMutex\<close> says what the mutex makes of that.
\<close>

section \<open>Data\<close>

record 'd state =
  st_ledSetupTimeout :: u32
  st_identifyTimeout :: u32
  st_current :: States
  st_prev :: States
  st_HH :: u8
  st_MM :: u8
  st_SS :: u8
  st_days :: u32
  st_lastTick :: u32
  st_led :: 'd

definition State_init :: "'d \<Rightarrow> 'd state" where
  "State_init ledControl =
     \<lparr>st_ledSetupTimeout = 0, st_identifyTimeout = 0, st_current = NOT_SET, st_prev = NOT_SET,
      st_HH = 0, st_MM = 0, st_SS = 0, st_days = 0, st_lastTick = 0, st_led = ledControl\<rparr>"

datatype Events = IDENTIFY_DONE | LED_SETUP_DONE | CONN_SUCCESS_DONE

type_synonym 'd set_led = "States \<Rightarrow> 'd \<Rightarrow> fault + 'd"

section \<open>Operations\<close>

definition led_call :: "'d set_led \<Rightarrow> States \<Rightarrow> 'd state \<Rightarrow> fault + 'd state" where
  "led_call setLed x s = bind_res (setLed x (st_led s)) (\<lambda>d. Inr (s\<lparr>st_led := d\<rparr>))"

definition state_event :: "'d set_led \<Rightarrow> Events \<Rightarrow> 'd state \<Rightarrow> fault + 'd state" where
  "state_event setLed ev s =
     (let s1 = (case ev of
                  LED_SETUP_DONE \<Rightarrow> s\<lparr>st_current := st_prev s\<rparr>
                | IDENTIFY_DONE \<Rightarrow> s\<lparr>st_current := st_prev s\<rparr>
                | CONN_SUCCESS_DONE \<Rightarrow> s\<lparr>st_current := NORMAL\<rparr>)
      in led_call setLed (st_current s1) s1)"

text \<open>The clock: one second per call at most, with the carries.\<close>

definition clock_second :: "'d state \<Rightarrow> 'd state" where
  "clock_second s =
     (let s1 = s\<lparr>st_SS := st_SS s + 1\<rparr>;
          s2 = (if st_SS s1 \<ge> 60 then s1\<lparr>st_SS := st_SS s1 - 60, st_MM := st_MM s1 + 1\<rparr> else s1);
          s3 = (if st_MM s2 \<ge> 60 then s2\<lparr>st_MM := st_MM s2 - 60, st_HH := st_HH s2 + 1\<rparr> else s2)
      in if st_HH s3 \<ge> 24 then s3\<lparr>st_HH := st_HH s3 - 24, st_days := st_days s3 + 1\<rparr> else s3)"

definition clock_tick :: "u32 \<Rightarrow> 'd state \<Rightarrow> 'd state" where
  "clock_tick now s =
     (let s1 = (if now < st_lastTick s then s\<lparr>st_lastTick := 0\<rparr> else s) in
      if now - st_lastTick s1 \<ge> 1000
      then clock_second (s1\<lparr>st_lastTick := st_lastTick s1 + 1000\<rparr>) else s1)"

text \<open>\<open>now2\<close> and \<open>now3\<close> are read only when the timeout is armed.\<close>

definition state_loop :: "'d set_led \<Rightarrow> u32 \<Rightarrow> u32 \<Rightarrow> u32 \<Rightarrow> 'd state \<Rightarrow> fault + 'd state" where
  "state_loop setLed now now2 now3 s =
     (let s1 = clock_tick now s in
      bind_res
        (if st_ledSetupTimeout s1 \<noteq> 0 \<and> now2 > st_ledSetupTimeout s1
         then state_event setLed LED_SETUP_DONE (s1\<lparr>st_ledSetupTimeout := 0\<rparr>) else Inr s1)
        (\<lambda>s2. if st_identifyTimeout s2 \<noteq> 0 \<and> now3 > st_identifyTimeout s2
              then state_event setLed IDENTIFY_DONE (s2\<lparr>st_identifyTimeout := 0\<rparr>) else Inr s2))"

definition getState :: "'d state \<Rightarrow> States" where
  "getState s = st_current s"

definition remember_state :: "States \<Rightarrow> 'd state \<Rightarrow> 'd state" where
  "remember_state x s =
     (if st_prev s \<noteq> x \<and> st_current s \<noteq> x then s\<lparr>st_prev := st_current s\<rparr> else s)"

definition setState :: "'d set_led \<Rightarrow> u32 \<Rightarrow> States \<Rightarrow> 'd state \<Rightarrow> fault + States \<times> 'd state" where
  "setState setLed now x s =
     (let s1 = (case x of
                  LED_SETUP \<Rightarrow> remember_state x (s\<lparr>st_ledSetupTimeout := now + 2000\<rparr>)
                | IDENTIFY \<Rightarrow> remember_state x (s\<lparr>st_identifyTimeout := now + 3000\<rparr>)
                | _ \<Rightarrow> s\<lparr>st_prev := st_current s\<rparr>);
          s2 = s1\<lparr>st_current := x\<rparr>
      in bind_res (if st_prev s2 \<noteq> x then led_call setLed x s2 else Inr s2)
           (\<lambda>s3. let s4 = (if x = IR_LEARN_FAILED \<or> x = IR_LEARN_OK
                           then s3\<lparr>st_current := st_prev s3\<rparr> else s3)
                 in Inr (st_prev s4, s4)))"

definition getUptime :: "'d state \<Rightarrow> string" where
  "getUptime s =
     snprintf 20 (show_int (sint (st_days s)) @ '' days '' @ show_pad0 2 (unat (st_HH s)) @ '':'' @
       show_pad0 2 (unat (st_MM s)) @ '':'' @ show_pad0 2 (unat (st_SS s)))"

section \<open>The clock\<close>

definition clock_ok :: "'d state \<Rightarrow> bool" where
  "clock_ok s \<longleftrightarrow> unat (st_HH s) < 24 \<and> unat (st_MM s) < 60 \<and> unat (st_SS s) < 60"

definition uptime_secs :: "'d state \<Rightarrow> nat" where
  "uptime_secs s =
     unat (st_days s) * 86400 + unat (st_HH s) * 3600 + unat (st_MM s) * 60 + unat (st_SS s)"

lemma u8_step:
  fixes w n :: u8
  assumes "unat w < unat n" "unat n < 200"
  shows "if w + 1 \<ge> n then unat w + 1 = unat n \<and> w + 1 - n = 0 else unat (w + 1) = unat w + 1 \<and> unat w + 1 < unat n"
proof -
  have s: "unat (w + 1) = unat w + 1" using assms by (simp add: unat_word_ariths)
  show ?thesis
  proof (cases "n \<le> w + 1")
    case True
    then have "unat n \<le> unat w + 1" using s by (simp add: word_le_nat_alt)
    with assms s have "unat (w + 1) = unat n" by simp
    then have "w + 1 = n" by (rule word_unat_eq_iff [THEN iffD2])
    then show ?thesis using s by auto
  next
    case False
    then have "unat w + 1 < unat n" using s by (simp add: word_less_nat_alt not_le)
    with s False show ?thesis by simp
  qed
qed

lemma clock_second_correct:
  assumes "clock_ok s" and "unat (st_days s) + 1 < 2 ^ 32"
  shows "clock_ok (clock_second s) \<and> uptime_secs (clock_second s) = uptime_secs s + 1 \<and>
     st_lastTick (clock_second s) = st_lastTick s"
proof -
  have d: "unat (st_days s + 1) = unat (st_days s) + 1" using assms(2) by (simp add: unat_word_ariths)
  have small: "\<not> 60 \<le> st_MM s" "\<not> 24 \<le> st_HH s"
    using assms(1) by (simp_all add: clock_ok_def word_le_nat_alt)
  note ss = u8_step [of "st_SS s" 60] and mm = u8_step [of "st_MM s" 60] and hh = u8_step [of "st_HH s" 24]
  show ?thesis
    using assms(1) ss mm hh d small
    by (simp add: clock_second_def clock_ok_def uptime_secs_def Let_def split: if_splits)
qed

lemma clock_tick_frame [frame_simps]:
  "st_current (clock_tick now s) = st_current s" "st_prev (clock_tick now s) = st_prev s"
  "st_ledSetupTimeout (clock_tick now s) = st_ledSetupTimeout s"
  "st_identifyTimeout (clock_tick now s) = st_identifyTimeout s"
  "st_led (clock_tick now s) = st_led s"
  by (simp_all add: clock_tick_def clock_second_def Let_def)

text \<open>The clock is never ahead of \<open>millis()\<close> and shows whole seconds of it.\<close>

definition clock_inv :: "'d state \<Rightarrow> bool" where
  "clock_inv s \<longleftrightarrow> clock_ok s \<and> uptime_secs s * 1000 = unat (st_lastTick s)"

lemma unat_u32_bound: "unat (w::u32) < 2 ^ 32"
  using unsigned_less [of w] by simp

lemma uptime_secs_days: "uptime_secs s \<ge> unat (st_days s)"
  by (simp add: uptime_secs_def)

lemma clock_tick_correct:
  assumes "clock_inv s" and "st_lastTick s \<le> now"
  shows "clock_inv (clock_tick now s) \<and> st_lastTick (clock_tick now s) \<le> now \<and>
     unat now - unat (st_lastTick (clock_tick now s)) =
       (let d = unat now - unat (st_lastTick s) in if 1000 \<le> d then d - 1000 else d)"
proof -
  let ?l = "st_lastTick s"
  have diff: "unat (now - ?l) = unat now - unat ?l" using assms(2) by (rule unat_sub)
  have le: "unat ?l \<le> unat now" using assms(2) by (simp add: word_le_nat_alt)
  show ?thesis
  proof (cases "1000 \<le> now - ?l")
    case False
    moreover from False have "\<not> 1000 \<le> unat now - unat ?l" using diff by (simp add: word_le_nat_alt)
    moreover have "\<not> now < ?l" using assms(2) by simp
    ultimately show ?thesis using assms by (simp add: clock_tick_def Let_def)
  next
    case True
    then have big: "1000 \<le> unat now - unat ?l" using diff by (simp add: word_le_nat_alt)
    then have "unat ?l + 1000 < 2 ^ 32"
      using unat_u32_bound [of now] by simp
    then have l: "unat (?l + 1000) = unat ?l + 1000" by (simp add: unat_word_ariths)
    let ?s = "s\<lparr>st_lastTick := ?l + 1000\<rparr>"
    have "unat (st_days ?s) + 1 < 2 ^ 32"
      using uptime_secs_days [of s] assms(1) unat_u32_bound [of ?l] by (simp add: clock_inv_def)
    moreover have "clock_ok ?s" "uptime_secs ?s = uptime_secs s"
      using assms(1) by (simp_all add: clock_inv_def clock_ok_def uptime_secs_def)
    ultimately have sec: "clock_ok (clock_second ?s) \<and> uptime_secs (clock_second ?s) = uptime_secs s + 1 \<and>
        st_lastTick (clock_second ?s) = ?l + 1000"
      using clock_second_correct [of ?s] by simp
    have tick: "clock_tick now s = clock_second ?s"
      using True assms(2) by (simp add: clock_tick_def Let_def not_less)
    show ?thesis
      using sec l big le assms(1) by (simp add: tick clock_inv_def word_le_nat_alt)
  qed
qed

lemma led_call_frame:
  "led_call setLed x s = Inr s' \<Longrightarrow>
   st_current s' = st_current s \<and> st_prev s' = st_prev s \<and> st_ledSetupTimeout s' = st_ledSetupTimeout s \<and>
   st_identifyTimeout s' = st_identifyTimeout s \<and> st_lastTick s' = st_lastTick s \<and>
   clock_ok s' = clock_ok s \<and> uptime_secs s' = uptime_secs s"
  by (auto simp: led_call_def bind_res_Inr_iff clock_ok_def uptime_secs_def)

lemma state_event_clock:
  "state_event setLed ev s = Inr s' \<Longrightarrow>
   st_lastTick s' = st_lastTick s \<and> clock_ok s' = clock_ok s \<and> uptime_secs s' = uptime_secs s"
  by (cases ev) (auto simp: state_event_def Let_def clock_ok_def uptime_secs_def dest!: led_call_frame)

definition same_clock :: "'d state \<Rightarrow> 'd state \<Rightarrow> bool" where
  "same_clock s t \<longleftrightarrow>
     st_lastTick s = st_lastTick t \<and> clock_ok s = clock_ok t \<and> uptime_secs s = uptime_secs t"

lemma same_clock_simps [simp]:
  "same_clock s s" "same_clock (s\<lparr>st_ledSetupTimeout := x\<rparr>) s" "same_clock (s\<lparr>st_identifyTimeout := x\<rparr>) s"
  by (simp_all add: same_clock_def clock_ok_def uptime_secs_def)

lemma same_clock_trans: "same_clock s t \<Longrightarrow> same_clock t u \<Longrightarrow> same_clock s u"
  by (simp add: same_clock_def)

lemma timeout_clock:
  assumes "(if c then state_event setLed ev t else Inr s) = Inr s'" and "same_clock t s"
  shows "same_clock s' s"
proof (cases c)
  case True
  with assms(1) have "same_clock s' t" by (simp add: same_clock_def state_event_clock)
  then show ?thesis using assms(2) by (rule same_clock_trans)
qed (use assms in simp)

lemma state_loop_clock:
  assumes "state_loop setLed now now2 now3 s = Inr s'"
  shows "same_clock s' (clock_tick now s)"
proof -
  from assms obtain s2 where
    "(if st_ledSetupTimeout (clock_tick now s) \<noteq> 0 \<and> now2 > st_ledSetupTimeout (clock_tick now s)
      then state_event setLed LED_SETUP_DONE ((clock_tick now s)\<lparr>st_ledSetupTimeout := 0\<rparr>)
      else Inr (clock_tick now s)) = Inr s2"
    "(if st_identifyTimeout s2 \<noteq> 0 \<and> now3 > st_identifyTimeout s2
      then state_event setLed IDENTIFY_DONE (s2\<lparr>st_identifyTimeout := 0\<rparr>) else Inr s2) = Inr s'"
    unfolding state_loop_def Let_def bind_res_Inr_iff by blast
  from timeout_clock [OF this(2)] timeout_clock [OF this(1)] show ?thesis
    by (auto intro: same_clock_trans)
qed

text \<open>The main loop: one call of \<open>loop\<close> for each triple of readings.\<close>

fun run_loop :: "'d set_led \<Rightarrow> (u32 \<times> u32 \<times> u32) list \<Rightarrow> 'd state \<Rightarrow> fault + 'd state" where
  "run_loop setLed [] s = Inr s"
| "run_loop setLed ((now, now2, now3) # ts) s =
     bind_res (state_loop setLed now now2 now3 s) (run_loop setLed ts)"

text \<open>The readings of the clock do not decrease and are at most a second apart.\<close>

fun steady :: "u32 \<Rightarrow> (u32 \<times> u32 \<times> u32) list \<Rightarrow> bool" where
  "steady t [] = True"
| "steady t ((now, _) # ts) = (t \<le> now \<and> unat now \<le> unat t + 1000 \<and> steady now ts)"

definition last_reading :: "u32 \<Rightarrow> (u32 \<times> u32 \<times> u32) list \<Rightarrow> u32" where
  "last_reading t ts = (if ts = [] then t else fst (last ts))"

lemma run_loop_clock:
  assumes "run_loop setLed ts s = Inr s'" "steady t ts" "clock_inv s"
    and "st_lastTick s \<le> t" "unat t - unat (st_lastTick s) < 1000"
  shows "clock_inv s' \<and> st_lastTick s' \<le> last_reading t ts \<and>
     unat (last_reading t ts) - unat (st_lastTick s') < 1000"
  using assms
proof (induction setLed ts s arbitrary: t rule: run_loop.induct)
  case (1 setLed s)
  then show ?case by (simp add: last_reading_def)
next
  case (2 setLed now now2 now3 ts s)
  from "2.prems"(1) obtain s1 where s1: "state_loop setLed now now2 now3 s = Inr s1"
    and rest: "run_loop setLed ts s1 = Inr s'"
    by (auto simp: bind_res_Inr_iff)
  have "st_lastTick s \<le> now" using "2.prems"(2,4) by (auto intro: order_trans)
  from clock_tick_correct [OF "2.prems"(3) this] state_loop_clock [OF s1, unfolded same_clock_def] "2.prems"(2,4,5)
  have "clock_inv s1 \<and> st_lastTick s1 \<le> now \<and> unat now - unat (st_lastTick s1) < 1000"
    by (auto simp: clock_inv_def Let_def word_le_nat_alt split: if_splits)
  with "2.IH" [OF rest, of now] "2.prems"(2) show ?case
    by (auto simp: last_reading_def)
qed


text \<open>The text of the uptime fits its 20 bytes as long as the days have at most five digits.\<close>

lemma getUptime_fits:
  assumes "clock_ok s" and "unat (st_days s) < 100000"
  shows "getUptime s =
     show_nat (unat (st_days s)) @ '' days '' @ show_pad0 2 (unat (st_HH s)) @ '':'' @
     show_pad0 2 (unat (st_MM s)) @ '':'' @ show_pad0 2 (unat (st_SS s))"
proof -
  let ?d = "st_days s"
  have nat: "uint ?d = int (unat ?d)" by simp
  from assms(2) have "int (unat ?d) < 100000" by linarith
  then have "uint ?d < 100000" by simp
  then have "uint ?d < 2 ^ 31" by simp
  then have "signed_take_bit 31 (uint ?d) = uint ?d"
    by (intro signed_take_bit_int_eq_self) (auto intro: order_trans [of _ 0])
  with nat have "sint ?d = int (unat ?d)" by (simp add: sint_uint)
  then have "show_int (sint (st_days s)) = show_nat (unat (st_days s))" by (simp add: show_int_def)
  moreover have "length (show_nat (unat (st_days s))) \<le> 5"
    using length_show_nat [of _ 5] assms(2) by simp
  ultimately show ?thesis
    using assms(1) by (simp add: getUptime_def snprintf_def clock_ok_def length_show_pad0 [of 2, simplified])
qed

section \<open>What the state relies on\<close>

text \<open>
  The contract of the LED controller: when it is ready, \<open>setState\<close> succeeds, the next cycle of the
  LED task shows the pattern of that state, and it stays ready.
\<close>

locale led_display =
  fixes ready :: "'d \<Rightarrow> bool"
    and shown :: "'d \<Rightarrow> led_pattern"
    and setLed :: "States \<Rightarrow> 'd \<Rightarrow> fault + 'd"
  assumes set_shows: "ready d \<Longrightarrow> \<exists>d'. setLed x d = Inr d' \<and> ready d' \<and> shown d' = state_pattern x"
begin

lemma led_call_shows:
  assumes "ready (st_led s)"
  obtains d where "led_call setLed x s = Inr (s\<lparr>st_led := d\<rparr>)" "ready d" "shown d = state_pattern x"
  using set_shows [OF assms, of x] by (auto simp: led_call_def)

lemma event_restores:
  assumes "ready (st_led s)" and "ev \<in> {LED_SETUP_DONE, IDENTIFY_DONE}"
  obtains d where "state_event setLed ev s = Inr (s\<lparr>st_current := st_prev s, st_led := d\<rparr>)"
    "ready d" "shown d = state_pattern (st_prev s)"
proof -
  let ?s = "s\<lparr>st_current := st_prev s\<rparr>"
  have "ready (st_led ?s)" using assms(1) by simp
  from led_call_shows [OF this, of "st_prev s"] obtain d where
    "led_call setLed (st_prev s) ?s = Inr (?s\<lparr>st_led := d\<rparr>)" "ready d" "shown d = state_pattern (st_prev s)" .
  with assms(2) show thesis by (intro that [of d]) (auto simp: state_event_def)
qed

lemma setState_shows:
  assumes "ready (st_led s)" and "x \<notin> {LED_SETUP, IDENTIFY, IR_LEARN_OK, IR_LEARN_FAILED}"
    and "st_current s \<noteq> x"
  obtains d where
    "setState setLed now x s =
       Inr (st_current s, s\<lparr>st_prev := st_current s, st_current := x, st_led := d\<rparr>)"
    "ready d" "shown d = state_pattern x"
proof -
  let ?s = "s\<lparr>st_prev := st_current s, st_current := x\<rparr>"
  have "ready (st_led ?s)" using assms(1) by simp
  from led_call_shows [OF this, of x] obtain d where
    d: "led_call setLed x ?s = Inr (?s\<lparr>st_led := d\<rparr>)" "ready d" "shown d = state_pattern x" .
  have "setState setLed now x s = Inr (st_current s, ?s\<lparr>st_led := d\<rparr>)"
    using assms(2,3) d(1) by (cases x) (simp_all add: setState_def)
  with d(2,3) show thesis by (intro that [of d]) simp_all
qed

text \<open>Whatever the state, the call succeeds and the controller stays ready.\<close>

lemma setState_ready:
  assumes "ready (st_led s)"
  obtains p s' where "setState setLed now x s = Inr (p, s')" "ready (st_led s')"
proof -
  let ?step = "\<lambda>s2. bind_res (if st_prev s2 \<noteq> x then led_call setLed x s2 else Inr s2)
     (\<lambda>s3. let s4 = (if x = IR_LEARN_FAILED \<or> x = IR_LEARN_OK then s3\<lparr>st_current := st_prev s3\<rparr> else s3)
           in Inr (st_prev s4, s4))"
  have step: "\<exists>p s'. ?step s2 = Inr (p, s') \<and> ready (st_led s')" if "ready (st_led s2)" for s2
  proof (cases "st_prev s2 = x")
    case True
    with that show ?thesis by simp
  next
    case False
    from led_call_shows [OF that, of x] obtain d where "led_call setLed x s2 = Inr (s2\<lparr>st_led := d\<rparr>)" "ready d" .
    with False show ?thesis by simp
  qed
  let ?s1 = "case x of
       LED_SETUP \<Rightarrow> remember_state x (s\<lparr>st_ledSetupTimeout := now + 2000\<rparr>)
     | IDENTIFY \<Rightarrow> remember_state x (s\<lparr>st_identifyTimeout := now + 3000\<rparr>)
     | _ \<Rightarrow> s\<lparr>st_prev := st_current s\<rparr>"
  have "ready (st_led (?s1\<lparr>st_current := x\<rparr>))"
    using assms by (cases x) (simp_all add: remember_state_def)
  from step [OF this] obtain p s' where
    "?step (?s1\<lparr>st_current := x\<rparr>) = Inr (p, s')" "ready (st_led s')" by blast
  then show thesis by (intro that) (simp_all only: setState_def Let_def)
qed

text \<open>The pseudo state of the identify request: what it remembers, and what its timeout restores.\<close>

lemma identify_starts:
  assumes "ready (st_led s)" and "st_prev s \<noteq> IDENTIFY" and "st_current s \<noteq> IDENTIFY"
  obtains d where
    "setState setLed now IDENTIFY s =
       Inr (st_current s, s\<lparr>st_identifyTimeout := now + 3000, st_prev := st_current s,
                            st_current := IDENTIFY, st_led := d\<rparr>)"
    "ready d" "shown d = P_IDENTIFY"
proof -
  let ?s = "s\<lparr>st_identifyTimeout := now + 3000, st_prev := st_current s, st_current := IDENTIFY\<rparr>"
  have "ready (st_led ?s)" using assms(1) by simp
  from led_call_shows [OF this, of IDENTIFY] obtain d where
    d: "led_call setLed IDENTIFY ?s = Inr (?s\<lparr>st_led := d\<rparr>)" "ready d" "shown d = state_pattern IDENTIFY" .
  have "setState setLed now IDENTIFY s = Inr (st_current s, ?s\<lparr>st_led := d\<rparr>)"
    using assms(2,3) d(1) by (simp add: setState_def remember_state_def)
  with d(2,3) show thesis by (intro that [of d]) (simp_all add: state_pattern_def)
qed

lemma loop_before_timeout:
  assumes "st_ledSetupTimeout s = 0" and "now3 \<le> st_identifyTimeout s"
  shows "state_loop setLed now now2 now3 s = Inr (clock_tick now s)"
proof -
  have "\<not> st_identifyTimeout s < now3" using assms(2) by simp
  with assms(1) show ?thesis by (simp add: state_loop_def Let_def frame_simps)
qed

lemma loop_at_timeout:
  assumes "ready (st_led s)" "st_ledSetupTimeout s = 0" "st_identifyTimeout s \<noteq> 0"
    and "st_identifyTimeout s < now3"
  obtains s' where "state_loop setLed now now2 now3 s = Inr s'" "st_current s' = st_prev s"
    "st_prev s' = st_prev s" "st_identifyTimeout s' = 0" "st_ledSetupTimeout s' = 0" "ready (st_led s')"
    "shown (st_led s') = state_pattern (st_prev s)"
proof -
  let ?s = "(clock_tick now s)\<lparr>st_identifyTimeout := 0\<rparr>"
  have "ready (st_led ?s)" using assms(1) by (simp add: frame_simps)
  from event_restores [OF this, of IDENTIFY_DONE] obtain d where
    "state_event setLed IDENTIFY_DONE ?s = Inr (?s\<lparr>st_current := st_prev s, st_led := d\<rparr>)" "ready d"
    "shown d = state_pattern (st_prev s)"
    by (auto simp: frame_simps)
  with assms(2-4) show thesis
    by (intro that [of "?s\<lparr>st_current := st_prev s, st_led := d\<rparr>"])
       (simp_all add: state_loop_def Let_def frame_simps)
qed

end

definition led_ready :: "'e eventgroup_ops \<Rightarrow> 'e led \<Rightarrow> bool" where
  "led_ready ops l \<longleftrightarrow> eventgroup_spec ops \<and>
     (\<exists>e. led_eventgroup l = Some e \<and> eg_get ops e AND NOT 0xFFFF = 0)"

definition led_shown :: "'e eventgroup_ops \<Rightarrow> 'e led \<Rightarrow> led_pattern" where
  "led_shown ops l =
     (case led_eventgroup l of None \<Rightarrow> P_OFF | Some e \<Rightarrow> select_pattern (eg_get ops e))"

interpretation led_control: led_display "led_ready ops" "led_shown ops" "led_setState ops" for ops
proof
  fix d x
  assume "led_ready ops d"
  then obtain e where e: "eventgroup_spec ops" "led_eventgroup d = Some e" "eg_get ops e AND NOT 0xFFFF = 0"
    by (auto simp: led_ready_def)
  then obtain d' where d: "led_setState ops x d = Inr d'" by (simp add: led_setState_def Let_def)
  from set_bits_after_clear [OF e(1,3,2) d] state_bits_low [of x]
  show "\<exists>d'. led_setState ops x d = Inr d' \<and> led_ready ops d' \<and> led_shown ops d' = state_pattern x"
    using e(1) d by (auto simp: led_ready_def led_shown_def select_state_bits)
qed

section \<open>States and timeouts on the modelled controller\<close>

text \<open>
  A regular state set while another one is current is recorded, the old one is remembered,
  and the LED task's next cycle shows its pattern.
\<close>

theorem setState_current_and_shown:
  assumes "led_ready ops (st_led s)" and "st_current s \<noteq> x"
    and "x \<notin> {LED_SETUP, IDENTIFY, IR_LEARN_OK, IR_LEARN_FAILED}"
  shows "\<exists>s'. setState (led_setState ops) now x s = Inr (st_current s, s') \<and> getState s' = x \<and>
     st_prev s' = st_current s \<and> led_shown ops (st_led s') = state_pattern x"
  by (rule led_control.setState_shows [OF assms(1,3,2), of now]) (auto simp: getState_def)

text \<open>
  An identify request shows its pattern and, when nothing else happens, ends: calls of
  \<open>loop\<close> before the timeout keep the pseudo state, the first one after 3 s restores the state and
  its pattern and disarms the timeout.
\<close>

theorem identify_restores_state:
  assumes "led_ready ops (st_led s)" "st_ledSetupTimeout s = 0" "st_prev s \<noteq> IDENTIFY" "st_current s \<noteq> IDENTIFY"
    and "unat t0 + 3000 < 2 ^ 32" and "now3 \<le> t0 + 3000" and "t0 + 3000 < now3'"
  shows "\<exists>s1 s2 s3. setState (led_setState ops) t0 IDENTIFY s = Inr (st_current s, s1) \<and>
     led_shown ops (st_led s1) = P_IDENTIFY \<and>
     state_loop (led_setState ops) now now2 now3 s1 = Inr s2 \<and> st_current s2 = IDENTIFY \<and>
     state_loop (led_setState ops) now' now2' now3' s2 = Inr s3 \<and> st_current s3 = st_current s \<and>
     led_shown ops (st_led s3) = state_pattern (st_current s) \<and> st_identifyTimeout s3 = 0"
proof -
  obtain d where s1: "setState (led_setState ops) t0 IDENTIFY s =
       Inr (st_current s, s\<lparr>st_identifyTimeout := t0 + 3000, st_prev := st_current s,
                            st_current := IDENTIFY, st_led := d\<rparr>)"
    and d: "led_ready ops d" "led_shown ops d = P_IDENTIFY"
    by (rule led_control.identify_starts [OF assms(1,3,4), of t0])
  let ?s1 = "s\<lparr>st_identifyTimeout := t0 + 3000, st_prev := st_current s, st_current := IDENTIFY, st_led := d\<rparr>"
  let ?s2 = "clock_tick now ?s1"
  have nz: "t0 + 3000 \<noteq> 0"
  proof
    assume "t0 + 3000 = 0"
    then have "unat (t0 + 3000) = 0" by simp
    then show False using assms(5) by (simp add: unat_word_ariths)
  qed
  have s2: "state_loop (led_setState ops) now now2 now3 ?s1 = Inr ?s2"
    by (rule led_control.loop_before_timeout) (use assms in simp_all)
  have "led_ready ops (st_led ?s2)" "st_ledSetupTimeout ?s2 = 0" "st_identifyTimeout ?s2 \<noteq> 0"
    "st_identifyTimeout ?s2 < now3'"
    using assms d nz by (simp_all add: frame_simps)
  from led_control.loop_at_timeout [OF this, of now' now2'] obtain s3 where
    "state_loop (led_setState ops) now' now2' now3' ?s2 = Inr s3" "st_current s3 = st_prev ?s2"
    "st_identifyTimeout s3 = 0" "led_shown ops (st_led s3) = state_pattern (st_prev ?s2)"
    by metis
  with s1 s2 d show ?thesis by (auto simp: frame_simps)
qed

text \<open>
  A state set while the identify pattern is shown does not survive its timeout: \<open>setState\<close>
  remembers the pseudo state as the previous one, and the timeout \<open>restores\<close> that. The dock then
  stays in the identify state, its timeout disarmed.
\<close>

theorem identify_timeout_discards_state:
  assumes "led_ready ops (st_led s)" "st_ledSetupTimeout s = 0" "st_prev s \<noteq> IDENTIFY" "st_current s \<noteq> IDENTIFY"
    and "x \<notin> {LED_SETUP, IDENTIFY, IR_LEARN_OK, IR_LEARN_FAILED}"
    and "t0 + 3000 \<noteq> 0" and "t0 + 3000 < now3"
  shows "\<exists>s1 s2 s3 p. setState (led_setState ops) t0 IDENTIFY s = Inr (st_current s, s1) \<and>
     setState (led_setState ops) t1 x s1 = Inr (p, s2) \<and> st_current s2 = x \<and>
     state_loop (led_setState ops) now now2 now3 s2 = Inr s3 \<and> st_current s3 = IDENTIFY \<and>
     led_shown ops (st_led s3) = P_IDENTIFY \<and> st_identifyTimeout s3 = 0 \<and> st_ledSetupTimeout s3 = 0"
proof -
  obtain d where s1: "setState (led_setState ops) t0 IDENTIFY s =
       Inr (st_current s, s\<lparr>st_identifyTimeout := t0 + 3000, st_prev := st_current s,
                            st_current := IDENTIFY, st_led := d\<rparr>)"
    and d: "led_ready ops d" "led_shown ops d = P_IDENTIFY"
    by (rule led_control.identify_starts [OF assms(1,3,4), of t0])
  let ?s1 = "s\<lparr>st_identifyTimeout := t0 + 3000, st_prev := st_current s, st_current := IDENTIFY, st_led := d\<rparr>"
  have "led_ready ops (st_led ?s1)" "st_current ?s1 \<noteq> x" using d assms(5) by auto
  from led_control.setState_shows [OF this(1) assms(5) this(2), of t1] obtain d2 where
    s2: "setState (led_setState ops) t1 x ?s1 =
       Inr (IDENTIFY, ?s1\<lparr>st_prev := IDENTIFY, st_current := x, st_led := d2\<rparr>)" and d2: "led_ready ops d2"
    by auto
  let ?s2 = "?s1\<lparr>st_prev := IDENTIFY, st_current := x, st_led := d2\<rparr>"
  have "led_ready ops (st_led ?s2)" "st_ledSetupTimeout ?s2 = 0" "st_identifyTimeout ?s2 \<noteq> 0"
    "st_identifyTimeout ?s2 < now3"
    using assms d2 by simp_all
  from led_control.loop_at_timeout [OF this, of now now2] obtain s3 where
    s3: "state_loop (led_setState ops) now now2 now3 ?s2 = Inr s3" "st_current s3 = IDENTIFY"
    "st_identifyTimeout s3 = 0" "st_ledSetupTimeout s3 = 0" "led_shown ops (st_led s3) = P_IDENTIFY"
    by (auto simp: state_pattern_def)
  have "st_current ?s2 = x" by simp
  with s1 s2 s3 show ?thesis by blast
qed

section \<open>Concrete runs\<close>

definition ex_state :: "u32 led state" where
  "ex_state = (State_init (led_init 0 False led_start))\<lparr>st_current := NORMAL\<rparr>"

lemma ex_state_ready: "led_ready word_eventgroup (st_led ex_state)"
  by (simp add: led_ready_def word_eventgroup_spec ex_state_def State_init_def led_init_def led_start_def)
    (simp add: word_eventgroup_def)

lemma ex_state_fields: "st_ledSetupTimeout ex_state = 0" "st_prev ex_state = NOT_SET"
    "st_current ex_state = NORMAL"
  by (simp_all add: ex_state_def State_init_def)

theorem setState_current_and_shown_witness:
  "\<exists>s'. setState (led_setState word_eventgroup) 5 ERROR ex_state = Inr (NORMAL, s') \<and> getState s' = ERROR \<and>
     st_prev s' = NORMAL \<and> led_shown word_eventgroup (st_led s') = P_ERROR"
  using setState_current_and_shown [OF ex_state_ready, of ERROR 5]
  by (simp add: ex_state_fields state_pattern_def)

theorem identify_restores_state_witness:
  "\<exists>s1 s2 s3. setState (led_setState word_eventgroup) 100 IDENTIFY ex_state = Inr (NORMAL, s1) \<and>
     led_shown word_eventgroup (st_led s1) = P_IDENTIFY \<and>
     state_loop (led_setState word_eventgroup) 200 200 200 s1 = Inr s2 \<and> st_current s2 = IDENTIFY \<and>
     state_loop (led_setState word_eventgroup) 3101 3101 3101 s2 = Inr s3 \<and> st_current s3 = NORMAL \<and>
     led_shown word_eventgroup (st_led s3) = P_OFF \<and> st_identifyTimeout s3 = 0"
  using identify_restores_state [OF ex_state_ready, of 100 200 3101 200 200 3101 3101]
  by (simp add: ex_state_fields state_pattern_def)

theorem identify_timeout_discards_state_witness:
  "\<exists>s1 s2 s3 p. setState (led_setState word_eventgroup) 100 IDENTIFY ex_state = Inr (NORMAL, s1) \<and>
     setState (led_setState word_eventgroup) 200 NORMAL_CHARGING s1 = Inr (p, s2) \<and>
     state_loop (led_setState word_eventgroup) 3101 3101 3101 s2 = Inr s3 \<and> st_current s3 = IDENTIFY"
  using identify_timeout_discards_state [OF ex_state_ready, of NORMAL_CHARGING 100 3101 200 3101 3101]
  by (auto simp: ex_state_fields)


end
