(* ===== verification/StateMutex.thy ===== *)
theory StateMutex
  imports DockState
begin

text \<open>
  \<open>src/lib/mutex/mutex.cpp\<close> and its use in \<open>src/lib/state/state.cpp\<close>. \<open>GetMutex\<close> is a short piece of
  assembler: it masks the interrupts of its core, loads the mutex, compares and stores. Modelled are
  the function as a whole and, for any number of tasks on any cores, the steps between which another
  task can run; and \<open>setState\<close> in the parts before and after the mutex is released.
\<close>

section \<open>The functions\<close>

type_synonym mutex_t = u32

definition CreateMutux :: mutex_t where "CreateMutux = 1"

text \<open>The result and the new value: \<open>bne\<close> skips the store unless the value is 1.\<close>

definition GetMutex :: "mutex_t \<Rightarrow> bool \<times> mutex_t" where
  "GetMutex m = (let iOld = m in (iOld \<noteq> 0, if iOld = 1 then 0 else m))"

definition ReleaseMutex :: "mutex_t \<Rightarrow> mutex_t" where "ReleaseMutex m = 1"

section \<open>Tasks and cores\<close>

text \<open>A task is outside, between load and store, or has the mutex.\<close>

datatype lock_pc = Outside | Loaded mutex_t | Inside

record mutex_system =
  mx_value :: mutex_t
  mx_pc :: "nat \<Rightarrow> lock_pc"

definition mutex_start :: mutex_system where
  "mutex_start = \<lparr>mx_value = CreateMutux, mx_pc = (\<lambda>_. Outside)\<rparr>"

text \<open>\<open>rsil\<close> to \<open>wsr.ps\<close>: no other task of the same core runs.\<close>

definition masked :: "(nat \<Rightarrow> nat) \<Rightarrow> mutex_system \<Rightarrow> nat \<Rightarrow> bool" where
  "masked core s t \<longleftrightarrow> (\<exists>u v. u \<noteq> t \<and> core u = core t \<and> mx_pc s u = Loaded v)"

definition mutex_load :: "nat \<Rightarrow> mutex_system \<Rightarrow> mutex_system" where
  "mutex_load t s = s\<lparr>mx_pc := (mx_pc s)(t := Loaded (mx_value s))\<rparr>"

definition mutex_store :: "nat \<Rightarrow> mutex_t \<Rightarrow> mutex_system \<Rightarrow> mutex_system" where
  "mutex_store t iOld s =
     s\<lparr>mx_value := (if iOld = 1 then 0 else mx_value s),
       mx_pc := (mx_pc s)(t := if iOld \<noteq> 0 then Inside else Outside)\<rparr>"

definition mutex_release :: "nat \<Rightarrow> mutex_system \<Rightarrow> mutex_system" where
  "mutex_release t s = s\<lparr>mx_value := ReleaseMutex (mx_value s), mx_pc := (mx_pc s)(t := Outside)\<rparr>"

inductive mutex_step :: "(nat \<Rightarrow> nat) \<Rightarrow> mutex_system \<Rightarrow> mutex_system \<Rightarrow> bool" for core where
  step_load: "mx_pc s t = Outside \<Longrightarrow> \<not> masked core s t \<Longrightarrow> mutex_step core s (mutex_load t s)"
| step_store: "mx_pc s t = Loaded v \<Longrightarrow> mutex_step core s (mutex_store t v s)"
| step_release: "mx_pc s t = Inside \<Longrightarrow> \<not> masked core s t \<Longrightarrow> mutex_step core s (mutex_release t s)"

definition mutex_reach :: "(nat \<Rightarrow> nat) \<Rightarrow> mutex_system \<Rightarrow> bool" where
  "mutex_reach core s \<longleftrightarrow> (mutex_step core)\<^sup>*\<^sup>* mutex_start s"

text \<open>Without another task in between, the two steps are \<open>GetMutex\<close>.\<close>

lemma mutex_steps_GetMutex:
  "mutex_store t (mx_value s) (mutex_load t s) =
     s\<lparr>mx_value := snd (GetMutex (mx_value s)),
       mx_pc := (mx_pc s)(t := if fst (GetMutex (mx_value s)) then Inside else Outside)\<rparr>"
  by (simp add: mutex_store_def mutex_load_def GetMutex_def Let_def)

section \<open>One core\<close>

definition mutex_inv :: "mutex_system \<Rightarrow> bool" where
  "mutex_inv s \<longleftrightarrow>
     (mx_value s = 0 \<or> mx_value s = 1) \<and>
     (mx_value s = 1 \<longrightarrow> (\<forall>t. mx_pc s t \<noteq> Inside)) \<and>
     (mx_value s = 0 \<longrightarrow> (\<exists>t. mx_pc s t = Inside)) \<and>
     (\<forall>t u. mx_pc s t = Inside \<longrightarrow> mx_pc s u = Inside \<longrightarrow> t = u) \<and>
     (\<forall>t v. mx_pc s t = Loaded v \<longrightarrow> v = mx_value s) \<and>
     (\<forall>t u v w. mx_pc s t = Loaded v \<longrightarrow> mx_pc s u = Loaded w \<longrightarrow> t = u)"

lemma mutex_inv_start: "mutex_inv mutex_start"
  by (simp add: mutex_inv_def mutex_start_def CreateMutux_def)

lemma nobody_loaded:
  "\<not> masked core s t \<Longrightarrow> core t = core u \<Longrightarrow> mx_pc s t \<noteq> Loaded v \<Longrightarrow> mx_pc s u \<noteq> Loaded v"
  unfolding masked_def by metis

lemma mutex_invI:
  assumes "mx_value s = 0 \<or> mx_value s = 1"
    and "\<And>t. mx_value s = 1 \<Longrightarrow> mx_pc s t \<noteq> Inside"
    and "mx_value s = 0 \<Longrightarrow> \<exists>t. mx_pc s t = Inside"
    and "\<And>t u. mx_pc s t = Inside \<Longrightarrow> mx_pc s u = Inside \<Longrightarrow> t = u"
    and "\<And>t v. mx_pc s t = Loaded v \<Longrightarrow> v = mx_value s"
    and "\<And>t u v w. mx_pc s t = Loaded v \<Longrightarrow> mx_pc s u = Loaded w \<Longrightarrow> t = u"
  shows "mutex_inv s"
  unfolding mutex_inv_def using assms by blast

lemma mutex_invD:
  assumes "mutex_inv s"
  shows "mx_value s = 0 \<or> mx_value s = 1"
    and "mx_value s = 1 \<Longrightarrow> mx_pc s t \<noteq> Inside"
    and "mx_value s = 0 \<Longrightarrow> \<exists>t. mx_pc s t = Inside"
    and "mx_pc s t = Inside \<Longrightarrow> mx_pc s u = Inside \<Longrightarrow> t = u"
    and "mx_pc s t = Loaded v \<Longrightarrow> v = mx_value s"
    and "mx_pc s t = Loaded v \<Longrightarrow> mx_pc s u = Loaded w \<Longrightarrow> t = u"
  using assms unfolding mutex_inv_def by blast+

lemma other_task: "\<exists>u. f u = b \<Longrightarrow> f t = a \<Longrightarrow> a \<noteq> b \<Longrightarrow> \<exists>u. u \<noteq> t \<and> f u = b"
  by metis

lemma mutex_load_simps [simp]:
  "mx_value (mutex_load t s) = mx_value s"
  "mx_pc (mutex_load t s) u = (if u = t then Loaded (mx_value s) else mx_pc s u)"
  by (simp_all add: mutex_load_def)

lemma mutex_store_simps [simp]:
  "mx_value (mutex_store t v s) = (if v = 1 then 0 else mx_value s)"
  "mx_pc (mutex_store t v s) u = (if u = t then if v \<noteq> 0 then Inside else Outside else mx_pc s u)"
  by (simp_all add: mutex_store_def)

lemma mutex_release_simps [simp]:
  "mx_value (mutex_release t s) = 1"
  "mx_pc (mutex_release t s) u = (if u = t then Outside else mx_pc s u)"
  by (simp_all add: mutex_release_def ReleaseMutex_def)

lemma mutex_inv_step:
  assumes "mutex_step core s s'" "\<And>t u. core t = core u" and inv: "mutex_inv s"
  shows "mutex_inv s'"
  using assms(1)
proof (cases rule: mutex_step.cases)
  case (step_load t)
  have "mx_pc s u \<noteq> Loaded v" for u v
    using nobody_loaded [OF step_load(3) assms(2)] step_load(2) by (metis lock_pc.distinct(1))
  moreover have "\<exists>u. u \<noteq> t \<and> mx_pc s u = Inside" if "mx_value s = 0"
    by (rule other_task [OF mutex_invD(3) [OF inv that] step_load(2)]) simp
  ultimately show ?thesis unfolding step_load(1)
    using mutex_invD(1) [OF inv] by (intro mutex_invI) (auto dest: mutex_invD(2,4) [OF inv] split: if_splits)
next
  case (step_store t v)
  have v: "v = mx_value s" "mx_pc s u = Loaded w \<Longrightarrow> u = t" for u w
    using mutex_invD(5,6) [OF inv] step_store(2) by blast+
  moreover have "\<exists>u. u \<noteq> t \<and> mx_pc s u = Inside" if "mx_value s = 0"
    by (rule other_task [OF mutex_invD(3) [OF inv that] step_store(2)]) simp
  ultimately show ?thesis unfolding step_store(1)
    using mutex_invD(1) [OF inv]
    by (intro mutex_invI) (auto dest: mutex_invD(2,4) [OF inv] v(2) split: if_splits)
next
  case (step_release t)
  have "mx_pc s u \<noteq> Loaded v" for u v
    using nobody_loaded [OF step_release(3) assms(2)] step_release(2) by (metis lock_pc.distinct(5))
  then show ?thesis unfolding step_release(1)
    using mutex_invD(4) [OF inv _ step_release(2)]
    by (intro mutex_invI) (auto split: if_splits)
qed

lemma mutex_inv_reach:
  assumes "mutex_reach core s" "\<And>t u. core t = core u"
  shows "mutex_inv s"
  using assms(1) unfolding mutex_reach_def
  by (induction rule: rtranclp_induct) (auto intro: mutex_inv_start mutex_inv_step assms(2))

text \<open>
  C29. When all tasks run on one core, at most one of them has the mutex, however they are
  interrupted; and the mutex is never lost: when no task has it, the next \<open>GetMutex\<close> succeeds.
\<close>

theorem mutex_excludes:
  assumes "mutex_reach core s" "\<And>t u. core t = core u"
  shows "(\<forall>t u. mx_pc s t = Inside \<longrightarrow> mx_pc s u = Inside \<longrightarrow> t = u) \<and>
    fst (GetMutex (mx_value s)) = (\<forall>t. mx_pc s t \<noteq> Inside)"
proof -
  have inv: "mutex_inv s" using mutex_inv_reach [OF assms] .
  have "(mx_value s \<noteq> 0) = (\<forall>t. mx_pc s t \<noteq> Inside)"
    using mutex_invD(1-3) [OF inv] by metis
  with mutex_invD(4) [OF inv] show ?thesis by (simp add: GetMutex_def Let_def)
qed

section \<open>Two cores\<close>

definition both_inside :: mutex_system where
  "both_inside = mutex_store 1 1 (mutex_store 0 1 (mutex_load 1 (mutex_load 0 mutex_start)))"

text \<open>
  C30. Masking the interrupts of one core does not stop the other one: two tasks on different cores
  of the ESP32 can both have the mutex.
\<close>

theorem mutex_fails_on_two_cores:
  assumes "core 0 \<noteq> core 1"
  shows "mutex_reach core both_inside \<and> mx_pc both_inside 0 = Inside \<and> mx_pc both_inside 1 = Inside"
proof -
  let ?s1 = "mutex_load 0 mutex_start" and ?s2 = "mutex_load 1 (mutex_load 0 mutex_start)"
  have "mutex_step core mutex_start ?s1"
    by (rule step_load) (simp_all add: masked_def mutex_start_def)
  moreover have "mutex_step core ?s1 ?s2"
    by (rule step_load) (use assms in \<open>auto simp: masked_def mutex_start_def mutex_load_def\<close>)
  moreover have "mutex_step core ?s2 (mutex_store 0 1 ?s2)"
    by (rule step_store) (simp add: mutex_load_def mutex_start_def CreateMutux_def)
  moreover have "mutex_step core (mutex_store 0 1 ?s2) both_inside"
    unfolding both_inside_def
    by (rule step_store) (simp add: mutex_load_def mutex_store_def mutex_start_def CreateMutux_def)
  ultimately have "mutex_reach core both_inside"
    unfolding mutex_reach_def by (meson converse_rtranclp_into_rtranclp rtranclp.rtrancl_refl)
  then show ?thesis by (simp add: both_inside_def mutex_store_def mutex_load_def)
qed

section \<open>\<open>setState\<close> in its parts\<close>

text \<open>What runs under the mutex, what runs after it: the LED, and leaving a pseudo state.\<close>

definition setState_locked :: "u32 \<Rightarrow> States \<Rightarrow> 'd state \<Rightarrow> 'd state" where
  "setState_locked now x s =
     (case x of
        LED_SETUP \<Rightarrow> remember_state x (s\<lparr>st_ledSetupTimeout := now + 2000\<rparr>)
      | IDENTIFY \<Rightarrow> remember_state x (s\<lparr>st_identifyTimeout := now + 3000\<rparr>)
      | _ \<Rightarrow> s\<lparr>st_prev := st_current s\<rparr>)\<lparr>st_current := x\<rparr>"

definition setState_led :: "'d set_led \<Rightarrow> States \<Rightarrow> 'd state \<Rightarrow> fault + 'd state" where
  "setState_led setLed x s = (if st_prev s \<noteq> x then led_call setLed x s else Inr s)"

definition setState_leave :: "States \<Rightarrow> 'd state \<Rightarrow> 'd state" where
  "setState_leave x s =
     (if x = IR_LEARN_FAILED \<or> x = IR_LEARN_OK then s\<lparr>st_current := st_prev s\<rparr> else s)"

lemma setState_parts:
  "setState setLed now x s =
     bind_res (setState_led setLed x (setState_locked now x s))
       (\<lambda>s3. Inr (st_prev (setState_leave x s3), setState_leave x s3))"
  by (simp add: setState_def setState_locked_def setState_led_def setState_leave_def Let_def)

definition pseudo_state :: "States \<Rightarrow> bool" where
  "pseudo_state x \<longleftrightarrow> x = IR_LEARN_FAILED \<or> x = IR_LEARN_OK"

text \<open>Alone, \<open>setState\<close> never remains in a pseudo state.\<close>

lemma setState_leaves_pseudo:
  assumes "setState setLed now x s = Inr (r, s')" "\<not> pseudo_state (st_current s)"
  shows "\<not> pseudo_state (st_current s')"
  using assms
  by (cases x) (auto simp: setState_parts setState_led_def setState_locked_def setState_leave_def
      bind_res_Inr_iff pseudo_state_def dest!: led_call_frame split: if_splits)

text \<open>
  C31. The last part of \<open>setState\<close> runs without the mutex. When learning is stopped while the
  result of a learned code is being shown, the dock stays in the pseudo state: the learn task
  leaves \<open>IR_LEARN_OK\<close> for \<open>m_prevState\<close>, which is \<open>IR_LEARN_OK\<close> by then.
\<close>

theorem setState_race:
  assumes "pseudo_state x" "\<not> pseudo_state y" "y \<noteq> LED_SETUP" "y \<noteq> IDENTIFY"
    and "setState_led setLed x (setState_locked now x s) = Inr s1"
    and "setState setLed now' y s1 = Inr (r, s2)"
  shows "st_current s2 = y \<and> st_current (setState_leave x s2) = x"
proof -
  have "st_current s1 = x"
    using assms(5) by (auto simp: setState_led_def setState_locked_def dest!: led_call_frame split: if_splits)
  moreover have "st_current s2 = y \<and> st_prev s2 = st_current s1"
    using assms(2,3,4,6)
    by (cases y) (auto simp: setState_parts setState_led_def setState_locked_def setState_leave_def
        bind_res_Inr_iff pseudo_state_def dest!: led_call_frame split: if_splits)
  ultimately show ?thesis using assms(1) by (simp add: setState_leave_def pseudo_state_def)
qed

section \<open>Witnesses\<close>

lemma mutex_excludes_witness:
  "\<not> fst (GetMutex (mx_value (mutex_store 3 1 (mutex_load 3 mutex_start))))"
proof -
  let ?s = "mutex_store 3 1 (mutex_load 3 mutex_start)"
  have "mutex_step (\<lambda>_. 0) mutex_start (mutex_load 3 mutex_start)"
    by (rule step_load) (simp_all add: masked_def mutex_start_def)
  moreover have "mutex_step (\<lambda>_. 0) (mutex_load 3 mutex_start) ?s"
    by (rule step_store) (simp add: mutex_load_def mutex_start_def CreateMutux_def)
  ultimately have "mutex_reach (\<lambda>_. 0) ?s"
    unfolding mutex_reach_def by (meson converse_rtranclp_into_rtranclp rtranclp.rtrancl_refl)
  moreover have "mx_pc ?s 3 = Inside" by (simp add: mutex_store_def)
  ultimately show ?thesis using mutex_excludes [of "\<lambda>_. 0" ?s] by metis
qed

lemma mutex_fails_on_two_cores_witness:
  "mutex_reach (\<lambda>t. t mod 2) both_inside \<and> mx_pc both_inside 0 = Inside \<and> mx_pc both_inside 1 = Inside"
  by (rule mutex_fails_on_two_cores) simp

lemma setState_race_witness:
  "st_current (setState_leave IR_LEARN_OK
     (setState_locked 7 NORMAL (setState_locked 5 IR_LEARN_OK (State_init ())))) = IR_LEARN_OK"
proof -
  define s1 where "s1 = setState_locked 5 IR_LEARN_OK (State_init ())"
  define led :: "unit set_led" where "led = (\<lambda>_ d. Inr d)"
  have l: "led_call led x s = Inr s" for x s by (simp add: led_call_def led_def)
  have a: "setState_led led IR_LEARN_OK (setState_locked 5 IR_LEARN_OK (State_init ())) = Inr s1"
    by (simp add: setState_led_def l s1_def)
  have b: "setState led 7 NORMAL s1 = Inr (st_current s1, setState_locked 7 NORMAL s1)"
    by (simp add: setState_parts setState_led_def l setState_leave_def setState_locked_def)
  have p: "pseudo_state IR_LEARN_OK" "\<not> pseudo_state NORMAL" by (simp_all add: pseudo_state_def)
  from setState_race [OF p _ _ a b] show ?thesis by (simp add: s1_def)
qed

end
