(* ===== verification/DockInfo.thy ===== *)
theory DockInfo
  imports Config DockState
begin

text \<open>
  What the dock tells of itself: the layout of the fuses in \<open>src/lib/efuse/efuse.cpp\<close>, and the
  banner and the restart in \<open>src/lib/state/state.cpp\<close>.
\<close>

section \<open>The fuse block\<close>

text \<open>A field of fuse block 3: its first bit and its length in bits.\<close>

record efuse_desc =
  ed_start :: nat
  ed_bits :: nat

definition DOCK_SERIAL :: efuse_desc where "DOCK_SERIAL = \<lparr>ed_start = 8, ed_bits = 64\<rparr>"
definition DOCK_MODEL :: efuse_desc where "DOCK_MODEL = \<lparr>ed_start = 72, ed_bits = 56\<rparr>"
definition DOCK_HW_REV :: efuse_desc where "DOCK_HW_REV = \<lparr>ed_start = 160, ed_bits = 48\<rparr>"

text \<open>\<open>esp_efuse_read_field_blob\<close> for fields of whole bytes.\<close>

definition read_field :: "efuse_desc \<Rightarrow> string \<Rightarrow> string" where
  "read_field d block = take (ed_bits d div 8) (drop (ed_start d div 8) block)"

definition Efuse :: "string \<Rightarrow> device_desc" where
  "Efuse block =
     Efuse_init (read_field DOCK_SERIAL block) (read_field DOCK_MODEL block) (read_field DOCK_HW_REV block)"

text \<open>The texts of a device, with zeros up to the length of the field, as they are burnt.\<close>

definition zero_pad :: "nat \<Rightarrow> string \<Rightarrow> string" where
  "zero_pad n t = t @ replicate (n - length t) (CHR 0x00)"

definition burnt_block :: "char \<Rightarrow> string \<Rightarrow> string \<Rightarrow> string \<Rightarrow> string \<Rightarrow> string \<Rightarrow> string" where
  "burnt_block first serial model gap revision rest =
     first # zero_pad 8 serial @ zero_pad 7 model @ gap @ zero_pad 6 revision @ rest"

lemma c_string_zero_pad:
  assumes "length t \<le> n" "\<forall>c \<in> set t. code_of c \<noteq> 0"
  shows "c_string n (zero_pad n t) = t"
proof -
  have "code_of (CHR 0x00) = 0" by (simp add: code_of_def)
  then have "takeWhile (\<lambda>c. code_of c \<noteq> 0) (replicate k (CHR 0x00)) = []" for k by (cases k) simp_all
  with assms show ?thesis
    by (simp add: c_string_def zero_pad_def takeWhile_append2)
qed

lemma length_zero_pad: "length t \<le> n \<Longrightarrow> length (zero_pad n t) = n"
  by (simp add: zero_pad_def)

lemma read_field_at:
  assumes "length before = ed_start d div 8" "length t = ed_bits d div 8"
  shows "read_field d (before @ t @ after) = t"
  using assms by (simp add: read_field_def)

text \<open>
  The identity burnt into the fuses is read back: the fields do not overlap, each text up to the
  full length of its field keeps its terminator, and an empty serial number reads as zeros.
\<close>

theorem efuse_roundtrip:
  assumes "length serial \<le> 8" "length model \<le> 7" "length revision \<le> 6" "length gap = 4"
    and "\<forall>c \<in> set (serial @ model @ revision). code_of c \<noteq> 0"
  shows "Efuse (burnt_block first serial model gap revision rest) =
    \<lparr>dd_serial = (if serial = [] then ''00000000'' else serial), dd_model = model, dd_revision = revision\<rparr>"
proof -
  let ?b = "burnt_block first serial model gap revision rest"
  note l = assms(1-4) length_zero_pad [OF assms(1)] length_zero_pad [OF assms(2)] length_zero_pad [OF assms(3)]
  have "read_field DOCK_SERIAL ([first] @ zero_pad 8 serial @ (zero_pad 7 model @ gap @ zero_pad 6 revision @ rest)) =
      zero_pad 8 serial"
    by (rule read_field_at) (simp_all add: DOCK_SERIAL_def l)
  moreover have "read_field DOCK_MODEL (([first] @ zero_pad 8 serial) @ zero_pad 7 model @ (gap @ zero_pad 6 revision @ rest)) =
      zero_pad 7 model"
    by (rule read_field_at) (simp_all add: DOCK_MODEL_def l)
  moreover have "read_field DOCK_HW_REV (([first] @ zero_pad 8 serial @ zero_pad 7 model @ gap) @ zero_pad 6 revision @ rest) =
      zero_pad 6 revision"
    by (rule read_field_at) (simp_all add: DOCK_HW_REV_def l)
  ultimately have "read_field DOCK_SERIAL ?b = zero_pad 8 serial" "read_field DOCK_MODEL ?b = zero_pad 7 model"
    "read_field DOCK_HW_REV ?b = zero_pad 6 revision"
    by (simp_all add: burnt_block_def)
  moreover have "c_string 8 (zero_pad 8 serial) = serial" "c_string 7 (zero_pad 7 model) = model"
    "c_string 6 (zero_pad 6 revision) = revision"
    using assms by (simp_all add: c_string_zero_pad)
  ultimately show ?thesis by (simp add: Efuse_def Efuse_init_def Let_def)
qed

section \<open>The banner\<close>

text \<open>\<open>%-ns\<close> of \<open>printf\<close>.\<close>

definition pad_right :: "nat \<Rightarrow> string \<Rightarrow> string" where
  "pad_right n t = t @ replicate (n - length t) (CHR '' '')"

definition printDockInfo :: "'n config \<Rightarrow> string list" where
  "printDockInfo c =
     [[], [],
      replicate 60 (CHR ''#''),
      ''## Unfolded Circle Smart Charging Dock '' @ pad_right 19 (getModel c) @ ''##'',
      ''## Version  : '' @ pad_right 44 (getSoftwareVersion c) @ ''##'',
      ''## Device   : '' @ pad_right 6 (dd_model (cfg_efuse c)) @ '' / '' @
        pad_right 35 (dd_revision (cfg_efuse c)) @ ''##'',
      ''## Serial   : '' @ pad_right 44 (getSerial c) @ ''##'',
      ''## Hostname : '' @ pad_right 44 (getHostName c) @ ''##'',
      ''## Visit http://unfoldedcircle.com/ for more information  ##'',
      replicate 60 (CHR ''#''),
      []]"

lemma length_pad_right: "length (pad_right n t) = max n (length t)"
  by (simp add: pad_right_def)

text \<open>
  The frame of the banner is straight for every dock whose model has at most six characters in the
  fuses: a model of seven, which the fuses have room for, moves the right border by one.
\<close>

lemma printDockInfo_frame:
  assumes "length (getModel c) \<le> 19" "length (getSoftwareVersion c) \<le> 44"
    and "length (dd_revision (cfg_efuse c)) \<le> 35" "length (getSerial c) \<le> 44" "length (getHostName c) \<le> 44"
  shows "map length (printDockInfo c) =
    [0, 0, 60, 60, 60, 60 + (length (dd_model (cfg_efuse c)) - 6), 60, 60, 60, 60, 0]"
  using assms by (simp add: printDockInfo_def length_pad_right)

section \<open>Restart\<close>

definition state_reboot :: "reboot_action list" where
  "state_reboot = [RebootDelay 2000, Restart]"

section \<open>Witness\<close>

lemma efuse_roundtrip_witness:
  "Efuse (burnt_block (CHR 0x00) ''12345678'' ''UCD2'' (replicate 4 (CHR 0x00)) ''5.4'' []) =
     \<lparr>dd_serial = ''12345678'', dd_model = ''UCD2'', dd_revision = ''5.4''\<rparr>"
  using efuse_roundtrip [of "''12345678''" "''UCD2''" "''5.4''" "replicate 4 (CHR 0x00)" "CHR 0x00" "[]"]
  by (simp add: code_of_def)

end
