(* ===== verification/ServiceIr.thy ===== *)
theory ServiceIr
  imports IrCodes GlobalCache LedControl
begin

text \<open>
  \<open>src/lib/service_ir/service_ir.cpp\<close>: sending and learning of infrared codes. A request is
  checked and put into a queue of length one; the send task peeks it, transmits, answers and only
  then empties the queue, so that a code that is being sent blocks the next one. The learn task
  turns a received code into an event for the API clients.

  FreeRTOS (theory \<open>Platform\<close>) and the IRremoteESP8266 library are arguments. Calls of the dock's
  state and of sockets are actions; a queued message is the message, not a pointer to it.
\<close>

section \<open>Boards\<close>

record board =
  IR_SEND_PIN_INT_SIDE :: nat
  IR_SEND_PIN_INT_TOP :: "nat option"
  IR_SEND_PIN_EXT_1 :: nat
  IR_SEND_PIN_EXT_2 :: "nat option"
  HAS_ETHERNET :: bool

definition board_3 :: board where
  "board_3 = \<lparr>IR_SEND_PIN_INT_SIDE = 19, IR_SEND_PIN_INT_TOP = None, IR_SEND_PIN_EXT_1 = 18,
     IR_SEND_PIN_EXT_2 = None, HAS_ETHERNET = False\<rparr>"

definition board_4 :: board where
  "board_4 = \<lparr>IR_SEND_PIN_INT_SIDE = 27, IR_SEND_PIN_INT_TOP = Some 26, IR_SEND_PIN_EXT_1 = 2,
     IR_SEND_PIN_EXT_2 = Some 4, HAS_ETHERNET = False\<rparr>"

definition board_5_4 :: board where
  "board_5_4 = \<lparr>IR_SEND_PIN_INT_SIDE = 5, IR_SEND_PIN_INT_TOP = Some 13, IR_SEND_PIN_EXT_1 = 15,
     IR_SEND_PIN_EXT_2 = Some 2, HAS_ETHERNET = True\<rparr>"

text \<open>Revisions 5.2 and 5.3 differ in pins that are not used here.\<close>

definition board_5_2 :: board where
  "board_5_2 = \<lparr>IR_SEND_PIN_INT_SIDE = 5, IR_SEND_PIN_INT_TOP = Some 13, IR_SEND_PIN_EXT_1 = 15,
     IR_SEND_PIN_EXT_2 = Some 2, HAS_ETHERNET = True\<rparr>"

definition board_5_3 :: board where
  "board_5_3 = \<lparr>IR_SEND_PIN_INT_SIDE = 5, IR_SEND_PIN_INT_TOP = Some 13, IR_SEND_PIN_EXT_1 = 15,
     IR_SEND_PIN_EXT_2 = Some 2, HAS_ETHERNET = True\<rparr>"

section \<open>State\<close>

definition IR_LEARNING_BIT :: u32 where "IR_LEARNING_BIT = 2 ^ 0"
definition IR_REPEAT_BIT :: u32 where "IR_REPEAT_BIT = 2 ^ 1"
definition IR_REPEAT_STOP_BIT :: u32 where "IR_REPEAT_STOP_BIT = 2 ^ 2"
definition IR_CLIENT_GC :: int where "IR_CLIENT_GC = -2"

lemmas ir_bit_defs = IR_LEARNING_BIT_def IR_REPEAT_BIT_def IR_REPEAT_STOP_BIT_def

text \<open>The two kinds of messages for the API clients, before they are written as JSON.\<close>

datatype IrResponse =
    IrSendDone int u32 nat \<comment> \<open>client, \<open>req_id\<close>, \<open>code\<close>\<close>
  | IrReceived int string \<comment> \<open>client, \<open>ir_code\<close>\<close>

primrec response_client :: "IrResponse \<Rightarrow> int" where
  "response_client (IrSendDone c i r) = c"
| "response_client (IrReceived c t) = c"

datatype ir_action =
    IrSetState States
  | IrCreateTask string u16 u16 \<comment> \<open>name, priority, core\<close>
  | IrTaskPriority string u16
  | IrSocketSend int string
  | IrReboot

record ('q, 'a, 'e) ir =
  ir_queue :: "'q option"
  ir_eventgroup :: "'e option"
  ir_apiResponseQueue :: "'a option"
  ir_currentSendCode :: string
  ir_hasState :: bool
  ir_tasks :: bool

definition ir_start :: "('q, 'a, 'e) ir" where
  "ir_start = \<lparr>ir_queue = None, ir_eventgroup = None, ir_apiResponseQueue = None,
     ir_currentSendCode = [], ir_hasState = False, ir_tasks = False\<rparr>"

section \<open>Initialisation and settings\<close>

text \<open>
  \<open>q\<close>, \<open>e\<close> and \<open>a\<close> are the results of the three creation calls, \<open>None\<close> when there is no memory.
  The check after the third one looks at the first queue again.
\<close>

definition ir_init ::
  "'q option \<Rightarrow> 'e option \<Rightarrow> 'a option \<Rightarrow> u16 \<Rightarrow> u16 \<Rightarrow> u16 \<Rightarrow> u16 \<Rightarrow> ('q, 'a, 'e) ir
   \<Rightarrow> ('q, 'a, 'e) ir \<times> ir_action list" where
  "ir_init q e a sendCore sendPriority learnCore learnPriority s =
     (if ir_eventgroup s \<noteq> None then (s, [])
      else let s1 = s\<lparr>ir_hasState := True, ir_queue := q\<rparr> in
      if q = None then (s1, [])
      else let s2 = s1\<lparr>ir_eventgroup := e\<rparr> in
      if e = None then (s2, [])
      else (s2\<lparr>ir_apiResponseQueue := a, ir_tasks := True\<rparr>,
            [IrCreateTask ''IR send'' sendPriority (if sendCore > 1 then 1 else sendCore),
             IrCreateTask ''IR learn'' learnPriority (if learnCore > 1 then 1 else learnCore)]))"

definition ir_setIrSendPriority :: "u16 \<Rightarrow> u16 \<Rightarrow> ('q, 'a, 'e) ir \<Rightarrow> ir_action list" where
  "ir_setIrSendPriority maxPrio priority s =
     (let p = (if maxPrio \<le> priority then maxPrio - 1 else priority)
      in if ir_tasks s then [IrTaskPriority ''IR send'' p] else [])"

definition ir_setIrLearnPriority :: "u16 \<Rightarrow> u16 \<Rightarrow> ('q, 'a, 'e) ir \<Rightarrow> ir_action list" where
  "ir_setIrLearnPriority maxPrio priority s =
     (let p = (if maxPrio \<le> priority then maxPrio - 1 else priority)
      in if ir_tasks s then [IrTaskPriority ''IR learn'' p] else [])"

definition map_group :: "('e \<Rightarrow> 'e) \<Rightarrow> ('q, 'a, 'e) ir \<Rightarrow> ('q, 'a, 'e) ir" where
  "map_group f s = s\<lparr>ir_eventgroup := map_option f (ir_eventgroup s)\<rparr>"

definition startIrLearn :: "'e eventgroup_ops \<Rightarrow> ('q, 'a, 'e) ir \<Rightarrow> ('q, 'a, 'e) ir \<times> ir_action list" where
  "startIrLearn eops s =
     (map_group (\<lambda>e. eg_set eops e IR_LEARNING_BIT) s,
      if ir_hasState s then [IrSetState IR_LEARNING] else [])"

definition stopIrLearn :: "'e eventgroup_ops \<Rightarrow> ('q, 'a, 'e) ir \<Rightarrow> ('q, 'a, 'e) ir \<times> ir_action list" where
  "stopIrLearn eops s =
     (map_group (\<lambda>e. eg_clear eops e IR_LEARNING_BIT) s,
      if ir_hasState s then [IrSetState NORMAL] else [])"

definition isIrLearning :: "'e eventgroup_ops \<Rightarrow> ('q, 'a, 'e) ir \<Rightarrow> bool" where
  "isIrLearning eops s =
     (case ir_eventgroup s of None \<Rightarrow> False | Some e \<Rightarrow> eg_get eops e AND IR_LEARNING_BIT \<noteq> 0)"

text \<open>The next message for the API; one for a Global Cache client is dropped.\<close>

definition apiResponse ::
  "('a, IrResponse) queue_ops \<Rightarrow> ('q, 'a, 'e) ir \<Rightarrow> IrResponse option \<times> ('q, 'a, 'e) ir" where
  "apiResponse aops s =
     (case ir_apiResponseQueue s of
        None \<Rightarrow> (None, s)
      | Some a \<Rightarrow>
          (case q_receive aops a of
             None \<Rightarrow> (None, s)
           | Some (m, a') \<Rightarrow>
               (if response_client m = IR_CLIENT_GC then None else Some m,
                s\<lparr>ir_apiResponseQueue := Some a'\<rparr>)))"

section \<open>Requests\<close>

definition pin_bit :: "nat \<Rightarrow> u32" where "pin_bit p = 2 ^ p"

definition pin_mask :: "board \<Rightarrow> bool \<Rightarrow> bool \<Rightarrow> bool \<Rightarrow> bool \<Rightarrow> u32" where
  "pin_mask b internal_side internal_top external_1 external_2 =
     (if internal_side then pin_bit (IR_SEND_PIN_INT_SIDE b) else 0) OR
     (case IR_SEND_PIN_INT_TOP b of Some p \<Rightarrow> (if internal_top then pin_bit p else 0) | None \<Rightarrow> 0) OR
     (if external_1 then pin_bit (IR_SEND_PIN_EXT_1 b) else 0) OR
     (case IR_SEND_PIN_EXT_2 b of Some p \<Rightarrow> (if external_2 then pin_bit p else 0) | None \<Rightarrow> 0)"

definition ir_format :: "string \<Rightarrow> IRFormat option" where
  "ir_format format =
     (if format = ''hex'' then Some UNFOLDED_CIRCLE
      else if format = ''pronto'' then Some PRONTO
      else if format = ''gc'' then Some GLOBAL_CACHE
      else None)"

definition ir_send ::
  "board \<Rightarrow> ('q, IRSendMessage) queue_ops \<Rightarrow> 'e eventgroup_ops \<Rightarrow> int \<Rightarrow> u32 \<Rightarrow> string \<Rightarrow> string \<Rightarrow> u16
   \<Rightarrow> bool \<Rightarrow> bool \<Rightarrow> bool \<Rightarrow> bool \<Rightarrow> int \<Rightarrow> ('q, 'a, 'e) ir \<Rightarrow> nat \<times> ('q, 'a, 'e) ir" where
  "ir_send b qops eops clientId msgId code format repeat internal_side internal_top external_1 external_2
     gcSocket s =
     (case (ir_queue s, ir_eventgroup s) of
        (Some q, Some e) \<Rightarrow>
          if isIrLearning eops s then (503, s)
          else let mask = pin_mask b internal_side internal_top external_1 external_2 in
          if mask = 0 then (400, s)
          else (case ir_format format of
                  None \<Rightarrow> (400, s)
                | Some irFormat \<Rightarrow>
                    let sending = q_waiting qops q > 0 in
                    if sending \<and> repeat > 0 \<and> ir_currentSendCode s = code
                    then (202, s\<lparr>ir_eventgroup := Some (eg_set eops e IR_REPEAT_BIT)\<rparr>)
                    else if sending then (429, s)
                    else let s1 = s\<lparr>ir_eventgroup :=
                                Some (eg_clear eops e (IR_REPEAT_BIT OR IR_REPEAT_STOP_BIT))\<rparr>
                    in (case q_send qops q
                            \<lparr>sm_clientId = clientId, sm_msgId = msgId, sm_format = irFormat,
                             sm_message = code, sm_repeat = repeat, sm_pin_mask = mask,
                             sm_gcSocket = gcSocket\<rparr> of
                          None \<Rightarrow> (429, s1)
                        | Some q' \<Rightarrow> (0, s1\<lparr>ir_queue := Some q', ir_currentSendCode := code\<rparr>)))
      | _ \<Rightarrow> (500, s))"

text \<open>The repeat count is an \<open>int16_t\<close>, the port's bits select the outputs.\<close>

definition sendGlobalCache ::
  "board \<Rightarrow> ('q, IRSendMessage) queue_ops \<Rightarrow> 'e eventgroup_ops \<Rightarrow> int \<Rightarrow> u32 \<Rightarrow> string \<Rightarrow> int
   \<Rightarrow> ('q, 'a, 'e) ir \<Rightarrow> nat \<times> ('q, 'a, 'e) ir" where
  "sendGlobalCache b qops eops clientId msgId sendir sock s =
     (if \<not> strncmp_eq sendir ''sendir,1:'' 9 then (2, s)
      else case strchr (drop 9 sendir) (CHR '','') of
        None \<Rightarrow> (4, s)
      | Some p1 \<Rightarrow>
          let port = atoi (drop 9 sendir) in
          if port < 1 \<or> port > 15 then (3, s)
          else case strchr (tl p1) (CHR '','') of
            None \<Rightarrow> (5, s)
          | Some p2 \<Rightarrow>
              (case strchr (tl p2) (CHR '','') of
                 None \<Rightarrow> (6, s)
               | Some p3 \<Rightarrow>
                   let repeat = (of_int (atoi (tl p3)) :: 16 word) in
                   if sint repeat < 1 \<or> sint repeat > 50 then (6, s)
                   else ir_send b qops eops clientId msgId sendir ''gc'' repeat
                          (bit port 0) (bit port 3) (bit port 1) (bit port 2) sock s))"

definition stopSend :: "'e eventgroup_ops \<Rightarrow> ('q, 'a, 'e) ir \<Rightarrow> ('q, 'a, 'e) ir" where
  "stopSend eops s = map_group (\<lambda>e. eg_clear eops (eg_set eops e IR_REPEAT_STOP_BIT) IR_REPEAT_BIT) s"

end
