(* ===== verification/IrTasks.thy ===== *)
theory IrTasks
  imports ServiceIr
begin

text \<open>
  \<open>src/lib/service_ir/service_ir.cpp\<close>: one round of the send task and of the learn task, the repeat
  callback the IR library calls between two repetitions, and what the tasks and the requests do
  together. The library is a record of functions; what it transmits is part of the result.
\<close>

section \<open>Repeating\<close>

text \<open>
  The callback shares \<open>repeat\<close> with the task: a stop request ends the repetition, a repeat request
  starts the count again.
\<close>

definition repeatCallback ::
  "'e eventgroup_ops \<Rightarrow> u16 \<Rightarrow> 'e \<Rightarrow> int \<Rightarrow> bool \<times> 'e \<times> int" where
  "repeatCallback eops repeatLimit e repeat =
     (let bits = eg_get eops e;
          (e', r) = (if bits AND IR_REPEAT_STOP_BIT \<noteq> 0 then (e, 0)
                     else if bits AND IR_REPEAT_BIT \<noteq> 0
                     then (eg_clear eops e IR_REPEAT_BIT, uint repeatLimit)
                     else (e, repeat))
      in if r > 0 then (True, e', r - 1) else (False, e', r))"

text \<open>\<open>n\<close> consecutive calls.\<close>

fun callbacks ::
  "'e eventgroup_ops \<Rightarrow> u16 \<Rightarrow> nat \<Rightarrow> 'e \<Rightarrow> int \<Rightarrow> bool list \<times> 'e \<times> int" where
  "callbacks eops lim 0 e r = ([], e, r)"
| "callbacks eops lim (Suc n) e r =
     (case repeatCallback eops lim e r of
        (go, e1, r1) \<Rightarrow> (case callbacks eops lim n e1 r1 of (bs, e2, r2) \<Rightarrow> (go # bs, e2, r2)))"

section \<open>Transmission\<close>

datatype ir_output =
    OutHex IRHexData
  | OutPronto "u16 option list" nat u16
  | OutGC "u16 option list" nat

record ir_lib =
  irl_send :: "IRHexData \<Rightarrow> bool"
  irl_sendPronto :: "u16 option list \<Rightarrow> nat \<Rightarrow> u16 \<Rightarrow> bool"

text \<open>The result: success, what the library was told to send, and \<open>memError\<close>.\<close>

definition transmit_hex :: "ir_lib \<Rightarrow> IRSendMessage \<Rightarrow> bool \<times> ir_output option" where
  "transmit_hex lib m =
     (case buildIRHexData (sm_message m) of
        None \<Rightarrow> (False, None)
      | Some data \<Rightarrow>
          let data' = (if sm_repeat m > 0 then data\<lparr>hx_repeat := sm_repeat m\<rparr> else data)
          in (irl_send lib data', Some (OutHex data')))"

definition pronto_separator :: "string \<Rightarrow> char" where
  "pronto_separator message = (if indexOf message (CHR '' '') 0 < 1 then CHR '','' else CHR '' '')"

definition transmit_pronto ::
  "ir_lib \<Rightarrow> (nat \<Rightarrow> bool) \<Rightarrow> IRSendMessage \<Rightarrow> fault + (bool \<times> ir_output option \<times> bool)" where
  "transmit_pronto lib mem m =
     bind_res (prontoBufferToArray mem (sm_message m) (pronto_separator (sm_message m)))
       (\<lambda>(res, memError).
         case res of
           None \<Rightarrow> Inr (False, None, memError)
         | Some (count, code_array) \<Rightarrow>
             if count = 0 then Inr (False, None, memError)
             else Inr (irl_sendPronto lib code_array count (sm_repeat m),
                       Some (OutPronto code_array count (sm_repeat m)), False))"

definition transmit_gc ::
  "(nat \<Rightarrow> bool) \<Rightarrow> IRSendMessage \<Rightarrow> fault + (bool \<times> ir_output option \<times> bool)" where
  "transmit_gc mem m =
     bind_res (globalCacheBufferToArray mem (sm_message m))
       (\<lambda>(res, memError).
         case res of
           None \<Rightarrow> Inr (False, None, memError)
         | Some (count, code_array) \<Rightarrow>
             if count = 0 then Inr (False, None, memError)
             else bind_res (if sm_repeat m > 0 then store_cell code_array 1 (sm_repeat m) else Inr code_array)
               (\<lambda>a. Inr (True, Some (OutGC a count), False)))"

definition transmit ::
  "ir_lib \<Rightarrow> (nat \<Rightarrow> bool) \<Rightarrow> IRSendMessage \<Rightarrow> fault + (bool \<times> ir_output option \<times> bool)" where
  "transmit lib mem m =
     (case sm_format m of
        UNFOLDED_CIRCLE \<Rightarrow> (case transmit_hex lib m of (ok, out) \<Rightarrow> Inr (ok, out, False))
      | PRONTO \<Rightarrow> transmit_pronto lib mem m
      | GLOBAL_CACHE \<Rightarrow> transmit_gc mem m
      | IR_UNKNOWN \<Rightarrow> Inr (False, None, False))"

section \<open>The send task\<close>

definition show_u32d :: "u32 \<Rightarrow> string" where "show_u32d w = show_int (sint w)"

text \<open>Module and port of the request; 1 and 1 when it does not parse.\<close>

definition answer_address :: "IRSendMessage \<Rightarrow> int \<times> int" where
  "answer_address m =
     (case parseGcRequest (Some (sm_message m))
             (Some \<lparr>gm_command = [], gm_module = 0, gm_port = 0, gm_param = None\<rparr>) of
        (0, Some req) \<Rightarrow> (gm_module req, gm_port req)
      | _ \<Rightarrow> (1, 1))"

definition completeir :: "IRSendMessage \<Rightarrow> string" where
  "completeir m =
     snprintf 24 (''completeir,'' @ show_int (fst (answer_address m)) @ '':'' @
       show_int (snd (answer_address m)) @ '','' @ show_u32d (sm_msgId m) @ [CHR 0x0D])"

datatype ir_answer = AnswerSocket int string | AnswerApi IrResponse | AnswerDropped IrResponse

definition answer ::
  "('a, IrResponse) queue_ops \<Rightarrow> IRSendMessage \<Rightarrow> bool \<Rightarrow> 'a \<Rightarrow> ir_answer \<times> 'a" where
  "answer aops m success a =
     (if sm_clientId m = IR_CLIENT_GC \<and> sm_gcSocket m > 0
      then (AnswerSocket (sm_gcSocket m) (completeir m), a)
      else let response = IrSendDone (sm_clientId m) (sm_msgId m) (if success then 200 else 400)
           in case q_send aops a response of
                Some a' \<Rightarrow> (AnswerApi response, a')
              | None \<Rightarrow> (AnswerDropped response, a))"

text \<open>What a round did: the message, its output, the answer and whether a reboot was forced.\<close>

record ir_round =
  rd_message :: IRSendMessage
  rd_output :: "ir_output option"
  rd_answer :: ir_answer
  rd_reboot :: bool

definition send_round ::
  "ir_lib \<Rightarrow> (nat \<Rightarrow> bool) \<Rightarrow> ('q, IRSendMessage) queue_ops \<Rightarrow> ('a, IrResponse) queue_ops \<Rightarrow>
   ('q, 'a, 'e) ir \<Rightarrow> fault + (ir_round option \<times> ('q, 'a, 'e) ir)" where
  "send_round lib mem qops aops s =
     (case (ir_queue s, ir_apiResponseQueue s) of
        (Some q, Some a) \<Rightarrow>
          (case q_peek qops q of
             None \<Rightarrow> Inr (None, s)
           | Some m \<Rightarrow>
               bind_res (transmit lib mem m) (\<lambda>(success, out, memError).
                 case answer aops m success a of
                   (ans, a') \<Rightarrow>
                     Inr (Some \<lparr>rd_message = m, rd_output = out, rd_answer = ans, rd_reboot = memError\<rparr>,
                          s\<lparr>ir_queue := Some (q_reset qops q), ir_apiResponseQueue := Some a'\<rparr>)))
      | _ \<Rightarrow> Inr (None, s))"

section \<open>The learn task\<close>

record decode_results =
  dr_overflow :: bool
  dr_type :: int
  dr_value :: u64
  dr_bits :: u16
  dr_repeat :: bool

definition decode_failed :: "decode_results \<Rightarrow> bool" where
  "decode_failed r \<longleftrightarrow> dr_overflow r \<or> dr_type r = -1 \<or> dr_value r = 0 \<or> dr_value r = -1"

text \<open>\<open>hexOf\<close> is the library's \<open>resultToHexidecimal\<close>.\<close>

definition learned_code :: "(decode_results \<Rightarrow> string) \<Rightarrow> decode_results \<Rightarrow> string" where
  "learned_code hexOf r =
     show_int (dr_type r) @ '';'' @ hexOf r @ '';'' @ show_nat (unat (dr_bits r)) @ '';'' @
     (if dr_repeat r then ''1'' else ''0'')"

text \<open>One round of the inner loop that decoded something; the queue may be full.\<close>

definition learn_round ::
  "(decode_results \<Rightarrow> string) \<Rightarrow> ('a, IrResponse) queue_ops \<Rightarrow> decode_results \<Rightarrow> ('q, 'a, 'e) ir \<Rightarrow>
   ('q, 'a, 'e) ir \<times> ir_action list" where
  "learn_round hexOf aops r s =
     (if decode_failed r then (s, if ir_hasState s then [IrSetState IR_LEARN_FAILED] else [])
      else (s\<lparr>ir_apiResponseQueue :=
                 map_option (\<lambda>a. case q_send aops a (IrReceived (-1) (learned_code hexOf r)) of
                                   Some a' \<Rightarrow> a' | None \<Rightarrow> a) (ir_apiResponseQueue s)\<rparr>,
            if ir_hasState s then [IrSetState IR_LEARN_OK] else []))"

section \<open>The repetition ends\<close>

lemma repeat_no_request:
  assumes "eg_get eops e AND (IR_REPEAT_STOP_BIT OR IR_REPEAT_BIT) = 0"
  shows "repeatCallback eops lim e r = (0 < r, e, if 0 < r then r - 1 else r)"
proof -
  have "eg_get eops e AND IR_REPEAT_STOP_BIT = 0 \<and> eg_get eops e AND IR_REPEAT_BIT = 0"
    using assms by (simp add: bit.conj_disj_distrib or_eq_0_iff)
  then show ?thesis by (simp add: repeatCallback_def)
qed

text \<open>
  Without new requests a code is repeated exactly \<open>repeat\<close> times: the first \<open>repeat\<close> calls of
  the callback ask for another repetition, all later ones end it.
\<close>

theorem repeat_counts_down:
  assumes "eg_get eops e AND (IR_REPEAT_STOP_BIT OR IR_REPEAT_BIT) = 0" and "0 \<le> r"
  shows "callbacks eops lim n e r =
     (replicate (min n (nat r)) True @ replicate (n - nat r) False, e, max 0 (r - int n))"
  using assms(2)
proof (induction n arbitrary: r)
  case 0
  then show ?case by simp
next
  case (Suc n)
  show ?case
  proof (cases "0 < r")
    case True
    then have "r = int (nat (r - 1)) + 1" by simp
    then obtain k where k: "r = int k + 1" ..
    with Suc.IH [of "int k"] show ?thesis
      by (simp add: repeat_no_request [OF assms(1)] nat_add_distrib)
  next
    case False
    with Suc.prems Suc.IH [of 0] show ?thesis
      by (simp add: repeat_no_request [OF assms(1)])
  qed
qed

text \<open>
  A stop request ends the repetition at once and for good: every later call of the callback
  ends it, even when a repeat request comes with it.
\<close>

theorem repeat_stops:
  assumes "eg_get eops e AND IR_REPEAT_STOP_BIT \<noteq> 0" and "0 < n"
  shows "callbacks eops lim n e r = (replicate n False, e, 0)"
  using assms(2)
proof (induction n arbitrary: r)
  case (Suc n)
  have "repeatCallback eops lim e r = (False, e, 0)" using assms(1) by (simp add: repeatCallback_def)
  with Suc.IH [of 0] show ?case by (cases n) simp_all
qed simp

section \<open>No fault while a code is sent\<close>

lemma gc_array_room:
  assumes "globalCacheBufferToArray mem msg = Inr (Some (count, code_array), err)"
    and "length msg \<le> 32767" "msg \<noteq> []"
  shows "1 < length code_array"
  using assms length_gc_values [OF assms(2)]
  by (auto simp: gc_array split: if_splits)

lemma transmit_returns:
  assumes "length (sm_message m) \<le> 32767" and "sm_message m \<noteq> []"
  shows "\<exists>r. transmit lib mem m = Inr r"
proof (cases "sm_format m")
  case PRONTO
  then show ?thesis
    using pronto_array [OF assms refl refl, of mem "pronto_separator (sm_message m)"]
    by (auto simp: transmit_def transmit_pronto_def split: option.split prod.split)
next
  case GLOBAL_CACHE
  show ?thesis
  proof (cases "globalCacheBufferToArray mem (sm_message m)")
    case (Inl f)
    with gc_array [OF assms, of mem] show ?thesis by (auto split: if_splits)
  next
    case (Inr r)
    then show ?thesis
      using GLOBAL_CACHE gc_array_room [OF _ assms]
      by (cases r) (auto simp: transmit_def transmit_gc_def store_cell_def split: option.split)
  qed
qed (auto simp: transmit_def split: prod.split)

text \<open>
  C21. Whatever code a request carries, transmitting it makes no access outside an array and reads
  no unwritten cell, as long as an \<open>int16_t\<close> can index the text.
\<close>

theorem transmit_no_fault:
  assumes "length (sm_message m) \<le> 32767" and "sm_message m \<noteq> []"
  shows "\<exists>r. transmit lib mem m = Inr r"
  using transmit_returns [OF assms] .

theorem transmit_no_fault_witness:
  "\<exists>r. transmit \<lparr>irl_send = (\<lambda>_. True), irl_sendPronto = (\<lambda>_ _ _. True)\<rparr> (\<lambda>_. True)
     \<lparr>sm_clientId = 1, sm_msgId = 7, sm_format = PRONTO, sm_message = ex_pronto, sm_repeat = 0,
      sm_pin_mask = 1, sm_gcSocket = 0\<rparr> = Inr r"
  by (rule transmit_no_fault) simp_all

section \<open>Requests and rounds\<close>

text \<open>What identifies a request: its client, its message id and its code.\<close>

definition request_key :: "IRSendMessage \<Rightarrow> int \<times> u32 \<times> string" where
  "request_key m = (sm_clientId m, sm_msgId m, sm_message m)"

definition in_queue :: "('q \<Rightarrow> IRSendMessage list) \<Rightarrow> ('q, 'a, 'e) ir \<Rightarrow> IRSendMessage list" where
  "in_queue contents s = (case ir_queue s of None \<Rightarrow> [] | Some q \<Rightarrow> contents q)"

lemma send_accepts:
  assumes spec: "queue_spec 1 contents qops"
    and send: "ir_send b qops eops c i code fmt rep o1 o2 o3 o4 gcs s = (r, s')"
  shows "if r = 0 then in_queue contents s = [] \<and> map request_key (in_queue contents s') = [(c, i, code)]
         else in_queue contents s' = in_queue contents s"
proof -
  have len: "length (contents q) \<le> 1" for q by (rule queue_length [OF spec])
  show ?thesis
    using send queue_waiting [OF spec] queue_send_Some [OF spec]
    by (auto simp: ir_send_def in_queue_def request_key_def Let_def split: option.splits if_splits)
qed

lemma round_empties:
  assumes spec: "queue_spec 1 contents qops"
    and rnd: "send_round lib mem qops aops s = Inr (r, s')"
  shows "case r of None \<Rightarrow> s' = s
         | Some d \<Rightarrow> in_queue contents s = [rd_message d] \<and> in_queue contents s' = []"
proof (cases "\<exists>q a m ms. ir_queue s = Some q \<and> ir_apiResponseQueue s = Some a \<and> contents q = m # ms")
  case True
  then obtain q a m ms where q: "ir_queue s = Some q" "ir_apiResponseQueue s = Some a" "contents q = m # ms"
    by blast
  with queue_length [OF spec, of q] have "contents q = [m]" by simp
  moreover from this have "q_peek qops q = Some m" by (simp add: queue_peek [OF spec])
  ultimately show ?thesis
    using rnd q queue_reset [OF spec, of q]
    by (auto simp: send_round_def in_queue_def bind_res_Inr_iff case_prod_unfold)
next
  case False
  have "r = None \<and> s' = s"
  proof (cases "ir_queue s")
    case (Some q)
    show ?thesis
    proof (cases "ir_apiResponseQueue s")
      case (Some a)
      with False \<open>ir_queue s = Some q\<close> have "contents q = []" by (cases "contents q") auto
      then have "q_peek qops q = None" by (simp add: queue_peek [OF spec])
      with Some \<open>ir_queue s = Some q\<close> rnd show ?thesis by (simp add: send_round_def)
    qed (use rnd Some in \<open>simp add: send_round_def\<close>)
  qed (use rnd in \<open>simp add: send_round_def\<close>)
  then show ?thesis by simp
qed

datatype ir_event =
    EvSend int u32 string string u16 bool bool bool bool int
  | EvSendTask
  | EvStopSend
  | EvLearnStart
  | EvLearnStop
  | EvLearned decode_results
  | EvApiResponse

text \<open>One event: the requests it accepts, the round it completes, the new state.\<close>

definition ir_step ::
  "board \<Rightarrow> ir_lib \<Rightarrow> (nat \<Rightarrow> bool) \<Rightarrow> (decode_results \<Rightarrow> string) \<Rightarrow> ('q, IRSendMessage) queue_ops \<Rightarrow>
   ('a, IrResponse) queue_ops \<Rightarrow> 'e eventgroup_ops \<Rightarrow> ir_event \<Rightarrow> ('q, 'a, 'e) ir \<Rightarrow>
   fault + ((int \<times> u32 \<times> string) list \<times> ir_round list \<times> ('q, 'a, 'e) ir)" where
  "ir_step b lib mem hexOf qops aops eops ev s =
     (case ev of
        EvSend c i code fmt rep o1 o2 o3 o4 gcs \<Rightarrow>
          (case ir_send b qops eops c i code fmt rep o1 o2 o3 o4 gcs s of
             (r, s') \<Rightarrow> Inr (if r = 0 then [(c, i, code)] else [], [], s'))
      | EvSendTask \<Rightarrow>
          bind_res (send_round lib mem qops aops s)
            (\<lambda>(r, s'). Inr ([], (case r of None \<Rightarrow> [] | Some d \<Rightarrow> [d]), s'))
      | EvStopSend \<Rightarrow> Inr ([], [], stopSend eops s)
      | EvLearnStart \<Rightarrow> Inr ([], [], fst (startIrLearn eops s))
      | EvLearnStop \<Rightarrow> Inr ([], [], fst (stopIrLearn eops s))
      | EvLearned d \<Rightarrow> Inr ([], [], fst (learn_round hexOf aops d s))
      | EvApiResponse \<Rightarrow> Inr ([], [], snd (apiResponse aops s)))"

fun ir_run ::
  "board \<Rightarrow> ir_lib \<Rightarrow> (nat \<Rightarrow> bool) \<Rightarrow> (decode_results \<Rightarrow> string) \<Rightarrow> ('q, IRSendMessage) queue_ops \<Rightarrow>
   ('a, IrResponse) queue_ops \<Rightarrow> 'e eventgroup_ops \<Rightarrow> ir_event list \<Rightarrow> ('q, 'a, 'e) ir \<Rightarrow>
   fault + ((int \<times> u32 \<times> string) list \<times> ir_round list \<times> ('q, 'a, 'e) ir)" where
  "ir_run b lib mem hexOf qops aops eops [] s = Inr ([], [], s)"
| "ir_run b lib mem hexOf qops aops eops (ev # evs) s =
     bind_res (ir_step b lib mem hexOf qops aops eops ev s) (\<lambda>(acc, rds, s1).
     bind_res (ir_run b lib mem hexOf qops aops eops evs s1) (\<lambda>(acc', rds', s2).
       Inr (acc @ acc', rds @ rds', s2)))"

lemma step_ledger:
  assumes spec: "queue_spec 1 contents qops"
    and st: "ir_step b lib mem hexOf qops aops eops ev s = Inr (acc, rds, s')"
  shows "map request_key (in_queue contents s) @ acc =
     map (request_key \<circ> rd_message) rds @ map request_key (in_queue contents s')"
proof (cases ev)
  case (EvSend c i code fmt rep o1 o2 o3 o4 gcs)
  obtain r t where send: "ir_send b qops eops c i code fmt rep o1 o2 o3 o4 gcs s = (r, t)"
    by (cases "ir_send b qops eops c i code fmt rep o1 o2 o3 o4 gcs s")
  then have "acc = (if r = 0 then [(c, i, code)] else [])" "rds = []" "s' = t"
    using st by (auto simp: ir_step_def EvSend)
  with send_accepts [OF spec send] show ?thesis by (auto split: if_splits)
next
  case EvSendTask
  then obtain r where r: "send_round lib mem qops aops s = Inr (r, s')"
    and "acc = []" "rds = (case r of None \<Rightarrow> [] | Some d \<Rightarrow> [d])"
    using st by (auto simp: ir_step_def bind_res_Inr_iff)
  with round_empties [OF spec r] show ?thesis by (auto split: option.splits)
qed (use st in \<open>auto simp: ir_step_def in_queue_def stopSend_def map_group_def startIrLearn_def
      stopIrLearn_def learn_round_def apiResponse_def split: option.splits prod.splits if_splits\<close>)

lemma run_ledger:
  assumes spec: "queue_spec 1 contents qops"
    and "ir_run b lib mem hexOf qops aops eops evs s = Inr (acc, rds, s')"
  shows "map request_key (in_queue contents s) @ acc =
     map (request_key \<circ> rd_message) rds @ map request_key (in_queue contents s')"
  using assms(2)
proof (induction evs arbitrary: s acc rds)
  case Nil
  then show ?case by simp
next
  case (Cons ev evs)
  then obtain a1 r1 s1 a2 r2 where
    st: "ir_step b lib mem hexOf qops aops eops ev s = Inr (a1, r1, s1)" and
    rn: "ir_run b lib mem hexOf qops aops eops evs s1 = Inr (a2, r2, s')" and
    "acc = a1 @ a2" "rds = r1 @ r2"
    by (auto simp: bind_res_Inr_iff)
  with step_ledger [OF spec st] Cons.IH [OF rn] show ?case
    by (metis append.assoc map_append)
qed


text \<open>
  While a code is being sent, no other request is accepted: the answer is \<open>too many requests\<close>,
  or \<open>accepted repeat\<close> when it is the same code with a repeat count, and the queue is unchanged.
\<close>

theorem busy_while_sending:
  assumes "queue_spec 1 contents qops" and "ir_queue s = Some q" "contents q = [m]"
    and "ir_eventgroup s = Some e" and "\<not> isIrLearning eops s"
    and "pin_mask b o1 o2 o3 o4 \<noteq> 0" and "ir_format fmt \<noteq> None"
  shows "ir_send b qops eops c i code fmt rep o1 o2 o3 o4 gcs s =
     (if rep > 0 \<and> ir_currentSendCode s = code
      then (202, s\<lparr>ir_eventgroup := Some (eg_set eops e IR_REPEAT_BIT)\<rparr>) else (429, s))"
  using assms queue_waiting [OF assms(1), of q] by (auto simp: ir_send_def Let_def)

section \<open>Learned codes\<close>

text \<open>
  A learned code can be sent back: the text of the learn event parses to the protocol, value
  and bit count that were received, and a repeat count of 1 for a repeated frame. The library's
  hexadecimal text is assumed to denote the value.
\<close>

theorem learned_code_parses:
  assumes "\<not> decode_failed r" "0 < dr_type r" "dr_type r < 2 ^ 31" "dr_bits r \<noteq> 0"
    and "strtou 64 16 (hexOf r) = (unat (dr_value r), [], False)" "hexOf r \<noteq> []" "CHR '';'' \<notin> set (hexOf r)"
  shows "buildIRHexData (learned_code hexOf r) =
     Some \<lparr>hx_protocol = dr_type r, hx_command = dr_value r, hx_bits = dr_bits r,
           hx_repeat = (if dr_repeat r then 1 else 0)\<rparr>"
proof -
  let ?k = "if dr_repeat r then 1 else 0 :: nat"
  have "show_nat ?k = (if dr_repeat r then ''1'' else ''0'')"
    by (simp add: show_nat.simps char_of_def bit_Suc_0_iff)
  then have msg: "learned_code hexOf r = hex_message (show_int (dr_type r)) (hexOf r) (show_nat (unat (dr_bits r))) (show_nat ?k)"
    by (simp add: learned_code_def hex_message_def)
  have "0 < unat (dr_bits r)" using assms(4) by (simp add: unat_gt_0)
  moreover have "unat (dr_bits r) < 2 ^ 16" using unsigned_less [of "dr_bits r"] by simp
  ultimately show ?thesis
    using hex_message_parses [of "dr_type r" "hexOf r" "unat (dr_value r)" "unat (dr_bits r)" ?k] assms
    by (simp add: msg)
qed

section \<open>The completion message\<close>

text \<open>
  The completion message is cut for a request whose id has eight digits or more: it loses its
  terminating carriage return, so the client never sees the end of the message.
\<close>

theorem completeir_cut:
  assumes "10 ^ 7 \<le> sint (sm_msgId m)"
  shows "length (completeir m) = 23 \<and> CHR 0x0D \<notin> set (completeir m)"
proof -
  define pre where "pre = ''completeir,'' @ show_int (fst (answer_address m)) @ '':'' @
    show_int (snd (answer_address m)) @ '','' @ show_int (sint (sm_msgId m))"
  have "show_int (sint (sm_msgId m)) = show_nat (nat (sint (sm_msgId m)))"
    using assms by (simp add: show_int_def)
  moreover have "7 < length (show_nat (nat (sint (sm_msgId m))))"
    by (rule length_show_nat_ge) (use assms in simp)
  ultimately have len: "23 \<le> length pre"
    using show_int_nonempty [of "fst (answer_address m)"] show_int_nonempty [of "snd (answer_address m)"]
    by (simp add: pre_def)
  have "completeir m = take 23 (pre @ [CHR 0x0D])"
    by (simp add: completeir_def pre_def snprintf_def show_u32d_def)
  then have "completeir m = take 23 pre" using len by simp
  moreover have "CHR 0x0D \<notin> set pre" by (simp add: pre_def show_int_no_CR)
  ultimately show ?thesis using len by (auto dest: in_set_takeD)
qed

section \<open>Concrete runs\<close>

theorem repeat_counts_down_witness:
  "callbacks word_eventgroup 5 4 IR_LEARNING_BIT 2 = ([True, True, False, False], IR_LEARNING_BIT, 0)"
  using repeat_counts_down [of word_eventgroup IR_LEARNING_BIT 2 5 4]
  by (simp add: word_eventgroup_def ir_bit_defs numeral_nat)

theorem repeat_stops_witness:
  "callbacks word_eventgroup 5 2 (IR_REPEAT_STOP_BIT OR IR_REPEAT_BIT) 3 =
     ([False, False], IR_REPEAT_STOP_BIT OR IR_REPEAT_BIT, 0)"
proof -
  have "eg_get word_eventgroup (IR_REPEAT_STOP_BIT OR IR_REPEAT_BIT) AND IR_REPEAT_STOP_BIT \<noteq> 0"
    by (simp add: word_eventgroup_def ir_bit_defs)
  from repeat_stops [OF this, of 2 5 3] show ?thesis by (simp add: numeral_2_eq_2)
qed

definition ex_lib :: ir_lib where
  "ex_lib = \<lparr>irl_send = (\<lambda>_. True), irl_sendPronto = (\<lambda>_ _ _. True)\<rparr>"

definition ex_ir :: "(IRSendMessage list, IrResponse list, u32) ir" where
  "ex_ir = fst (ir_init (Some []) (Some 0) (Some []) 1 12 1 5 ir_start)"

definition ex_message :: IRSendMessage where
  "ex_message = \<lparr>sm_clientId = 1, sm_msgId = 7, sm_format = UNFOLDED_CIRCLE, sm_message = ''x'',
     sm_repeat = 0, sm_pin_mask = 2 ^ 5, sm_gcSocket = 0\<rparr>"

lemma ex_ir_fields: "ir_queue ex_ir = Some []" "ir_eventgroup ex_ir = Some 0" "ir_apiResponseQueue ex_ir = Some []"
  by (simp_all add: ex_ir_def ir_init_def ir_start_def)

lemma ex_send:
  "ir_send board_5_4 (list_queue 1) word_eventgroup 1 7 ''x'' ''hex'' 0 True False False False 0 ex_ir =
     (0, ex_ir\<lparr>ir_queue := Some [ex_message], ir_currentSendCode := ''x''\<rparr>)"
  by (simp add: ir_send_def ex_ir_fields isIrLearning_def word_eventgroup_def list_queue_def pin_mask_def
      pin_bit_def board_5_4_def ir_format_def ex_message_def)


theorem busy_while_sending_witness:
  "ir_send board_5_4 (list_queue 1) word_eventgroup 2 8 ''y'' ''hex'' 3 True False False False 0
     (ex_ir\<lparr>ir_queue := Some [ex_message], ir_currentSendCode := ''x''\<rparr>) =
   (429, ex_ir\<lparr>ir_queue := Some [ex_message], ir_currentSendCode := ''x''\<rparr>)"
proof -
  let ?s = "ex_ir\<lparr>ir_queue := Some [ex_message], ir_currentSendCode := ''x''\<rparr>"
  have "pin_mask board_5_4 True False False False \<noteq> 0"
    by (simp add: pin_mask_def pin_bit_def board_5_4_def)
  moreover have "\<not> isIrLearning word_eventgroup ?s"
    by (simp add: isIrLearning_def ex_ir_fields word_eventgroup_def)
  ultimately show ?thesis
    using busy_while_sending [OF list_queue_spec, of ?s "[ex_message]" ex_message 0 word_eventgroup
        board_5_4 True False False False "''hex''" 2 8 "''y''" 3 0]
    by (simp add: ex_ir_fields ir_format_def)
qed

definition ex_decode :: decode_results where
  "ex_decode = \<lparr>dr_overflow = False, dr_type = 4, dr_value = 0x640C, dr_bits = 15, dr_repeat = False\<rparr>"

theorem learned_code_parses_witness:
  "buildIRHexData (learned_code (\<lambda>_. ''0x640C'') ex_decode) =
     Some \<lparr>hx_protocol = 4, hx_command = 0x640C, hx_bits = 15, hx_repeat = 0\<rparr>"
proof -
  have "strtou 64 16 ''0x640C'' = (unat (dr_value ex_decode), [], False)"
    by (simp add: text_eval ex_decode_def)
  moreover have "\<not> decode_failed ex_decode" by (simp add: decode_failed_def ex_decode_def)
  ultimately show ?thesis
    using learned_code_parses [of ex_decode "\<lambda>_. ''0x640C''"] by (simp add: ex_decode_def)
qed

theorem completeir_cut_witness:
  "CHR 0x0D \<notin> set (completeir (ex_message\<lparr>sm_msgId := 10000000\<rparr>))"
  using completeir_cut [of "ex_message\<lparr>sm_msgId := 10000000\<rparr>"] by simp

end
