(* ===== verification/IrLearn.thy ===== *)
theory IrLearn
  imports IrTasks
begin

text \<open>
  The tasks of \<open>src/lib/service_ir/service_ir.cpp\<close> from their start: the outputs the send task sets
  up, and the learn task as a step function between the points where it waits, with the other
  operations of the service running in between.
\<close>

section \<open>Start of the send task\<close>

datatype pin_action = PinOutput nat | PinLow nat

definition output_pin :: "nat \<Rightarrow> pin_action list" where
  "output_pin p = [PinOutput p, PinLow p]"

definition send_pins :: "board \<Rightarrow> pin_action list" where
  "send_pins b =
     output_pin (IR_SEND_PIN_INT_SIDE b) @
     (case IR_SEND_PIN_INT_TOP b of Some p \<Rightarrow> output_pin p | None \<Rightarrow> []) @
     output_pin (IR_SEND_PIN_EXT_1 b) @
     (case IR_SEND_PIN_EXT_2 b of Some p \<Rightarrow> output_pin p | None \<Rightarrow> [])"

text \<open>\<open>None\<close>: the task ends. Otherwise the pins are set up and the sender gets a default mask.\<close>

definition send_ir_start :: "board \<Rightarrow> ('q, 'a, 'e) ir option \<Rightarrow> (pin_action list \<times> u32) option" where
  "send_ir_start b param =
     (case param of
        None \<Rightarrow> None
      | Some s \<Rightarrow>
          if ir_queue s = None \<or> ir_apiResponseQueue s = None then None
          else Some (send_pins b, pin_bit (IR_SEND_PIN_INT_SIDE b)))"

definition rebootIfMemError :: "bool \<Rightarrow> reboot_action list" where
  "rebootIfMemError memError = (if memError then [RebootDelay 2000, Restart, RebootDelay 5000] else [])"

lemma bit_pin_bit: "bit (pin_bit p) n \<Longrightarrow> n = p"
  by (auto simp: pin_bit_def bit_exp_iff)

text \<open>
  Every output a request can select was made an output and switched off before the first
  transmission, whatever pins the board has.
\<close>

theorem selected_pins_ready:
  assumes "send_ir_start b (Some s) = Some (acts, m)"
    and "bit (pin_mask b internal_side internal_top external_1 external_2) n"
  shows "\<exists>before after. acts = before @ [PinOutput n, PinLow n] @ after"
proof -
  have acts: "acts = send_pins b" using assms(1) by (simp add: send_ir_start_def split: if_splits)
  have "n = IR_SEND_PIN_INT_SIDE b \<or> IR_SEND_PIN_INT_TOP b = Some n \<or> n = IR_SEND_PIN_EXT_1 b \<or>
      IR_SEND_PIN_EXT_2 b = Some n"
    using assms(2) by (auto simp: pin_mask_def bit_or_iff split: if_splits option.splits dest: bit_pin_bit)
  then have "\<exists>before after. send_pins b = before @ output_pin n @ after"
  proof (elim disjE)
    assume "n = IR_SEND_PIN_EXT_1 b"
    then show ?thesis unfolding send_pins_def by (metis append.assoc)
  next
    assume "IR_SEND_PIN_EXT_2 b = Some n"
    then show ?thesis unfolding send_pins_def by (metis append.assoc append_Nil2 option.simps(5))
  next
    assume "IR_SEND_PIN_INT_TOP b = Some n"
    then show ?thesis unfolding send_pins_def by (metis option.simps(5))
  next
    assume "n = IR_SEND_PIN_INT_SIDE b"
    then show ?thesis unfolding send_pins_def by (metis append_Nil)
  qed
  then show ?thesis by (simp add: acts output_pin_def)
qed

text \<open>On every board with four outputs a mask tells the selected outputs exactly.\<close>

lemma pin_mask_bits:
  assumes "b \<in> {board_4, board_5_2, board_5_3, board_5_4}"
  shows "bit (pin_mask b o1 o2 o3 o4) (IR_SEND_PIN_INT_SIDE b) = o1"
    "bit (pin_mask b o1 o2 o3 o4) (the (IR_SEND_PIN_INT_TOP b)) = o2"
    "bit (pin_mask b o1 o2 o3 o4) (IR_SEND_PIN_EXT_1 b) = o3"
    "bit (pin_mask b o1 o2 o3 o4) (the (IR_SEND_PIN_EXT_2 b)) = o4"
  using assms
  by (auto simp: pin_mask_def pin_bit_def bit_or_iff bit_exp_iff board_4_def board_5_2_def board_5_3_def
      board_5_4_def split: if_splits)

lemma pin_mask_injective:
  assumes "b \<in> {board_4, board_5_2, board_5_3, board_5_4}"
    and "pin_mask b o1 o2 o3 o4 = pin_mask b p1 p2 p3 p4"
  shows "(o1, o2, o3, o4) = (p1, p2, p3, p4)"
  using pin_mask_bits [OF assms(1), of o1 o2 o3 o4] pin_mask_bits [OF assms(1), of p1 p2 p3 p4]
  unfolding assms(2) by simp

section \<open>The learn task\<close>

text \<open>
  The points where other tasks run: waiting for the learning bit, before the bit is tested, and
  after the 100 ms pause, before a result is fetched.
\<close>

datatype learn_pc = LearnEnded | LearnWait | LearnTest | LearnDecode

datatype learn_action =
    EnableIRIn
  | DisableIRIn
  | ClearBuffer \<comment> \<open>\<open>decode\<close> whose result is ignored\<close>
  | LearnDelay nat
  | Decode "decode_results option"
  | LearnIr ir_action

definition learn_ir_start :: "('q, 'a, 'e) ir option \<Rightarrow> learn_pc" where
  "learn_ir_start param =
     (case param of
        None \<Rightarrow> LearnEnded
      | Some s \<Rightarrow> if ir_eventgroup s = None \<or> ir_apiResponseQueue s = None then LearnEnded else LearnWait)"

text \<open>
  One step of the task; \<open>decoded\<close> is what the receiver has. \<open>xEventGroupWaitBits\<close> returns only when
  the learning bit is set: the task does nothing while it waits.
\<close>

definition learn_task_step ::
  "(decode_results \<Rightarrow> string) \<Rightarrow> ('a, IrResponse) queue_ops \<Rightarrow> 'e eventgroup_ops \<Rightarrow> decode_results option \<Rightarrow>
   learn_pc \<Rightarrow> ('q, 'a, 'e) ir \<Rightarrow> learn_pc \<times> learn_action list \<times> ('q, 'a, 'e) ir" where
  "learn_task_step hexOf aops eops decoded pc s =
     (case pc of
        LearnEnded \<Rightarrow> (LearnEnded, [], s)
      | LearnWait \<Rightarrow>
          if isIrLearning eops s then (LearnTest, [EnableIRIn, ClearBuffer], s) else (LearnWait, [], s)
      | LearnTest \<Rightarrow>
          if isIrLearning eops s then (LearnDecode, [LearnDelay 100], s) else (LearnWait, [DisableIRIn], s)
      | LearnDecode \<Rightarrow>
          (case decoded of
             None \<Rightarrow> (LearnTest, [Decode None], s)
           | Some r \<Rightarrow>
               (case learn_round hexOf aops r s of
                  (s', acts) \<Rightarrow> (LearnTest, Decode (Some r) # map LearnIr acts, s'))))"

text \<open>The task together with the other operations of the service (\<open>ir_step\<close>), in any order.\<close>

datatype learn_event = LearnTask "learn_action list" | OtherTask ir_event

definition task_actions :: "learn_event \<Rightarrow> learn_action list" where
  "task_actions ev = (case ev of LearnTask acts \<Rightarrow> acts | OtherTask e \<Rightarrow> [])"

definition not_learned :: "ir_event \<Rightarrow> bool" where
  "not_learned ev \<longleftrightarrow> (case ev of EvLearned r \<Rightarrow> False | _ \<Rightarrow> True)"

inductive learn_run for b lib mem hexOf qops aops eops where
  lr_refl: "learn_run b lib mem hexOf qops aops eops (pc, s) [] (pc, s)"
| lr_task: "learn_run b lib mem hexOf qops aops eops c tr (pc, s) \<Longrightarrow>
    learn_task_step hexOf aops eops decoded pc s = (pc', acts, s') \<Longrightarrow>
    learn_run b lib mem hexOf qops aops eops c (tr @ [LearnTask acts]) (pc', s')"
| lr_other: "learn_run b lib mem hexOf qops aops eops c tr (pc, s) \<Longrightarrow> not_learned ev \<Longrightarrow>
    ir_step b lib mem hexOf qops aops eops ev s = Inr (acc, rds, s') \<Longrightarrow>
    learn_run b lib mem hexOf qops aops eops c (tr @ [OtherTask ev]) (pc, s')"

section \<open>The receiver\<close>

text \<open>The state of the receiver; \<open>None\<close>: switched on or off twice, or read while it is off.\<close>

fun receiver :: "learn_action list \<Rightarrow> bool \<Rightarrow> bool option" where
  "receiver [] on = Some on"
| "receiver (EnableIRIn # as) on = (if on then None else receiver as True)"
| "receiver (DisableIRIn # as) on = (if on then receiver as False else None)"
| "receiver (ClearBuffer # as) on = (if on then receiver as on else None)"
| "receiver (Decode r # as) on = (if on then receiver as on else None)"
| "receiver (LearnDelay n # as) on = receiver as on"
| "receiver (LearnIr a # as) on = receiver as on"

lemma receiver_append:
  "receiver (as @ bs) on = (case receiver as on of None \<Rightarrow> None | Some on' \<Rightarrow> receiver bs on')"
  by (induction as on rule: receiver.induct) simp_all

lemma receiver_ir [simp]: "receiver (map LearnIr acts) on = Some on"
  by (induction acts) simp_all

definition receiver_on :: "learn_pc \<Rightarrow> bool" where
  "receiver_on pc \<longleftrightarrow> pc = LearnTest \<or> pc = LearnDecode"

lemma learn_step_receiver:
  "learn_task_step hexOf aops eops decoded pc s = (pc', acts, s') \<Longrightarrow>
   receiver acts (receiver_on pc) = Some (receiver_on pc')"
  by (cases pc) (auto simp: learn_task_step_def receiver_on_def split: if_splits option.splits prod.splits)

lemma learn_run_receiver:
  assumes "learn_run b lib mem hexOf qops aops eops c tr c'"
  shows "receiver (concat (map task_actions tr)) (receiver_on (fst c)) = Some (receiver_on (fst c'))"
  using assms
  by (induction rule: learn_run.induct)
    (auto simp: receiver_append task_actions_def dest: learn_step_receiver)

text \<open>
  Whatever else happens in the service, the learn task switches its receiver on and off in
  turn and reads from it only while it is on; while the task waits for a request it is off.
\<close>

theorem learn_receiver_paired:
  assumes "learn_run b lib mem hexOf qops aops eops (learn_ir_start (Some s0), s0) tr (pc, s)"
  shows "receiver (concat (map task_actions tr)) False = Some (receiver_on pc)"
proof -
  have "\<not> receiver_on (learn_ir_start (Some s0))" by (simp add: learn_ir_start_def receiver_on_def)
  with learn_run_receiver [OF assms] show ?thesis by simp
qed

section \<open>After learning was stopped\<close>

text \<open>How many codes were fetched from the receiver and reported.\<close>

fun reports :: "learn_action list \<Rightarrow> nat" where
  "reports [] = 0"
| "reports (Decode (Some r) # as) = Suc (reports as)"
| "reports (a # as) = reports as"

lemma reports_append [simp]: "reports (as @ bs) = reports as + reports bs"
  by (induction as rule: reports.induct) simp_all

lemma reports_ir [simp]: "reports (map LearnIr acts) = 0"
  by (induction acts) simp_all

lemma and_other_bits:
  fixes w a l :: u32
  assumes "a AND l = 0"
  shows "(w OR a) AND l = w AND l" "(w AND NOT a) AND l = w AND l"
proof -
  have "\<not> (bit a n \<and> bit l n)" for n using assms by (metis bit_0_eq bit_and_iff bot_apply bot_bool_def)
  then show "(w OR a) AND l = w AND l" "(w AND NOT a) AND l = w AND l"
    by (auto simp: bit_simps intro!: bit_word_eqI)
qed

lemma learning_bit_stays:
  assumes "eventgroup_spec eops"
  shows "eg_get eops (eg_set eops e IR_REPEAT_BIT) AND IR_LEARNING_BIT = eg_get eops e AND IR_LEARNING_BIT"
    and "eg_get eops (eg_clear eops e (IR_REPEAT_BIT OR IR_REPEAT_STOP_BIT)) AND IR_LEARNING_BIT =
      eg_get eops e AND IR_LEARNING_BIT"
    and "eg_get eops (eg_clear eops (eg_set eops e IR_REPEAT_STOP_BIT) IR_REPEAT_BIT) AND IR_LEARNING_BIT =
      eg_get eops e AND IR_LEARNING_BIT"
    and "eg_get eops (eg_clear eops e IR_LEARNING_BIT) AND IR_LEARNING_BIT = 0"
proof -
  have other: "IR_REPEAT_BIT AND IR_LEARNING_BIT = 0" "IR_REPEAT_STOP_BIT AND IR_LEARNING_BIT = 0"
    "(IR_REPEAT_BIT OR IR_REPEAT_STOP_BIT) AND IR_LEARNING_BIT = 0"
    and app: "app_bits IR_REPEAT_BIT" "app_bits IR_REPEAT_STOP_BIT"
    "app_bits (IR_REPEAT_BIT OR IR_REPEAT_STOP_BIT)" "app_bits IR_LEARNING_BIT"
    by (simp_all add: ir_bit_defs app_bits_def)
  note eg = app [THEN eg_get_set [OF assms]] app [THEN eg_get_clear [OF assms]]
  show "eg_get eops (eg_set eops e IR_REPEAT_BIT) AND IR_LEARNING_BIT = eg_get eops e AND IR_LEARNING_BIT"
    "eg_get eops (eg_clear eops e (IR_REPEAT_BIT OR IR_REPEAT_STOP_BIT)) AND IR_LEARNING_BIT =
      eg_get eops e AND IR_LEARNING_BIT"
    "eg_get eops (eg_clear eops (eg_set eops e IR_REPEAT_STOP_BIT) IR_REPEAT_BIT) AND IR_LEARNING_BIT =
      eg_get eops e AND IR_LEARNING_BIT"
    by (simp_all only: eg other [THEN and_other_bits(1)] other [THEN and_other_bits(2)])
  show "eg_get eops (eg_clear eops e IR_LEARNING_BIT) AND IR_LEARNING_BIT = 0"
    by (simp add: eg and.assoc)
qed

lemma ir_send_learning:
  assumes "eventgroup_spec eops" "ir_send b qops eops c i code fmt rep o1 o2 o3 o4 gcs s = (r, s')"
  shows "isIrLearning eops s' = isIrLearning eops s"
  using assms(2)
  by (auto simp: ir_send_def isIrLearning_def Let_def learning_bit_stays [OF assms(1)]
      split: option.splits if_splits)

text \<open>No operation but the start of learning sets the learning bit.\<close>

lemma ir_step_not_learning:
  assumes spec: "eventgroup_spec eops"
    and "ir_step b lib mem hexOf qops aops eops ev s = Inr (acc, rds, s')"
    and "not_learned ev" "ev \<noteq> EvLearnStart" "\<not> isIrLearning eops s"
  shows "\<not> isIrLearning eops s'"
proof (cases ev)
  case (EvSend c i code fmt rep o1 o2 o3 o4 gcs)
  with assms(2) have "\<exists>r. ir_send b qops eops c i code fmt rep o1 o2 o3 o4 gcs s = (r, s')"
    by (auto simp: ir_step_def split: prod.splits)
  with ir_send_learning [OF spec] assms(5) show ?thesis by blast
next
  case EvSendTask
  with assms(2,5) show ?thesis
    by (auto simp: ir_step_def send_round_def isIrLearning_def bind_res_Inr_iff case_prod_unfold
        split: option.splits)
qed (use assms in \<open>auto simp: ir_step_def stopSend_def stopIrLearn_def apiResponse_def map_group_def
      not_learned_def isIrLearning_def learning_bit_stays [OF spec] split: option.splits if_splits\<close>)

lemma learn_step_reports:
  assumes "learn_task_step hexOf aops eops decoded pc s = (pc', acts, s')" "\<not> isIrLearning eops s"
  shows "\<not> isIrLearning eops s' \<and>
    reports acts + (if pc' = LearnDecode then 1 else 0) \<le> (if pc = LearnDecode then 1 else 0 :: nat)"
  using assms
  by (cases pc) (auto simp: learn_task_step_def learn_round_def isIrLearning_def
      split: if_splits option.splits prod.splits)

lemma learn_run_reports:
  assumes "learn_run b lib mem hexOf qops aops eops c tr c'" "eventgroup_spec eops"
    and "\<not> isIrLearning eops (snd c)" "OtherTask EvLearnStart \<notin> set tr"
  shows "\<not> isIrLearning eops (snd c') \<and>
    reports (concat (map task_actions tr)) + (if fst c' = LearnDecode then 1 else 0)
      \<le> (if fst c = LearnDecode then 1 else 0 :: nat)"
  using assms(1,3,4)
proof (induction rule: learn_run.induct)
  case (lr_task c tr pc s decoded pc' acts s')
  then have "\<not> isIrLearning eops s" by simp
  from learn_step_reports [OF lr_task.hyps(2) this] lr_task show ?case
    by (auto simp: task_actions_def split: if_splits)
next
  case (lr_other c tr pc s ev acc rds s')
  then have "\<not> isIrLearning eops s'"
    using ir_step_not_learning [OF assms(2) lr_other.hyps(3,2)] by auto
  with lr_other show ?case by (auto simp: task_actions_def)
qed auto

text \<open>
  C32. After learning was stopped, and until it is started again, at most one more code is
  reported, and only when the task was in its pause between testing the learning bit and fetching
  the result.
\<close>

theorem one_report_after_stop:
  assumes "eventgroup_spec eops" "OtherTask EvLearnStart \<notin> set tr"
    and "learn_run b lib mem hexOf qops aops eops (pc, fst (stopIrLearn eops s)) tr (pc', s')"
  shows "reports (concat (map task_actions tr)) \<le> (if pc = LearnDecode then 1 else 0)"
proof -
  have "\<not> isIrLearning eops (fst (stopIrLearn eops s))"
    by (simp add: stopIrLearn_def isIrLearning_def map_group_def learning_bit_stays [OF assms(1)]
        split: option.split)
  with learn_run_reports [OF assms(3,1) _ assms(2)] show ?thesis by (auto split: if_splits)
qed

text \<open>The receiver is switched off two steps of the task later.\<close>

lemma learning_ends:
  assumes "\<not> isIrLearning eops s" "receiver_on pc" "decoded = None \<or> pc = LearnTest"
    and "learn_task_step hexOf aops eops decoded pc s = (pc1, acts1, s1)"
    and "learn_task_step hexOf aops eops decoded' pc1 s1 = (pc2, acts2, s2)"
  shows "pc2 = LearnWait"
  using assms by (auto simp: learn_task_step_def receiver_on_def split: if_splits option.splits)

section \<open>A late report\<close>

definition ex_late_trace :: "learn_event list" where
  "ex_late_trace = [OtherTask EvLearnStart, LearnTask [EnableIRIn, ClearBuffer], LearnTask [LearnDelay 100],
     OtherTask EvLearnStop, LearnTask [Decode (Some ex_decode), LearnIr (IrSetState IR_LEARN_OK)]]"

definition ex_late :: "(IRSendMessage list, IrResponse list, u32) ir" where
  "ex_late = ex_ir\<lparr>ir_apiResponseQueue := Some [IrReceived (- 1) (learned_code (\<lambda>_. ''640C'') ex_decode)]\<rparr>"

lemma ex_ir_state: "ir_hasState ex_ir" "ex_ir\<lparr>ir_eventgroup := Some 0\<rparr> = ex_ir"
  by (simp_all add: ex_ir_def ir_init_def ir_start_def Let_def)

abbreviation ex_learn_run where
  "ex_learn_run \<equiv> learn_run board_5_4 ex_lib (\<lambda>_. True) (\<lambda>_. ''640C'') (list_queue 1) (list_queue 5) word_eventgroup"

lemma ex_late_run:
  "ex_learn_run (learn_ir_start (Some ex_ir), ex_ir) ex_late_trace (LearnTest, ex_late)"
proof -
  let ?on = "ex_ir\<lparr>ir_eventgroup := Some 1\<rparr>"
  note eval = learn_task_step_def ir_step_def startIrLearn_def stopIrLearn_def map_group_def
    isIrLearning_def word_eventgroup_def ir_bit_defs ex_ir_fields ex_ir_state not_learned_def
  have 0: "ex_learn_run (LearnWait, ex_ir) [] (LearnWait, ex_ir)" by (rule lr_refl)
  have 1: "ex_learn_run (LearnWait, ex_ir) ([] @ [OtherTask EvLearnStart]) (LearnWait, ?on)"
    by (rule lr_other [OF 0]) (simp_all add: eval)
  have 2: "ex_learn_run (LearnWait, ex_ir) (([] @ [OtherTask EvLearnStart]) @ [LearnTask [EnableIRIn, ClearBuffer]])
      (LearnTest, ?on)"
    by (rule lr_task [OF 1, where decoded = None]) (simp add: eval)
  note 3 = lr_task [OF 2, where decoded = None and pc' = LearnDecode and acts = "[LearnDelay 100]" and s' = ?on]
  have "ex_learn_run (LearnWait, ex_ir) ([OtherTask EvLearnStart, LearnTask [EnableIRIn, ClearBuffer],
      LearnTask [LearnDelay 100]]) (LearnDecode, ?on)"
    using 3 by (simp add: eval)
  from lr_other [OF this, where ev = EvLearnStop and acc = "[]" and rds = "[]" and s' = ex_ir]
  have "ex_learn_run (LearnWait, ex_ir) ([OtherTask EvLearnStart, LearnTask [EnableIRIn, ClearBuffer],
      LearnTask [LearnDelay 100], OtherTask EvLearnStop]) (LearnDecode, ex_ir)"
    by (simp add: eval)
  from lr_task [OF this, where decoded = "Some ex_decode" and pc' = LearnTest and s' = ex_late]
  have "ex_learn_run (LearnWait, ex_ir) ex_late_trace (LearnTest, ex_late)"
    by (simp add: ex_late_trace_def learn_task_step_def learn_round_def decode_failed_def ex_decode_def
        ex_ir_fields ex_ir_state list_queue_def ex_late_def)
  moreover have "learn_ir_start (Some ex_ir) = LearnWait" by (simp add: learn_ir_start_def ex_ir_fields)
  ultimately show ?thesis by simp
qed

text \<open>
  A code that arrives in the pause after learning was stopped is still reported: the dock has
  left the learning state, and every client gets a learned code.
\<close>

theorem report_after_stop:
  "ex_learn_run (learn_ir_start (Some ex_ir), ex_ir) ex_late_trace (LearnTest, ex_late) \<and>
   \<not> isIrLearning word_eventgroup ex_late \<and>
   ir_apiResponseQueue ex_late = Some [IrReceived (- 1) ''4;640C;15;0'']"
  using ex_late_run
  by (simp add: ex_late_def isIrLearning_def ex_ir_fields word_eventgroup_def learned_code_def
      ex_decode_def show_int_def show_nat.simps char_of_def bit_Suc_0_iff)

section \<open>Witnesses\<close>

lemma selected_pins_ready_witness:
  "\<exists>before after. send_pins board_5_4 = before @ [PinOutput 13, PinLow 13] @ after"
proof -
  have "send_ir_start board_5_4 (Some ex_ir) = Some (send_pins board_5_4, pin_bit 5)"
    by (simp add: send_ir_start_def ex_ir_fields board_5_4_def)
  moreover have "bit (pin_mask board_5_4 False True False False) 13"
    by (simp add: pin_mask_def board_5_4_def pin_bit_def bit_exp_iff)
  ultimately show ?thesis by (rule selected_pins_ready)
qed

lemma learn_receiver_paired_witness:
  "receiver (concat (map task_actions ex_late_trace)) False = Some True"
  using learn_receiver_paired [of board_5_4 ex_lib "\<lambda>_. True" "\<lambda>_. ''640C''" "list_queue 1" "list_queue 5"
      word_eventgroup ex_ir ex_late_trace LearnTest ex_late] ex_late_run
  by (simp add: receiver_on_def)

lemma one_report_after_stop_witness: "reports [Decode (Some ex_decode)] \<le> 1"
proof -
  let ?s = "fst (stopIrLearn word_eventgroup ex_ir)"
  have s: "?s = ex_ir"
    by (simp add: stopIrLearn_def map_group_def ex_ir_fields word_eventgroup_def ex_ir_state)
  have "ex_learn_run (LearnDecode, ?s) ([] @ [LearnTask [Decode (Some ex_decode), LearnIr (IrSetState IR_LEARN_OK)]])
      (LearnTest, ex_late)"
    by (rule lr_task [OF lr_refl, where decoded = "Some ex_decode"])
      (simp add: s learn_task_step_def learn_round_def decode_failed_def ex_decode_def
        ex_ir_fields ex_ir_state list_queue_def ex_late_def)
  from one_report_after_stop [OF word_eventgroup_spec _ this] show ?thesis
    by (simp add: task_actions_def)
qed

end
