(* ===== verification/GcServer.thy ===== *)
theory GcServer
  imports ServiceIr Util Config
begin

text \<open>
  \<open>src/lib/service_ir/globalcache_server.cpp\<close>: the TCP server that speaks the Global Cache (iTach)
  protocol. Modelled are the accept loop with its counting semaphore, one round of a client task
  (what was received, the reply, the calls of the IR service and of the state), the loop that
  writes a reply to the socket, and the text of the UDP beacon. Sockets are arguments: the results
  of \<open>recv\<close>, \<open>accept\<close> and \<open>send\<close>.
\<close>

section \<open>Writing to a socket\<close>

text \<open>
  \<open>results\<close> are the return values of the successive calls of \<open>send\<close>, which takes as many bytes as
  it returns from the part not yet written. \<open>None\<close>: the loop needs more calls.
\<close>

fun send_loop :: "int list \<Rightarrow> string \<Rightarrow> nat \<Rightarrow> (bool \<times> string) option" where
  "send_loop results buf to_write =
     (if to_write = 0 then Some (True, [])
      else case results of
        [] \<Rightarrow> None
      | written # rest \<Rightarrow>
          if written < 0 then Some (False, [])
          else map_option (\<lambda>(ok, out). (ok, take (nat written) (drop (length buf - to_write) buf) @ out))
                 (send_loop rest buf (to_write - nat written)))"

declare send_loop.simps [simp del]

definition send_string_to_socket :: "int list \<Rightarrow> string \<Rightarrow> (bool \<times> string) option" where
  "send_string_to_socket results buf = send_loop results buf (length buf)"

text \<open>What \<open>send\<close> promises: it takes at most the bytes it is given.\<close>

fun send_results_ok :: "int list \<Rightarrow> nat \<Rightarrow> bool" where
  "send_results_ok [] n = True"
| "send_results_ok (w # ws) n = (w \<le> int n \<and> send_results_ok ws (n - nat w))"

lemma send_loop_writes:
  assumes "send_loop results buf n = Some (ok, out)" "n \<le> length buf" "send_results_ok results n"
  shows "if ok then out = drop (length buf - n) buf
         else \<exists>k. k < n \<and> out = take k (drop (length buf - n) buf)"
  using assms
proof (induction results arbitrary: n out)
  case Nil
  then show ?case by (auto simp: send_loop.simps [of "[]"] split: if_splits)
next
  case (Cons w ws)
  let ?rest = "drop (length buf - n) buf"
  show ?case
  proof (cases "n = 0 \<or> w < 0")
    case True
    then show ?thesis
      using Cons.prems(1) by (auto simp: send_loop.simps [of "w # ws"] split: if_splits)
  next
    case False
    then obtain out' where out: "send_loop ws buf (n - nat w) = Some (ok, out')"
        "out = take (nat w) ?rest @ out'"
      using Cons.prems(1) by (auto simp: send_loop.simps [of "w # ws"])
    have w: "nat w \<le> n" "send_results_ok ws (n - nat w)" using Cons.prems(3) by auto
    have shift: "drop (length buf - (n - nat w)) buf = drop (nat w) ?rest"
      using Cons.prems(2) w by (simp add: add.commute)
    show ?thesis
    proof (cases ok)
      case True
      have "out' = drop (length buf - (n - nat w)) buf"
        using Cons.IH [OF out(1) _ w(2)] Cons.prems(2) True by simp
      then have "out' = drop (nat w) ?rest" unfolding shift .
      with True show ?thesis unfolding out(2) by (simp only: append_take_drop_id if_True)
    next
      case False
      with Cons.IH [OF out(1) _ w(2)] Cons.prems(2)
      have "\<exists>k < n - nat w. out' = take k (drop (length buf - (n - nat w)) buf)" by simp
      then obtain k where k: "k < n - nat w" "out' = take k (drop (nat w) ?rest)"
        unfolding shift by blast
      then have "out = take (nat w + k) ?rest" by (simp add: out(2) take_add)
      with False k(1) show ?thesis by (auto intro!: exI [of _ "nat w + k"])
    qed
  qed
qed

text \<open>
  C36. However the network splits the writes, a reply that was sent successfully has reached the
  socket completely and in order; after an error a proper prefix of it has.
\<close>

theorem send_string_complete:
  assumes "send_string_to_socket results buf = Some (ok, out)" and "send_results_ok results (length buf)"
  shows "if ok then out = buf else \<exists>k < length buf. out = take k buf"
  using send_loop_writes [of results buf "length buf" ok out] assms
  by (auto simp: send_string_to_socket_def split: if_splits)

theorem send_string_complete_witness:
  "send_string_to_socket [3, 0, 4] ''busyir!'' = Some (True, ''busyir!'')"
proof -
  have "\<exists>out. send_string_to_socket [3, 0, 4] ''busyir!'' = Some (True, out)"
    by (simp add: send_string_to_socket_def send_loop.simps)
  then show ?thesis using send_string_complete [of "[3, 0, 4]" "''busyir!''" True] by auto
qed

section \<open>Client slots\<close>

definition MAX_TCP_CLIENT_COUNT :: nat where "MAX_TCP_CLIENT_COUNT = 8"

text \<open>The counting semaphore and the client tasks that run.\<close>

record gc_server =
  gs_slots :: nat
  gs_clients :: nat

definition gc_server_start :: gc_server where
  "gc_server_start = \<lparr>gs_slots = MAX_TCP_CLIENT_COUNT, gs_clients = 0\<rparr>"

text \<open>A round of the accept loop: \<open>None\<close> while it waits for a slot; \<open>sock\<close> is what \<open>accept\<close> returns.\<close>

definition accept_round :: "int \<Rightarrow> gc_server \<Rightarrow> gc_server option" where
  "accept_round sock s =
     (if gs_slots s = 0 then None
      else let s1 = s\<lparr>gs_slots := gs_slots s - 1\<rparr> in
      if sock < 0 then Some s1 else Some (s1\<lparr>gs_clients := gs_clients s1 + 1\<rparr>))"

text \<open>The end of a client task.\<close>

definition client_done :: "gc_server \<Rightarrow> gc_server" where
  "client_done s = s\<lparr>gs_slots := gs_slots s + 1, gs_clients := gs_clients s - 1\<rparr>"

inductive gc_reach :: "nat \<Rightarrow> gc_server \<Rightarrow> bool" where
  gc_start: "gc_reach 0 gc_server_start"
| gc_accept: "gc_reach n s \<Longrightarrow> 0 \<le> sock \<Longrightarrow> accept_round sock s = Some s' \<Longrightarrow> gc_reach n s'"
| gc_accept_failed: "gc_reach n s \<Longrightarrow> sock < 0 \<Longrightarrow> accept_round sock s = Some s' \<Longrightarrow> gc_reach (Suc n) s'"
| gc_done: "gc_reach n s \<Longrightarrow> 0 < gs_clients s \<Longrightarrow> gc_reach n (client_done s)"

lemma gc_slots_balance:
  assumes "gc_reach n s"
  shows "gs_slots s + gs_clients s + n = MAX_TCP_CLIENT_COUNT"
  using assms
  by (induction rule: gc_reach.induct)
     (auto simp: gc_server_start_def accept_round_def client_done_def Let_def split: if_splits)

text \<open>
  Never more than eight clients are served, and every failed \<open>accept\<close> costs a slot for good:
  after \<open>n\<close> failures at most \<open>8 - n\<close> clients can be connected, after eight the server accepts none.
\<close>

theorem gc_client_slots:
  assumes "gc_reach n s"
  shows "gs_clients s + n \<le> MAX_TCP_CLIENT_COUNT \<and>
     (n = MAX_TCP_CLIENT_COUNT \<longrightarrow> gs_clients s = 0 \<and> (\<forall>sock. accept_round sock s = None))"
  using gc_slots_balance [OF assms] by (auto simp: accept_round_def)

theorem gc_client_slots_witness:
  "gs_clients \<lparr>gs_slots = 6, gs_clients = 1\<rparr> + 1 \<le> MAX_TCP_CLIENT_COUNT"
proof -
  have "accept_round (- 1) gc_server_start = Some \<lparr>gs_slots = 7, gs_clients = 0\<rparr>"
    by (simp add: accept_round_def gc_server_start_def MAX_TCP_CLIENT_COUNT_def)
  then have one: "gc_reach (Suc 0) \<lparr>gs_slots = 7, gs_clients = 0\<rparr>"
    by (rule gc_accept_failed [OF gc_start, rotated]) simp
  have "accept_round 54 \<lparr>gs_slots = 7, gs_clients = 0\<rparr> = Some \<lparr>gs_slots = 6, gs_clients = 1\<rparr>"
    by (simp add: accept_round_def)
  then have "gc_reach (Suc 0) \<lparr>gs_slots = 6, gs_clients = 1\<rparr>"
    by (rule gc_accept [OF one, rotated]) simp
  from gc_client_slots [OF this] show ?thesis by simp
qed

section \<open>One request of a client\<close>

datatype gc_action = GcSend string | GcState States | GcIr ir_action

text \<open>What does not change while a client is served.\<close>

record gc_client =
  cl_board :: board
  cl_version :: string \<comment> \<open>the build flag \<open>DOCK_VERSION\<close>\<close>
  cl_mac :: string
  cl_socket :: int

definition gc_mac :: "string \<Rightarrow> string" where
  "gc_mac hostname = snprintf 13 (drop 8 hostname)"

type_synonym ('q, 'a, 'e) gc_result = "fault + (bool \<times> gc_action list \<times> ('q, 'a, 'e) ir)"

text \<open>A reply; when it cannot be sent the client task ends. \<open>sent\<close> is what the socket says.\<close>

definition reply :: "bool \<Rightarrow> string \<Rightarrow> ('q, 'a, 'e) ir \<Rightarrow> ('q, 'a, 'e) gc_result" where
  "reply sent t s = Inr (sent, [GcSend t], s)"

definition silent :: "gc_action list \<Rightarrow> ('q, 'a, 'e) ir \<Rightarrow> ('q, 'a, 'e) gc_result" where
  "silent acts s = Inr (True, acts, s)"

definition CR :: char where "CR = CHR 0x0D"

definition err_reply :: "int \<Rightarrow> int \<Rightarrow> nat \<Rightarrow> string" where
  "err_reply module port code =
     snprintf 16 (''ERR_'' @ show_int module @ '':'' @ show_int port @ '','' @ show_pad0 3 code @ [CR])"

definition gc_sendir_reply :: "GCMsg \<Rightarrow> nat \<Rightarrow> string option" where
  "gc_sendir_reply req result =
     (if result = 0 \<or> result = 200 then None
      else if result = 202 then None
      else if result > 0 \<and> result < 100 then Some (err_reply (gm_module req) (gm_port req) result)
      else if result = 500 then Some (err_reply (gm_module req) (gm_port req) 23)
      else if result = 429 \<or> result = 503 then Some (''busyir'' @ [CR])
      else Some (err_reply (gm_module req) (gm_port req) 1))"

text \<open>The message id is what the parameters start with; without parameters the pointer is null.\<close>

definition gc_sendir ::
  "gc_client \<Rightarrow> ('q, IRSendMessage) queue_ops \<Rightarrow> 'e eventgroup_ops \<Rightarrow> bool \<Rightarrow> string \<Rightarrow> GCMsg \<Rightarrow>
   ('q, 'a, 'e) ir \<Rightarrow> ('q, 'a, 'e) gc_result" where
  "gc_sendir cl qops eops sent request req s =
     (case gm_param req of
        None \<Rightarrow> Inl NullPointer
      | Some param \<Rightarrow>
          (case sendGlobalCache (cl_board cl) qops eops IR_CLIENT_GC (word_of_int (atoi param)) request
                  (cl_socket cl) s of
             (result, s') \<Rightarrow>
               (case gc_sendir_reply req result of
                  None \<Rightarrow> silent [] s'
                | Some t \<Rightarrow> reply sent t s')))"

definition gc_ports :: "board \<Rightarrow> nat" where
  "gc_ports b =
     1 + (if IR_SEND_PIN_INT_TOP b \<noteq> None then 1 else 0) + 1 +
     (if IR_SEND_PIN_EXT_2 b \<noteq> None then 1 else 0)"

definition gc_devices :: "board \<Rightarrow> string" where
  "gc_devices b =
     snprintf 64 (''device,0,0 WIFI'' @ [CR] @ ''device,1,'' @ show_nat (gc_ports b) @ '' IR'' @ [CR] @
       ''endlistdevices'' @ [CR])"

text \<open>\<open>sent\<close> answers for the first reply, \<open>sent2\<close> for the second one.\<close>

definition gc_getdevices ::
  "gc_client \<Rightarrow> bool \<Rightarrow> bool \<Rightarrow> ('q, 'a, 'e) ir \<Rightarrow> ('q, 'a, 'e) gc_result" where
  "gc_getdevices cl sent sent2 s =
     (let devices = gc_devices (cl_board cl)
      in if HAS_ETHERNET (cl_board cl) then
           (if \<not> sent then reply False (''device,0,0 ETHERNET'' @ [CR]) s
            else Inr (sent2, [GcSend (''device,0,0 ETHERNET'' @ [CR]), GcSend devices], s))
         else reply sent devices s)"

definition dock_version :: "string \<Rightarrow> string" where
  "dock_version v = (case v of c # r \<Rightarrow> if c = CHR ''v'' then r else v | [] \<Rightarrow> v)"

definition gc_version_text :: "string \<Rightarrow> string" where
  "gc_version_text v =
     (case replacechar (Some (snprintf 20 (dock_version v @ [CR]))) (CHR ''.'') (CHR ''-'') of
        (_, Some t) \<Rightarrow> t | (_, None) \<Rightarrow> [])"

definition gc_blink :: "GCMsg \<Rightarrow> gc_action list" where
  "gc_blink req =
     (case gm_param req of
        Some p \<Rightarrow> if p = ''1'' then [GcState IDENTIFY] else if p = ''0'' then [GcState NORMAL] else []
      | None \<Rightarrow> [GcState IDENTIFY])"

definition gc_command_step ::
  "gc_client \<Rightarrow> ('q, IRSendMessage) queue_ops \<Rightarrow> 'e eventgroup_ops \<Rightarrow> bool \<Rightarrow> bool \<Rightarrow> string \<Rightarrow> GCMsg \<Rightarrow>
   ('q, 'a, 'e) ir \<Rightarrow> ('q, 'a, 'e) gc_result" where
  "gc_command_step cl qops eops sent sent2 request req s =
     (let c = gm_command req in
      if c = ''sendir'' then gc_sendir cl qops eops sent request req s
      else if c = ''stopir'' then reply sent request (stopSend eops s)
      else if c = ''getdevices'' then gc_getdevices cl sent sent2 s
      else if c = ''getversion'' then reply sent (gc_version_text (cl_version cl)) s
      else if c = ''getmac'' then reply sent (snprintf 30 (''MACaddress,'' @ cl_mac cl @ [CR])) s
      else if c = ''blink'' then silent (gc_blink req) s
      else if c = ''get_IRL'' then (case startIrLearn eops s of (s', acts) \<Rightarrow> silent (map GcIr acts) s')
      else if c = ''stop_IRL'' then (case stopIrLearn eops s of (s', acts) \<Rightarrow> silent (map GcIr acts) s')
      else reply sent (err_reply (gm_module req) (gm_port req) 1) s)"

definition no_request :: GCMsg where
  "no_request = \<lparr>gm_command = [], gm_module = 0, gm_port = 0, gm_param = None\<rparr>"

text \<open>
  A round of the client task on what \<open>recv\<close> delivered, a C string. The first result tells whether
  the task goes on.
\<close>

definition gc_round ::
  "gc_client \<Rightarrow> ('q, IRSendMessage) queue_ops \<Rightarrow> 'e eventgroup_ops \<Rightarrow> bool \<Rightarrow> bool \<Rightarrow> string \<Rightarrow>
   ('q, 'a, 'e) ir \<Rightarrow> ('q, 'a, 'e) gc_result" where
  "gc_round cl qops eops sent sent2 rx_buffer s =
     (case strchr rx_buffer CR of
        None \<Rightarrow>
          reply sent ((if strncmp_eq rx_buffer ''sendir,'' 7 then ''ERR 020'' else ''ERR 016'') @ [CR]) s
      | Some end_ptr \<Rightarrow>
          let request = take (ptr_diff end_ptr rx_buffer) rx_buffer in
          if dropWhile (\<lambda>c. \<not> isgraph c) request = [] then silent [] s
          else (case parseGcRequest (Some request) (Some no_request) of
                  (0, Some req) \<Rightarrow> gc_command_step cl qops eops sent sent2 request req s
                | (result, _) \<Rightarrow> reply sent (snprintf 16 (''ERR_1:1,'' @ show_pad0 3 result @ [CR])) s))"

text \<open>The client task: one round for each successful \<open>recv\<close>, until one fails or a reply is lost.\<close>

fun socket_task ::
  "gc_client \<Rightarrow> ('q, IRSendMessage) queue_ops \<Rightarrow> 'e eventgroup_ops \<Rightarrow> (string option \<times> bool \<times> bool) list \<Rightarrow>
   ('q, 'a, 'e) ir \<Rightarrow> fault + (gc_action list \<times> ('q, 'a, 'e) ir)" where
  "socket_task cl qops eops [] s = Inr ([], s)"
| "socket_task cl qops eops ((None, _) # rs) s = Inr ([], s)"
| "socket_task cl qops eops ((Some rx, sent, sent2) # rs) s =
     bind_res (gc_round cl qops eops sent sent2 rx s) (\<lambda>(go, acts, s1).
       if go then bind_res (socket_task cl qops eops rs s1) (\<lambda>(acts', s2). Inr (acts @ acts', s2))
       else Inr (acts, s1))"

section \<open>The beacon\<close>

definition beacon_text :: "string \<Rightarrow> string \<Rightarrow> string \<Rightarrow> string \<Rightarrow> string \<Rightarrow> string" where
  "beacon_text hostname model version ip serial =
     (let uuid = snprintf 30 (''UnfoldedCircle_'' @ drop 8 hostname);
          v = (case replacechar (Some (snprintf 20 (dock_version version))) (CHR ''.'') (CHR ''-'') of
                 (_, Some t) \<Rightarrow> t | (_, None) \<Rightarrow> [])
      in ''AMXB<-UUID='' @ uuid @ ''><-SDKClass=Utility><-Make=Unfolded Circle><-Model='' @ model @
         ''><-Revision='' @ v @ ''><-Config-URL=http://'' @ ip @ ''><-PCB_PN='' @ serial @ ''><-Status=Ready>'')"

text \<open>\<open>sendto\<close> gets the length \<open>snprintf\<close> would have needed, from a buffer of 200 bytes.\<close>

definition beacon_send :: "string \<Rightarrow> string \<Rightarrow> string \<Rightarrow> string \<Rightarrow> string \<Rightarrow> fault + string" where
  "beacon_send hostname model version ip serial =
     (let t = beacon_text hostname model version ip serial
      in if length t \<le> 200 then Inr (take (length t) (snprintf 200 t @ [CHR 0x00])) else Inl OutOfBounds)"

section \<open>Replies\<close>

definition ends_cr :: "string \<Rightarrow> bool" where
  "ends_cr t \<longleftrightarrow> t \<noteq> [] \<and> last t = CR"

lemma ends_cr_append [simp]: "ends_cr (x @ [CR])"
  by (simp add: ends_cr_def)

lemma ends_cr_snprintf: "length x + 1 < n \<Longrightarrow> ends_cr (snprintf n (x @ [CR]))"
  by (simp add: snprintf_def)

lemma err_reply_cr:
  assumes "0 \<le> m" "m \<le> 1" "0 \<le> p" "p \<le> 15" "code < 1000"
  shows "ends_cr (err_reply m p code)"
proof -
  have "length (show_int m) \<le> 1" "length (show_int p) \<le> 2" "length (show_pad0 3 code) = 3"
    using assms length_show_int [of m 1] length_show_int [of p 2] length_show_pad0 [of 3 code] by simp_all
  then have "length (''ERR_'' @ show_int m @ '':'' @ show_int p @ '','' @ show_pad0 3 code) + 1 < 16"
    by simp
  from ends_cr_snprintf [OF this] show ?thesis by (simp add: err_reply_def)
qed

lemma gc_wf_err_reply: "gc_wf req \<Longrightarrow> code < 1000 \<Longrightarrow> ends_cr (err_reply (gm_module req) (gm_port req) code)"
  by (rule err_reply_cr) (auto simp: gc_wf_def)

lemma gc_sendir_reply_cr: "gc_wf req \<Longrightarrow> gc_sendir_reply req r = Some t \<Longrightarrow> ends_cr t"
  by (auto simp: gc_sendir_reply_def gc_wf_err_reply ends_cr_def split: if_splits)
    (auto simp: gc_wf_err_reply [unfolded ends_cr_def])

lemma devices_cr:
  "ends_cr (gc_devices b)"
proof -
  have "gc_ports b < 10 ^ 1" by (simp add: gc_ports_def)
  then have "length (show_nat (gc_ports b)) \<le> 1" by (intro length_show_nat) simp_all
  then have "length ((''device,0,0 WIFI'' @ [CR] @ ''device,1,'' @ show_nat (gc_ports b) @
      '' IR'' @ [CR] @ ''endlistdevices'')) + 1 < 64" by simp
  from ends_cr_snprintf [OF this] show ?thesis by (simp add: gc_devices_def)
qed

lemma version_cr: "length (dock_version v) \<le> 18 \<Longrightarrow> ends_cr (gc_version_text v)"
  by (simp add: gc_version_text_def replacechar_def replace_from_eq snprintf_def ends_cr_def CR_def)

lemma getdevices_cr:
  "gc_getdevices cl sent sent2 s = Inr (go, acts, s') \<Longrightarrow> GcSend t \<in> set acts \<Longrightarrow> ends_cr t"
  using devices_cr ends_cr_append [of "''device,0,0 ETHERNET''"]
  by (auto simp: gc_getdevices_def reply_def Let_def split: if_splits)

lemma command_step_cr:
  assumes "gc_command_step cl qops eops sent sent2 request req s = Inr (go, acts, s')"
    and "GcSend t \<in> set acts" and "gc_wf req"
    and "length (dock_version (cl_version cl)) \<le> 18" "length (cl_mac cl) \<le> 12"
  shows "ends_cr t \<or> gm_command req = ''stopir'' \<and> t = request"
proof -
  have mac: "ends_cr (snprintf 30 (''MACaddress,'' @ cl_mac cl @ [CR]))"
    using ends_cr_snprintf [of "''MACaddress,'' @ cl_mac cl" 30] assms(5) by simp
  show ?thesis
    using assms(1,2) mac version_cr [OF assms(4)] gc_sendir_reply_cr [OF assms(3)]
      gc_wf_err_reply [OF assms(3), of 1]
    by (auto simp: gc_command_step_def Let_def reply_def silent_def gc_sendir_def gc_blink_def
        dest: getdevices_cr split: if_splits option.splits prod.splits)
qed


text \<open>
  The only way a request can crash the client task is \<open>sendir\<close> without parameters, where the
  null pointer is passed to \<open>atoi\<close>; every other text is answered or ignored.
\<close>

theorem gc_round_faults:
  assumes "gc_round cl qops eops sent sent2 rx s = Inl f"
  shows "f = NullPointer \<and> (\<exists>e request req. strchr rx CR = Some e \<and> request = take (ptr_diff e rx) rx \<and>
     parseGcRequest (Some request) (Some no_request) = (0, Some req) \<and> gm_command req = ''sendir'' \<and>
     gm_param req = None)"
proof (cases "strchr rx CR")
  case None
  with assms show ?thesis by (simp add: gc_round_def reply_def)
next
  case (Some e)
  let ?request = "take (ptr_diff e rx) rx"
  obtain result m where p: "parseGcRequest (Some ?request) (Some no_request) = (result, m)"
    by (cases "parseGcRequest (Some ?request) (Some no_request)")
  with assms Some obtain req where req: "parseGcRequest (Some ?request) (Some no_request) = (0, Some req)"
    and step: "gc_command_step cl qops eops sent sent2 ?request req s = Inl f"
    by (auto simp: gc_round_def silent_def reply_def Let_def split: if_splits option.splits nat.splits)
  from step have "f = NullPointer \<and> gm_command req = ''sendir'' \<and> gm_param req = None"
    by (auto simp: gc_command_step_def gc_sendir_def gc_getdevices_def Let_def reply_def silent_def
        split: if_splits option.splits prod.splits)
  with Some req show ?thesis by blast
qed

section \<open>Concrete requests\<close>

lemmas gc_eval = gc_round_def gc_command_step_def gc_sendir_def reply_def silent_def parseGcRequest_def
  ptr_diff_def command_size_def CR_def isgraph_def code_of_def no_request_def err_reply_def snprintf_def

text \<open>
  A single \<open>sendir\<close> and a carriage return from any client crash the client task.
\<close>

theorem gc_sendir_crash:
  "gc_round cl qops eops sent sent2 (''sendir'' @ [CR]) s = Inl NullPointer"
  by (simp add: gc_eval)

text \<open>
  The answer to \<open>stopir\<close> is not terminated: the carriage return was cut off before it is echoed.
\<close>

theorem gc_stopir_reply:
  "gc_round cl qops eops sent sent2 (''stopir,1:2'' @ [CR]) s =
     Inr (sent, [GcSend ''stopir,1:2''], stopSend eops s)"
  by (simp add: gc_eval atoi_def skip_sign_def isspace_def is_base_digit_def digit_value_def num_value_def)

text \<open>
  Characters in front of a request are not skipped, although the code looks for the start of
  the message: a request after a line feed is rejected as unknown.
\<close>

theorem gc_leading_newline:
  "gc_round cl qops eops sent sent2 ([CHR 0x0A] @ ''getdevices'' @ [CR]) s =
     Inr (sent, [GcSend (''ERR_0:0,001'' @ [CR])], s)"
  by (simp add: gc_eval show_int_def show_nat.simps show_pad0_def char_of_def bit_Suc_0_iff
      numeral_2_eq_2)

definition ex_client :: gc_client where
  "ex_client = \<lparr>cl_board = board_5_4, cl_version = ''v0.6.0'', cl_mac = gc_mac ''UC-Dock-0123456789AB'',
     cl_socket = 54\<rparr>"


theorem gc_round_faults_witness:
  "gc_round ex_client (list_queue 1) word_eventgroup True True (''sendir'' @ [CR])
     (ir_start :: (IRSendMessage list, IrResponse list, u32) ir) = Inl NullPointer"
proof -
  have "\<exists>f. gc_round ex_client (list_queue 1) word_eventgroup True True (''sendir'' @ [CR])
     (ir_start :: (IRSendMessage list, IrResponse list, u32) ir) = Inl f"
    by (simp add: gc_eval)
  then obtain f where f: "gc_round ex_client (list_queue 1) word_eventgroup True True (''sendir'' @ [CR])
     (ir_start :: (IRSendMessage list, IrResponse list, u32) ir) = Inl f" ..
  with gc_round_faults [OF f] show ?thesis by simp
qed

section \<open>The beacon fits its buffer\<close>

lemma length_version_text:
  "length (case replacechar (Some (snprintf 20 v)) (CHR ''.'') (CHR ''-'') of (_, Some t) \<Rightarrow> t | (_, None) \<Rightarrow> []) \<le> 19"
  by (simp add: replacechar_def replace_from_eq snprintf_def)

text \<open>
  The beacon fits the 200 bytes of its buffer for every version text, as long as the host name
  has at most 20, the model 7, the address 15 and the serial number 8 characters: three bytes are
  left, and no byte behind the text is sent.
\<close>

theorem beacon_fits:
  assumes "length hostname \<le> 20" "length model \<le> 7" "length ip \<le> 15" "length serial \<le> 8"
  shows "beacon_send hostname model version ip serial = Inr (beacon_text hostname model version ip serial) \<and>
     length (beacon_text hostname model version ip serial) \<le> 197"
proof -
  let ?t = "beacon_text hostname model version ip serial"
  have "length (snprintf 30 (''UnfoldedCircle_'' @ drop 8 hostname)) \<le> 27"
    using assms(1) by (simp add: snprintf_def)
  with assms length_version_text [of "dock_version version"] have len: "length ?t \<le> 197"
    unfolding beacon_text_def Let_def by simp
  then have "take (length ?t) (snprintf 200 ?t @ [CHR 0x00]) = ?t" by (simp add: snprintf_def)
  with len show ?thesis by (simp add: beacon_send_def Let_def)
qed

theorem beacon_fits_witness:
  "length (beacon_text ''UC-Dock-0123456789AB'' ''UCD2'' ''v0.6.0'' ''192.168.1.20'' ''12345678'') \<le> 197"
  using beacon_fits [of "''UC-Dock-0123456789AB''" "''UCD2''" "''192.168.1.20''" "''12345678''" "''v0.6.0''"]
  by simp

end
