(* ===== verification/GcStart.thy ===== *)
theory GcStart
  imports GcServer "HOL-Library.Multiset"
begin

text \<open>
  The tasks of \<open>src/lib/service_ir/globalcache_server.cpp\<close> from their start to their end: the
  server's socket, the hand-over of clients and the sockets they close, and the beacon task. The
  results of the socket calls are arguments; the calls that matter are the actions.
\<close>

section \<open>Calls\<close>

datatype socket_action =
    SocketOpened int
  | SocketOption int string
  | SocketBound int nat
  | SocketListen int
  | SocketShutdown int
  | SocketClosed int
  | SlotGiven
  | TaskStart string nat nat \<comment> \<open>name, priority, core\<close>
  | ClientStart int string \<comment> \<open>socket and the text of \<open>mac\<close>\<close>
  | TaskDeleted
  | BeaconSent int string
  | TaskDelay nat

definition TCP_API_PORT :: nat where "TCP_API_PORT = 4998"
definition BEACON_BROADCAST_PORT :: nat where "BEACON_BROADCAST_PORT = 9131"

definition GlobalCacheServer :: "socket_action list" where
  "GlobalCacheServer = [TaskStart ''GC server'' 3 0, TaskStart ''GC beacon'' 2 0]"

section \<open>The server task\<close>

text \<open>
  \<open>slots\<close>: the semaphore could be created; \<open>sock\<close>, \<open>bound\<close>, \<open>listening\<close> are the results of
  \<open>socket\<close>, \<open>bind\<close> and \<open>listen\<close>. The result is the listening socket, if the task goes on.
\<close>

definition tcp_server_start :: "bool \<Rightarrow> int \<Rightarrow> int \<Rightarrow> int \<Rightarrow> socket_action list \<times> int option" where
  "tcp_server_start slots sock bound listening =
     (if \<not> slots then ([TaskDeleted], None)
      else if sock < 0 then ([TaskDeleted], None)
      else let opened = [SocketOpened sock, SocketOption sock ''SO_REUSEADDR'']
      in if bound \<noteq> 0 then (opened @ [SocketClosed sock, TaskDeleted], None)
      else if listening \<noteq> 0
      then (opened @ [SocketBound sock TCP_API_PORT, SocketClosed sock, TaskDeleted], None)
      else (opened @ [SocketBound sock TCP_API_PORT, SocketListen sock], Some sock))"

text \<open>What the server does with the result of \<open>accept\<close>.\<close>

definition accept_client :: "string \<Rightarrow> int \<Rightarrow> socket_action list" where
  "accept_client hostname sock =
     (if sock < 0 then []
      else [SocketOpened sock, SocketOption sock ''SO_KEEPALIVE'', SocketOption sock ''TCP_KEEPIDLE'',
            SocketOption sock ''TCP_KEEPINTVL'', SocketOption sock ''TCP_KEEPCNT'',
            ClientStart sock (gc_mac hostname), TaskStart ''GC client'' 5 1])"

definition client_end :: "int \<Rightarrow> socket_action list" where
  "client_end sock = [SocketShutdown sock, SocketClosed sock, SlotGiven, TaskDeleted]"

text \<open>
  The server with its client tasks: the actions so far, the semaphore and the sockets of the
  clients that run.
\<close>

inductive server_run :: "string \<Rightarrow> int \<Rightarrow> socket_action list \<Rightarrow> gc_server \<Rightarrow> int list \<Rightarrow> bool"
  for hostname fd where
  sr_start: "tcp_server_start True fd 0 0 = (acts, Some fd) \<Longrightarrow>
    server_run hostname fd acts gc_server_start []"
| sr_failed: "server_run hostname fd acts gs clients \<Longrightarrow> sock < 0 \<Longrightarrow> accept_round sock gs = Some gs' \<Longrightarrow>
    server_run hostname fd (acts @ accept_client hostname sock) gs' clients"
| sr_accept: "server_run hostname fd acts gs clients \<Longrightarrow> 0 \<le> sock \<Longrightarrow> accept_round sock gs = Some gs' \<Longrightarrow>
    server_run hostname fd (acts @ accept_client hostname sock) gs' (sock # clients)"
| sr_end: "server_run hostname fd acts gs clients \<Longrightarrow> sock \<in> set clients \<Longrightarrow>
    server_run hostname fd (acts @ client_end sock) (client_done gs) (remove1 sock clients)"

section \<open>Open sockets\<close>

fun open_sockets :: "socket_action list \<Rightarrow> int multiset \<Rightarrow> int multiset" where
  "open_sockets [] fds = fds"
| "open_sockets (SocketOpened fd # as) fds = open_sockets as (add_mset fd fds)"
| "open_sockets (SocketClosed fd # as) fds = open_sockets as (fds - {#fd#})"
| "open_sockets (a # as) fds = open_sockets as fds"

lemma open_sockets_append: "open_sockets (as @ bs) fds = open_sockets bs (open_sockets as fds)"
  by (induction as fds rule: open_sockets.induct) simp_all

text \<open>
  A server that cannot start leaves no socket open: whichever call fails, what was opened is
  closed and the task ends; otherwise exactly the listening socket is open.
\<close>

theorem tcp_server_start_clean:
  "tcp_server_start slots sock bound listening = (acts, listener) \<Longrightarrow>
   open_sockets acts {#} = (case listener of None \<Rightarrow> {#} | Some fd \<Rightarrow> {#fd#}) \<and>
   (listener = None \<longleftrightarrow> TaskDeleted \<in> set acts) \<and>
   (listener = Some sock \<longleftrightarrow> slots \<and> 0 \<le> sock \<and> bound = 0 \<and> listening = 0)"
  by (auto simp: tcp_server_start_def Let_def split: if_splits)

lemma server_run_sockets:
  assumes "server_run hostname fd acts gs clients"
  shows "open_sockets acts {#} = add_mset fd (mset clients) \<and> length clients = gs_clients gs \<and>
    gs_slots gs + gs_clients gs \<le> MAX_TCP_CLIENT_COUNT"
  using assms
proof (induction rule: server_run.induct)
  case (sr_start acts)
  then show ?case
    by (auto simp: tcp_server_start_def gc_server_start_def Let_def split: if_splits)
next
  case (sr_failed acts gs clients sock gs')
  then show ?case
    by (auto simp: open_sockets_append accept_client_def accept_round_def Let_def split: if_splits)
next
  case (sr_accept acts gs clients sock gs')
  then show ?case
    by (auto simp: open_sockets_append accept_client_def accept_round_def Let_def split: if_splits)
next
  case (sr_end acts gs clients sock)
  then have "0 < gs_clients gs" by (metis length_pos_if_in_set)
  with sr_end show ?case
    by (auto simp: open_sockets_append client_end_def client_done_def length_remove1)
qed


section \<open>The beacon task\<close>

definition beacon_start :: "int \<Rightarrow> int \<Rightarrow> socket_action list \<times> int option" where
  "beacon_start sock bound =
     (if sock < 0 then ([TaskDeleted], None)
      else if bound = -1 then ([SocketOpened sock, SocketClosed sock, TaskDeleted], None)
      else ([SocketOpened sock, SocketBound sock BEACON_BROADCAST_PORT], Some sock))"

lemma beacon_start_clean:
  "beacon_start sock bound = (acts, fd) \<Longrightarrow>
   open_sockets acts {#} = (case fd of None \<Rightarrow> {#} | Some s \<Rightarrow> {#s#})"
  by (auto simp: beacon_start_def split: if_splits)

text \<open>\<open>IPAddress::toString\<close>: the first byte of the address is the lowest of the word.\<close>

definition ip_byte :: "u32 \<Rightarrow> nat \<Rightarrow> nat" where
  "ip_byte ip i = unat ip div 256 ^ i mod 256"

definition ip_string :: "u32 \<Rightarrow> string" where
  "ip_string ip =
     show_nat (ip_byte ip 0) @ ''.'' @ show_nat (ip_byte ip 1) @ ''.'' @ show_nat (ip_byte ip 2) @ ''.'' @
     show_nat (ip_byte ip 3)"

text \<open>The address of the Ethernet interface goes before that of the WiFi.\<close>

definition beacon_ip :: "u32 \<Rightarrow> u32 \<Rightarrow> u32 option" where
  "beacon_ip eth wifi = (if eth = 0 then if wifi = 0 then None else Some wifi else Some eth)"

text \<open>The rounds of the task, one for each reading of the two addresses.\<close>

fun beacon_task ::
  "int \<Rightarrow> string \<Rightarrow> 'n config \<Rightarrow> (u32 \<times> u32) list \<Rightarrow> fault + socket_action list" where
  "beacon_task fd version c [] = Inr []"
| "beacon_task fd version c ((eth, wifi) # ips) =
     bind_res
       (case beacon_ip eth wifi of
          None \<Rightarrow> Inr [TaskDelay 10000]
        | Some ip \<Rightarrow>
            bind_res (beacon_send (getHostName c) (getModel c) version (ip_string ip) (getSerial c))
              (\<lambda>t. Inr [BeaconSent fd t, TaskDelay 30000]))
       (\<lambda>acts. bind_res (beacon_task fd version c ips) (\<lambda>acts'. Inr (acts @ acts')))"

lemma length_ip_string: "length (ip_string ip) \<le> 15"
proof -
  have "length (show_nat (ip_byte ip i)) \<le> 3" for i
  proof (rule length_show_nat)
    have "ip_byte ip i < 256" by (simp add: ip_byte_def)
    then show "ip_byte ip i < 10 ^ 3" by simp
  qed simp
  from this [of 0] this [of 1] this [of 2] this [of 3] show ?thesis by (simp add: ip_string_def)
qed

text \<open>The texts that identify the dock are short.\<close>

definition short_identity :: "'n config \<Rightarrow> bool" where
  "short_identity c \<longleftrightarrow>
     length (getHostName c) \<le> 20 \<and> length (getModel c) \<le> 7 \<and> length (getSerial c) \<le> 8"

lemma length_c_string: "length (c_string n t) \<le> n"
  unfolding c_string_def by (rule order_trans [OF length_takeWhile_le]) simp

lemma cfg_try_hwModel [frame_simps]: "cfg_hwModel (snd (cfg_try ops ns kvs c)) = cfg_hwModel c"
  by (simp add: cfg_try_def Let_def)

lemma short_identity_try [frame_simps]: "short_identity (snd (cfg_try ops ns kvs c)) = short_identity c"
  by (simp add: short_identity_def getHostName_def getModel_def getSerial_def frame_simps)

lemma setFriendlyName_identity: "short_identity (setFriendlyName ops v c) = short_identity c"
  by (simp add: setFriendlyName_def cfg_store_try Let_def frame_simps)

lemma short_identity_init:
  assumes "length hwModel \<le> 7"
  shows "short_identity (Config_init ops nvs baseMac (Efuse_init serial model revision) version hwModel hwRevision maxPrio)"
proof -
  have "length (dockHostName baseMac) \<le> 20" by (simp add: dockHostName_def snprintf_def)
  moreover have "length (c_string 7 model) \<le> 7" "length (c_string 8 serial) \<le> 8"
    by (rule length_c_string)+
  ultimately show ?thesis
    using assms
    by (simp add: Config_init_def Let_def setFriendlyName_identity Efuse_init_def)
      (simp add: short_identity_def getHostName_def getModel_def getSerial_def)
qed

text \<open>The beacon \<open>t\<close> is complete and announces an address that was read.\<close>

definition announces :: "string \<Rightarrow> 'n config \<Rightarrow> (u32 \<times> u32) list \<Rightarrow> string \<Rightarrow> bool" where
  "announces version c ips t \<longleftrightarrow>
     length t \<le> 197 \<and>
     (\<exists>(eth, wifi) \<in> set ips. \<exists>ip. beacon_ip eth wifi = Some ip \<and>
        t = beacon_text (getHostName c) (getModel c) version (ip_string ip) (getSerial c))"

lemma announces_Cons: "announces version c ips t \<Longrightarrow> announces version c (a # ips) t"
  by (auto simp: announces_def)

lemma beacon_send_short:
  assumes "short_identity c" "beacon_ip eth wifi = Some ip"
  shows "\<exists>t. beacon_send (getHostName c) (getModel c) version (ip_string ip) (getSerial c) = Inr t \<and>
    announces version c ((eth, wifi) # ips) t"
  using beacon_fits [of "getHostName c" "getModel c" "ip_string ip" "getSerial c" version]
    assms length_ip_string [of ip]
  by (auto simp: short_identity_def announces_def)

lemma beacon_task_sends:
  assumes "short_identity c"
  shows "\<exists>acts. beacon_task fd version c ips = Inr acts \<and>
    (\<forall>s t. BeaconSent s t \<in> set acts \<longrightarrow> s = fd \<and> announces version c ips t)"
proof (induction ips)
  case (Cons a ips)
  obtain eth wifi where a: "a = (eth, wifi)" by fastforce
  from Cons obtain acts where acts: "beacon_task fd version c ips = Inr acts"
    "\<And>s t. BeaconSent s t \<in> set acts \<Longrightarrow> s = fd \<and> announces version c ips t"
    by blast
  show ?case
  proof (cases "beacon_ip eth wifi")
    case None
    with acts show ?thesis by (auto simp: a dest: announces_Cons)
  next
    case (Some ip)
    from beacon_send_short [OF assms Some, of version ips] obtain t where
      t: "beacon_send (getHostName c) (getModel c) version (ip_string ip) (getSerial c) = Inr t"
      "announces version c ((eth, wifi) # ips) t"
      by blast
    with acts Some show ?thesis by (auto simp: a dest: announces_Cons)
  qed
qed simp

text \<open>
  C34. The beacon of a configured dock is never cut and never reads behind its 200 byte buffer,
  whatever its fuses, its version text and its addresses are, when the model name built into the
  firmware has at most seven characters. Every beacon announces an address
  the dock has, the one of the Ethernet interface when there is one.
\<close>

theorem beacon_complete:
  assumes "length hwModel \<le> 7"
    and "c = Config_init ops nvs baseMac (Efuse_init serial model revision) version hwModel hwRevision maxPrio"
  shows "\<exists>acts. beacon_task fd version c ips = Inr acts \<and>
    (\<forall>s t. BeaconSent s t \<in> set acts \<longrightarrow> s = fd \<and> announces version c ips t)"
  using beacon_task_sends [OF short_identity_init [OF assms(1)]] unfolding assms(2) .

section \<open>Witnesses\<close>

lemma tcp_server_start_clean_witness:
  "open_sockets (fst (tcp_server_start True 54 (- 1) 0)) {#} = {#}"
proof -
  have "tcp_server_start True 54 (- 1) 0 =
      ([SocketOpened 54, SocketOption 54 ''SO_REUSEADDR'', SocketClosed 54, TaskDeleted], None)"
    by (simp add: tcp_server_start_def)
  from tcp_server_start_clean [OF this] show ?thesis by (simp add: tcp_server_start_def)
qed


lemma beacon_complete_witness:
  "\<exists>acts. beacon_task 56 ''v0.6.0'' (Config_init map_nvs (\<lambda>_. None) [1, 2, 3, 4, 5, 6]
      (Efuse_init ''12345678'' ''UCD2'' ''5.4'') ''v0.6.0'' ''UCD2'' ''5.4'' 25) [(0, 0), (0, 0x1401A8C0)] = Inr acts \<and>
    (\<forall>s t. BeaconSent s t \<in> set acts \<longrightarrow> length t \<le> 197)"
proof -
  have "length ''UCD2'' \<le> 7" by simp
  from beacon_complete [OF this refl, of 56 "''v0.6.0''" map_nvs "\<lambda>_. None" "[1, 2, 3, 4, 5, 6]" "''12345678''"
      "''UCD2''" "''5.4''" "''5.4''" 25 "[(0, 0), (0, 0x1401A8C0)]"]
  show ?thesis by (auto simp: announces_def)
qed

end
