(* ===== verification/ServiceNetwork.thy ===== *)
theory ServiceNetwork
  imports DockState ServiceIr Config
begin

text \<open>
  \<open>src/lib/service_network/service_network.cpp\<close>: WiFi and Ethernet. The loop reconnects a lost WiFi
  connection and restarts the dock after five attempts; the events of the network driver switch
  WiFi off while Ethernet has an address. The drivers are not part of the repository: their status
  and the readings of \<open>millis()\<close> are inputs, the calls are actions.
\<close>

section \<open>State\<close>

record net =
  net_wifiPrevState :: bool
  net_wifiCheckTimedUl :: u32
  net_wifiReconnectCount :: int
  net_ethLedTimeout :: u32
  net_wifiEnabled :: bool
  net_ethLinkUp :: bool
  net_ethConnected :: bool
  net_sntpServer1 :: string
  net_sntpServer2 :: string

definition net_start :: net where
  "net_start = \<lparr>net_wifiPrevState = False, net_wifiCheckTimedUl = 10000, net_wifiReconnectCount = 0,
     net_ethLedTimeout = 0, net_wifiEnabled = True, net_ethLinkUp = False, net_ethConnected = False,
     net_sntpServer1 = [], net_sntpServer2 = []\<rparr>"

datatype net_action =
    NetReboot
  | NetBegin string string string \<comment> \<open>host name, SSID, password\<close>
  | NetBeginStored string \<comment> \<open>host name; the credentials the driver has stored\<close>
  | NetDisconnect
  | NetDelay nat
  | NetEthBegin
  | NetEthHostname string
  | NetLed "led_action list"
  | NetSntpServer nat string
  | NetSntpInit
  | NetSntpStop

type_synonym 'e net_result = "fault + net \<times> 'e led state \<times> net_action list"

section \<open>Operations\<close>

definition net_init :: "board \<Rightarrow> 'n nvs_ops \<Rightarrow> 'n config \<Rightarrow> net \<Rightarrow> net \<times> net_action list" where
  "net_init b nops c n =
     (let (n1, sntp) =
        (if isNtpEnabled nops c then
           (let server1 = getNtpServer1 nops c; server2 = getNtpServer2 nops c
            in (n\<lparr>net_sntpServer1 := server1, net_sntpServer2 := server2\<rparr>,
                (if server1 \<noteq> [] then [NetSntpServer 1 server1] else []) @
                (if server2 \<noteq> [] then [NetSntpServer 2 server2] else []) @ [NetSntpInit]))
         else (n, []))
      in (n1, sntp @ (if HAS_ETHERNET b then [NetEthBegin] else [NetBeginStored (getHostName c)])))"

text \<open>The states set here are none of those that read the clock.\<close>

definition net_setState :: "'e eventgroup_ops \<Rightarrow> States \<Rightarrow> 'e led state \<Rightarrow> fault + 'e led state" where
  "net_setState eops x s = bind_res (setState (led_setState eops) 0 x s) (\<lambda>(_, s'). Inr s')"

definition net_connect ::
  "'e eventgroup_ops \<Rightarrow> 'n config \<Rightarrow> string \<Rightarrow> string \<Rightarrow> 'e led state \<Rightarrow>
   fault + 'e led state \<times> net_action list" where
  "net_connect eops c ssid password s =
     bind_res (net_setState eops CONNECTING s) (\<lambda>s'. Inr (s', [NetBegin (getHostName c) ssid password]))"

definition setWifiEnabled ::
  "'e eventgroup_ops \<Rightarrow> 'n nvs_ops \<Rightarrow> 'n config \<Rightarrow> bool \<Rightarrow> net \<Rightarrow> 'e led state \<Rightarrow> 'e net_result" where
  "setWifiEnabled eops nops c enabled n s =
     (let n1 = n\<lparr>net_wifiEnabled := enabled\<rparr> in
      if enabled
      then bind_res (net_connect eops c (getWifiSsid nops c) (getWifiPassword nops c) s)
             (\<lambda>(s', acts). Inr (n1, s', acts))
      else Inr (n1, s, [NetDisconnect]))"

text \<open>What a round of the loop reads, in the order of the calls.\<close>

record loop_input =
  li_ledTime :: u32
  li_connected1 :: bool
  li_checkTime :: u32
  li_nextTime :: u32
  li_connected2 :: bool

definition eth_led_timeout :: "u32 \<Rightarrow> net \<Rightarrow> 'e led state \<Rightarrow> net \<times> net_action list" where
  "eth_led_timeout now n s =
     (if net_ethLedTimeout n \<noteq> 0 \<and> now > net_ethLedTimeout n
      then (n\<lparr>net_ethLedTimeout := 0\<rparr>, [NetLed (led_setEthLedBrightness 0 (st_led s))]) else (n, []))"

definition wifi_due :: "loop_input \<Rightarrow> net \<Rightarrow> bool" where
  "wifi_due i n \<longleftrightarrow> \<not> li_connected1 i \<and> li_checkTime i > net_wifiCheckTimedUl n"

definition wifi_reconnect ::
  "'e eventgroup_ops \<Rightarrow> 'n nvs_ops \<Rightarrow> 'n config \<Rightarrow> u32 \<Rightarrow> net \<Rightarrow> 'e led state \<Rightarrow> 'e net_result" where
  "wifi_reconnect eops nops c next_time n s =
     bind_res (net_setState eops CONNECTING s) (\<lambda>s1.
     bind_res (net_connect eops c (getWifiSsid nops c) (getWifiPassword nops c) s1) (\<lambda>(s2, acts).
       Inr (n\<lparr>net_wifiPrevState := False, net_wifiCheckTimedUl := next_time + 30000\<rparr>, s2,
            [NetDisconnect, NetDelay 2000] @ acts)))"

definition wifi_check_connected ::
  "'e eventgroup_ops \<Rightarrow> bool \<Rightarrow> net \<Rightarrow> 'e led state \<Rightarrow> fault + net \<times> 'e led state" where
  "wifi_check_connected eops connected n s =
     (if connected \<and> \<not> net_wifiPrevState n
      then bind_res (net_setState eops CONN_SUCCESS s)
             (\<lambda>s'. Inr (n\<lparr>net_wifiReconnectCount := 0, net_wifiPrevState := True\<rparr>, s'))
      else Inr (n, s))"

text \<open>The restart at the fifth attempt does not return.\<close>

definition handleLoop ::
  "'e eventgroup_ops \<Rightarrow> 'n nvs_ops \<Rightarrow> 'n config \<Rightarrow> loop_input \<Rightarrow> net \<Rightarrow> 'e led state \<Rightarrow> 'e net_result" where
  "handleLoop eops nops c i n s =
     (let (n1, acts1) = eth_led_timeout (li_ledTime i) n s in
      if \<not> net_wifiEnabled n1 then Inr (n1, s, acts1)
      else let due = wifi_due i n1;
               n2 = (if due then n1\<lparr>net_wifiReconnectCount := net_wifiReconnectCount n1 + 1\<rparr> else n1)
      in if due \<and> net_wifiReconnectCount n2 = 5 then Inr (n2, s, acts1 @ [NetReboot])
      else bind_res (if due then wifi_reconnect eops nops c (li_nextTime i) n2 s else Inr (n2, s, []))
             (\<lambda>(n3, s3, acts2). bind_res (wifi_check_connected eops (li_connected2 i) n3 s3)
               (\<lambda>(n4, s4). Inr (n4, s4, acts1 @ acts2))))"

datatype net_event =
    ETH_START | ETH_CONNECTED | ETH_GOT_IP | ETH_DISCONNECTED | ETH_STOP
  | WIFI_STA_DISCONNECTED | WIFI_STA_GOT_IP | NET_OTHER_EVENT

definition eth_event ::
  "'e eventgroup_ops \<Rightarrow> 'n nvs_ops \<Rightarrow> 'n config \<Rightarrow> u32 \<Rightarrow> net_event \<Rightarrow> net \<Rightarrow> 'e led state \<Rightarrow> 'e net_result" where
  "eth_event eops nops c now ev n s =
     (case ev of
        ETH_START \<Rightarrow> Inr (n, s, [NetEthHostname (getHostName c)])
      | ETH_CONNECTED \<Rightarrow>
          let brightness = getEthLedBrightness nops c;
              shown = (if brightness = 0 then 3 else brightness)
          in Inr (n\<lparr>net_ethLinkUp := True\<rparr>, s, [NetLed (led_setEthLedBrightness shown (st_led s))])
      | ETH_GOT_IP \<Rightarrow>
          let n1 = n\<lparr>net_ethConnected := True\<rparr>;
              n2 = (if getEthLedBrightness nops c = 0 then n1\<lparr>net_ethLedTimeout := now + 3000\<rparr> else n1)
          in bind_res (setWifiEnabled eops nops c False n2 s) (\<lambda>(n3, s3, acts).
             bind_res (net_setState eops CONN_SUCCESS s3) (\<lambda>s4. Inr (n3, s4, acts)))
      | ETH_DISCONNECTED \<Rightarrow>
          bind_res (setWifiEnabled eops nops c True (n\<lparr>net_ethLinkUp := False, net_ethConnected := False\<rparr>) s)
            (\<lambda>(n3, s3, acts). Inr (n3, s3, [NetLed (led_setEthLedBrightness 0 (st_led s))] @
               (if isNtpEnabled nops c then [NetSntpStop] else []) @ acts))
      | ETH_STOP \<Rightarrow>
          bind_res (setWifiEnabled eops nops c True (n\<lparr>net_ethConnected := False\<rparr>) s)
            (\<lambda>(n3, s3, acts). Inr (n3, s3, [NetLed (led_setEthLedBrightness 0 (st_led s))] @ acts))
      | _ \<Rightarrow> Inr (n, s, []))"

text \<open>Without Ethernet on the board its events are not known.\<close>

definition WiFiEvent ::
  "board \<Rightarrow> 'e eventgroup_ops \<Rightarrow> 'n nvs_ops \<Rightarrow> 'n config \<Rightarrow> u32 \<Rightarrow> net_event \<Rightarrow> net \<Rightarrow> 'e led state \<Rightarrow>
   'e net_result" where
  "WiFiEvent b eops nops c now ev n s =
     (if ev = WIFI_STA_DISCONNECTED
      then Inr (n, s, if isNtpEnabled nops c then [NetSntpStop] else [])
      else if ev = WIFI_STA_GOT_IP \<or> ev = NET_OTHER_EVENT \<or> \<not> HAS_ETHERNET b then Inr (n, s, [])
      else eth_event eops nops c now ev n s)"

section \<open>WiFi and Ethernet\<close>

lemma net_setState_ready:
  assumes "led_ready eops (st_led s)"
  obtains s' where "net_setState eops x s = Inr s'" "led_ready eops (st_led s')"
proof -
  obtain p s' where "setState (led_setState eops) 0 x s = Inr (p, s')" "led_ready eops (st_led s')"
    by (rule led_control.setState_ready [OF assms])
  then show thesis by (intro that) (simp_all add: net_setState_def)
qed

lemma net_connect_ready:
  assumes "led_ready eops (st_led s)"
  obtains s' where "net_connect eops c ssid pw s = Inr (s', [NetBegin (getHostName c) ssid pw])"
    "led_ready eops (st_led s')"
proof -
  obtain s' where "net_setState eops CONNECTING s = Inr s'" "led_ready eops (st_led s')"
    by (rule net_setState_ready [OF assms])
  then show thesis by (intro that) (simp_all add: net_connect_def)
qed

lemma setWifiEnabled_ready:
  assumes "led_ready eops (st_led s)"
  obtains s' acts where "setWifiEnabled eops nops c enabled n s = Inr (n\<lparr>net_wifiEnabled := enabled\<rparr>, s', acts)"
    "led_ready eops (st_led s')"
proof (cases enabled)
  case True
  obtain s' where "net_connect eops c (getWifiSsid nops c) (getWifiPassword nops c) s =
      Inr (s', [NetBegin (getHostName c) (getWifiSsid nops c) (getWifiPassword nops c)])" "led_ready eops (st_led s')"
    by (rule net_connect_ready [OF assms])
  with True show thesis by (intro that) (simp_all add: setWifiEnabled_def)
next
  case False
  with assms show thesis by (intro that) (simp_all add: setWifiEnabled_def)
qed

lemma wifi_reconnect_ready:
  assumes "led_ready eops (st_led s)"
  obtains s' where "wifi_reconnect eops nops c t n s =
       Inr (n\<lparr>net_wifiPrevState := False, net_wifiCheckTimedUl := t + 30000\<rparr>, s',
            [NetDisconnect, NetDelay 2000, NetBegin (getHostName c) (getWifiSsid nops c) (getWifiPassword nops c)])"
    "led_ready eops (st_led s')"
proof -
  obtain s1 where s1: "net_setState eops CONNECTING s = Inr s1" "led_ready eops (st_led s1)"
    by (rule net_setState_ready [OF assms])
  obtain s2 where "net_connect eops c (getWifiSsid nops c) (getWifiPassword nops c) s1 =
      Inr (s2, [NetBegin (getHostName c) (getWifiSsid nops c) (getWifiPassword nops c)])" "led_ready eops (st_led s2)"
    by (rule net_connect_ready [OF s1(2)])
  with s1 that show thesis by (simp add: wifi_reconnect_def)
qed

lemma wifi_check_ready:
  assumes "led_ready eops (st_led s)"
  obtains s' where "wifi_check_connected eops connected n s =
      Inr (if connected \<and> \<not> net_wifiPrevState n then n\<lparr>net_wifiReconnectCount := 0, net_wifiPrevState := True\<rparr> else n, s')"
    "led_ready eops (st_led s')"
proof (cases "connected \<and> \<not> net_wifiPrevState n")
  case True
  obtain s' where "net_setState eops CONN_SUCCESS s = Inr s'" "led_ready eops (st_led s')"
    by (rule net_setState_ready [OF assms])
  with True show thesis by (intro that) (simp_all add: wifi_check_connected_def)
next
  case False
  with assms show thesis by (intro that) (auto simp: wifi_check_connected_def)
qed

lemma eth_led_timeout_fields [frame_simps]:
  "net_wifiEnabled (fst (eth_led_timeout t n s)) = net_wifiEnabled n"
  "net_wifiPrevState (fst (eth_led_timeout t n s)) = net_wifiPrevState n"
  "net_wifiReconnectCount (fst (eth_led_timeout t n s)) = net_wifiReconnectCount n"
  "net_wifiCheckTimedUl (fst (eth_led_timeout t n s)) = net_wifiCheckTimedUl n"
  "net_ethConnected (fst (eth_led_timeout t n s)) = net_ethConnected n"
  by (simp_all add: eth_led_timeout_def)

text \<open>The rounds in which the loop starts to connect, or gives up.\<close>

definition is_attempt :: "net_action list \<Rightarrow> bool" where
  "is_attempt acts \<longleftrightarrow> list_ex (\<lambda>a. case a of NetBegin _ _ _ \<Rightarrow> True | NetReboot \<Rightarrow> True | _ \<Rightarrow> False) acts"

definition rebooted :: "net_action list \<Rightarrow> bool" where
  "rebooted acts \<longleftrightarrow> list_ex (\<lambda>a. a = NetReboot) acts"

lemma attempt_simps [simp]:
  "is_attempt (as @ bs) \<longleftrightarrow> is_attempt as \<or> is_attempt bs" "rebooted (as @ bs) \<longleftrightarrow> rebooted as \<or> rebooted bs"
  "\<not> is_attempt []" "\<not> rebooted []" "is_attempt [NetReboot]" "rebooted [NetReboot]"
  "is_attempt (NetBegin h i p # as)" "rebooted (NetBegin h i p # as) \<longleftrightarrow> rebooted as"
  "is_attempt (NetDisconnect # as) \<longleftrightarrow> is_attempt as" "rebooted (NetDisconnect # as) \<longleftrightarrow> rebooted as"
  "is_attempt (NetDelay k # as) \<longleftrightarrow> is_attempt as" "rebooted (NetDelay k # as) \<longleftrightarrow> rebooted as"
  by (simp_all add: is_attempt_def rebooted_def)

lemma eth_led_no_attempt [simp]:
  "\<not> is_attempt (snd (eth_led_timeout t n s))" "\<not> rebooted (snd (eth_led_timeout t n s))"
  by (simp_all add: eth_led_timeout_def is_attempt_def rebooted_def)

definition wifi_inv :: "net \<Rightarrow> bool" where
  "wifi_inv n \<longleftrightarrow> 0 \<le> net_wifiReconnectCount n \<and> net_wifiReconnectCount n < 5 \<and>
     (0 < net_wifiReconnectCount n \<longrightarrow> \<not> net_wifiPrevState n)"

lemma wifi_due_eth_led [simp]: "wifi_due i (fst (eth_led_timeout t n s)) = wifi_due i n"
  by (simp add: wifi_due_def frame_simps)

lemma handleLoop_disabled:
  "\<not> net_wifiEnabled n \<Longrightarrow> handleLoop eops nops c i n s =
     Inr (fst (eth_led_timeout (li_ledTime i) n s), s, snd (eth_led_timeout (li_ledTime i) n s))"
  by (simp add: handleLoop_def case_prod_unfold Let_def frame_simps)

lemma handleLoop_gives_up:
  assumes "net_wifiEnabled n" "wifi_due i n" "net_wifiReconnectCount n = 4"
  obtains n' acts where "handleLoop eops nops c i n s = Inr (n', s, acts)" "rebooted acts" "is_attempt acts"
    "net_wifiReconnectCount n' = 5" "net_wifiEnabled n'" "net_ethConnected n' = net_ethConnected n"
proof -
  let ?n = "(fst (eth_led_timeout (li_ledTime i) n s))\<lparr>net_wifiReconnectCount := 5\<rparr>"
  let ?acts = "snd (eth_led_timeout (li_ledTime i) n s) @ [NetReboot]"
  have "handleLoop eops nops c i n s = Inr (?n, s, ?acts)"
    using assms by (simp add: handleLoop_def case_prod_unfold Let_def frame_simps)
  then show thesis using assms by (intro that [of ?n ?acts]) (simp_all add: frame_simps)
qed

lemma handleLoop_goes_on:
  assumes ready: "led_ready eops (st_led s)" and en: "net_wifiEnabled n" and inv: "wifi_inv n"
    and go: "\<not> (wifi_due i n \<and> net_wifiReconnectCount n = 4)"
  obtains n' s' acts where "handleLoop eops nops c i n s = Inr (n', s', acts)" "led_ready eops (st_led s')"
    "\<not> rebooted acts" "is_attempt acts \<longleftrightarrow> wifi_due i n" "net_wifiEnabled n'" "wifi_inv n'"
    "net_ethConnected n' = net_ethConnected n"
    "net_wifiReconnectCount n' =
       (if li_connected2 i then 0 else net_wifiReconnectCount n + (if wifi_due i n then 1 else 0))"
    "net_wifiCheckTimedUl n' = (if wifi_due i n then li_nextTime i + 30000 else net_wifiCheckTimedUl n)"
proof -
  let ?n1 = "fst (eth_led_timeout (li_ledTime i) n s)"
  let ?a1 = "snd (eth_led_timeout (li_ledTime i) n s)"
  let ?n2 = "if wifi_due i n then ?n1\<lparr>net_wifiReconnectCount := net_wifiReconnectCount ?n1 + 1\<rparr> else ?n1"
  let ?step = "if wifi_due i n then wifi_reconnect eops nops c (li_nextTime i) ?n2 s
     else Inr (?n2, s, [] :: net_action list)"
  obtain n3 s3 a3 where step: "?step = Inr (n3, s3, a3)" and s3: "led_ready eops (st_led s3)"
    and n3: "net_wifiEnabled n3" "net_ethConnected n3 = net_ethConnected n"
    "net_wifiReconnectCount n3 = net_wifiReconnectCount n + (if wifi_due i n then 1 else 0)"
    "net_wifiCheckTimedUl n3 = (if wifi_due i n then li_nextTime i + 30000 else net_wifiCheckTimedUl n)"
    "net_wifiPrevState n3 = (if wifi_due i n then False else net_wifiPrevState n)"
    and a3: "\<not> rebooted a3" "is_attempt a3 \<longleftrightarrow> wifi_due i n"
  proof (cases "wifi_due i n")
    case True
    obtain s3 where "wifi_reconnect eops nops c (li_nextTime i) ?n2 s =
        Inr (?n2\<lparr>net_wifiPrevState := False, net_wifiCheckTimedUl := li_nextTime i + 30000\<rparr>, s3,
          [NetDisconnect, NetDelay 2000, NetBegin (getHostName c) (getWifiSsid nops c) (getWifiPassword nops c)])"
      "led_ready eops (st_led s3)"
      by (rule wifi_reconnect_ready [OF ready])
    with True en show thesis
      by (intro that [of "?n2\<lparr>net_wifiPrevState := False, net_wifiCheckTimedUl := li_nextTime i + 30000\<rparr>" s3
            "[NetDisconnect, NetDelay 2000, NetBegin (getHostName c) (getWifiSsid nops c) (getWifiPassword nops c)]"])
         (simp_all add: frame_simps)
  next
    case False
    with ready en show thesis by (intro that [of ?n2 s "[]"]) (simp_all add: frame_simps)
  qed
  obtain s4 where chk: "wifi_check_connected eops (li_connected2 i) n3 s3 =
      Inr (if li_connected2 i \<and> \<not> net_wifiPrevState n3
           then n3\<lparr>net_wifiReconnectCount := 0, net_wifiPrevState := True\<rparr> else n3, s4)"
    and s4: "led_ready eops (st_led s4)"
    by (rule wifi_check_ready [OF s3])
  let ?n4 = "if li_connected2 i \<and> \<not> net_wifiPrevState n3
     then n3\<lparr>net_wifiReconnectCount := 0, net_wifiPrevState := True\<rparr> else n3"
  have "handleLoop eops nops c i n s =
      bind_res ?step (\<lambda>(n3, s3, acts2). bind_res (wifi_check_connected eops (li_connected2 i) n3 s3)
        (\<lambda>(n4, s4). Inr (n4, s4, ?a1 @ acts2)))"
    using en go by (simp add: handleLoop_def case_prod_unfold Let_def frame_simps)
  then have run: "handleLoop eops nops c i n s = Inr (?n4, s4, ?a1 @ a3)"
    by (simp add: step chk)
  have count: "net_wifiReconnectCount ?n4 =
      (if li_connected2 i then 0 else net_wifiReconnectCount n + (if wifi_due i n then 1 else 0))"
    using inv n3(3,5) by (auto simp: wifi_inv_def split: if_splits)
  have "wifi_inv ?n4"
    using inv go n3(3,5) by (auto simp: wifi_inv_def split: if_splits)
  with s4 a3 n3 show thesis
    by (intro that [OF run s4 _ _ _ _ _ count]) simp_all
qed

text \<open>Rounds of the loop with their actions, until the dock restarts.\<close>

fun net_run ::
  "'e eventgroup_ops \<Rightarrow> 'n nvs_ops \<Rightarrow> 'n config \<Rightarrow> loop_input list \<Rightarrow> net \<Rightarrow> 'e led state \<Rightarrow>
   fault + net \<times> 'e led state \<times> (loop_input \<times> net_action list) list" where
  "net_run eops nops c [] n s = Inr (n, s, [])"
| "net_run eops nops c (i # is) n s =
     bind_res (handleLoop eops nops c i n s) (\<lambda>(n1, s1, acts).
       if rebooted acts then Inr (n1, s1, [(i, acts)])
       else bind_res (net_run eops nops c is n1 s1) (\<lambda>(n2, s2, log). Inr (n2, s2, (i, acts) # log)))"

text \<open>The attempts since WiFi was connected at the end of a round; a restart ends its round early.\<close>

fun open_attempts :: "nat \<Rightarrow> (loop_input \<times> net_action list) list \<Rightarrow> nat" where
  "open_attempts k [] = k"
| "open_attempts k ((i, acts) # log) =
     open_attempts (if rebooted acts then k + 1 else if li_connected2 i then 0
                    else if is_attempt acts then k + 1 else k) log"

text \<open>An attempt is made exactly when WiFi is down and the deadline the last attempt set has passed.\<close>

fun attempts_when_due :: "u32 \<Rightarrow> (loop_input \<times> net_action list) list \<Rightarrow> bool" where
  "attempts_when_due d [] \<longleftrightarrow> True"
| "attempts_when_due d ((i, acts) # log) \<longleftrightarrow>
     (is_attempt acts \<longleftrightarrow> \<not> li_connected1 i \<and> li_checkTime i > d) \<and>
     attempts_when_due (if is_attempt acts then li_nextTime i + 30000 else d) log"

definition log_rebooted :: "(loop_input \<times> net_action list) list \<Rightarrow> bool" where
  "log_rebooted log \<longleftrightarrow> list_ex (\<lambda>(i, acts). rebooted acts) log"

lemma net_run_watchdog:
  assumes "led_ready eops (st_led s)" "net_wifiEnabled n" "wifi_inv n"
  shows "\<exists>n' s' log. net_run eops nops c ins n s = Inr (n', s', log) \<and>
     attempts_when_due (net_wifiCheckTimedUl n) log \<and>
     open_attempts (nat (net_wifiReconnectCount n)) log \<le> 5 \<and>
     (log_rebooted log \<longleftrightarrow> open_attempts (nat (net_wifiReconnectCount n)) log = 5)"
  using assms
proof (induction ins arbitrary: n s)
  case Nil
  then show ?case by (auto simp: log_rebooted_def wifi_inv_def)
next
  case (Cons i ins)
  show ?case
  proof (cases "wifi_due i n \<and> net_wifiReconnectCount n = 4")
    case True
    then obtain n' acts where run: "handleLoop eops nops c i n s = Inr (n', s, acts)"
      "rebooted acts" "is_attempt acts"
      using handleLoop_gives_up [OF Cons.prems(2), of i eops nops c s] by metis
    with True show ?thesis by (auto simp: log_rebooted_def wifi_due_def)
  next
    case False
    obtain n' s' acts where run: "handleLoop eops nops c i n s = Inr (n', s', acts)"
      and s': "led_ready eops (st_led s')" and acts: "\<not> rebooted acts" "is_attempt acts \<longleftrightarrow> wifi_due i n"
      and n': "net_wifiEnabled n'" "wifi_inv n'" "net_ethConnected n' = net_ethConnected n"
        "net_wifiReconnectCount n' =
          (if li_connected2 i then 0 else net_wifiReconnectCount n + (if wifi_due i n then 1 else 0))"
        "net_wifiCheckTimedUl n' = (if wifi_due i n then li_nextTime i + 30000 else net_wifiCheckTimedUl n)"
      by (rule handleLoop_goes_on [OF Cons.prems False])
    have cnt: "nat (net_wifiReconnectCount n') =
        (if li_connected2 i then 0 else if is_attempt acts then nat (net_wifiReconnectCount n) + 1
         else nat (net_wifiReconnectCount n))"
      using n'(4) acts(2) Cons.prems(3) by (auto simp: wifi_inv_def)
    from Cons.IH [OF s' n'(1,2)] obtain n2 s2 log where
      "net_run eops nops c ins n' s' = Inr (n2, s2, log)" "attempts_when_due (net_wifiCheckTimedUl n') log"
      "open_attempts (nat (net_wifiReconnectCount n')) log \<le> 5"
      "log_rebooted log \<longleftrightarrow> open_attempts (nat (net_wifiReconnectCount n')) log = 5" by blast
    with run acts n'(5) cnt show ?thesis
      by (intro exI [of _ n2] exI [of _ s2] exI [of _ "(i, acts) # log"])
         (auto simp: log_rebooted_def wifi_due_def)
  qed
qed


text \<open>A run handles every round unless the dock restarted.\<close>

lemma net_run_rounds:
  assumes "net_run eops nops c ins n s = Inr (n', s', log)"
  shows "\<exists>k. map fst log = take k ins \<and> (log_rebooted log \<or> k = length ins)"
  using assms
proof (induction ins arbitrary: n s log)
  case Nil
  then show ?case by simp
next
  case (Cons i ins)
  then obtain n1 s1 acts where h: "handleLoop eops nops c i n s = Inr (n1, s1, acts)"
    by (auto simp: bind_res_Inr_iff)
  show ?case
  proof (cases "rebooted acts")
    case True
    with Cons.prems h show ?thesis by (auto simp: log_rebooted_def intro!: exI [of _ "Suc 0"])
  next
    case False
    with Cons.prems h obtain l where l: "net_run eops nops c ins n1 s1 = Inr (n', s', l)" "log = (i, acts) # l"
      by (auto simp: bind_res_Inr_iff)
    with Cons.IH [of n1 s1 l] obtain k where "map fst l = take k ins" "log_rebooted l \<or> k = length ins" by auto
    with l(2) show ?thesis by (auto simp: log_rebooted_def intro!: exI [of _ "Suc k"])
  qed
qed

section \<open>Ethernet takes precedence\<close>

text \<open>The network as the events, the loop and the set-up of the dock drive it.\<close>

inductive net_reach ::
  "board \<Rightarrow> 'e eventgroup_ops \<Rightarrow> 'n nvs_ops \<Rightarrow> net \<Rightarrow> 'e led state \<Rightarrow> bool"
  for b eops nops where
  net_started: "led_ready eops (st_led s) \<Longrightarrow> net_reach b eops nops net_start s"
| net_event: "net_reach b eops nops n s \<Longrightarrow> WiFiEvent b eops nops c now ev n s = Inr (n', s', acts) \<Longrightarrow>
    net_reach b eops nops n' s'"
| net_loop: "net_reach b eops nops n s \<Longrightarrow> handleLoop eops nops c i n s = Inr (n', s', acts) \<Longrightarrow>
    \<not> rebooted acts \<Longrightarrow> net_reach b eops nops n' s'"
| net_setup: "net_reach b eops nops n s \<Longrightarrow> \<not> net_ethConnected n \<or> \<not> enabled \<Longrightarrow>
    setWifiEnabled eops nops c enabled n s = Inr (n', s', acts) \<Longrightarrow> net_reach b eops nops n' s'"

definition eth_inv :: "'e eventgroup_ops \<Rightarrow> net \<Rightarrow> 'e led state \<Rightarrow> bool" where
  "eth_inv eops n s \<longleftrightarrow> led_ready eops (st_led s) \<and> wifi_inv n \<and> (net_ethConnected n \<longrightarrow> \<not> net_wifiEnabled n)"

lemma setWifiEnabled_inv:
  assumes "setWifiEnabled eops nops c enabled n s = Inr (n', s', acts)" "led_ready eops (st_led s)" "wifi_inv n"
    and "net_ethConnected n \<longrightarrow> \<not> enabled"
  shows "eth_inv eops n' s'"
proof -
  obtain s1 acts1 where "setWifiEnabled eops nops c enabled n s = Inr (n\<lparr>net_wifiEnabled := enabled\<rparr>, s1, acts1)"
    "led_ready eops (st_led s1)"
    by (rule setWifiEnabled_ready [OF assms(2)])
  with assms(1,3,4) show ?thesis by (auto simp: eth_inv_def wifi_inv_def)
qed

lemma eth_event_inv:
  assumes inv: "eth_inv eops n s" and ev: "eth_event eops nops c now ev n s = Inr (n', s', acts)"
  shows "eth_inv eops n' s'"
proof -
  have ready: "led_ready eops (st_led s)" and wifi: "wifi_inv n" using inv by (auto simp: eth_inv_def)
  have any: "eth_inv eops n' s'"
    if "setWifiEnabled eops nops c enabled m s = Inr (n', s1, a)" "wifi_inv m"
       "net_ethConnected m \<longrightarrow> \<not> enabled" "led_ready eops (st_led s1) \<Longrightarrow> led_ready eops (st_led s')"
    for enabled m s1 a
    using setWifiEnabled_inv [OF that(1) ready that(2,3)] that(4) by (auto simp: eth_inv_def)
  have conn: "led_ready eops (st_led s')" if run: "net_setState eops x s1 = Inr s'" and r: "led_ready eops (st_led s1)" for x s1
  proof -
    obtain s2 where "net_setState eops x s1 = Inr s2" "led_ready eops (st_led s2)"
      by (rule net_setState_ready [OF r])
    with run show ?thesis by simp
  qed
  show ?thesis
  proof (cases ev)
    case ETH_GOT_IP
    then show ?thesis
      using ev wifi conn
      by (auto simp: eth_event_def Let_def bind_res_Inr_iff wifi_inv_def intro!: any)
  next
    case ETH_DISCONNECTED
    then show ?thesis
      using ev wifi by (auto simp: eth_event_def bind_res_Inr_iff wifi_inv_def intro!: any)
  next
    case ETH_STOP
    then show ?thesis
      using ev wifi by (auto simp: eth_event_def bind_res_Inr_iff wifi_inv_def intro!: any)
  qed (use ev inv in \<open>auto simp: eth_event_def eth_inv_def wifi_inv_def Let_def\<close>)
qed

lemma net_reach_inv:
  assumes "net_reach b eops nops n s"
  shows "eth_inv eops n s"
  using assms
proof (induction rule: net_reach.induct)
  case (net_started s)
  then show ?case by (simp add: eth_inv_def wifi_inv_def net_start_def)
next
  case (net_event n s c now ev n' s' acts)
  then show ?case by (auto simp: WiFiEvent_def split: if_splits intro: eth_event_inv)
next
  case (net_loop n s c i n' s' acts)
  then have inv: "led_ready eops (st_led s)" "wifi_inv n" "net_ethConnected n \<longrightarrow> \<not> net_wifiEnabled n"
    by (auto simp: eth_inv_def)
  show ?case
  proof (cases "net_wifiEnabled n")
    case True
    have go: "\<not> (wifi_due i n \<and> net_wifiReconnectCount n = 4)"
    proof
      assume "wifi_due i n \<and> net_wifiReconnectCount n = 4"
      with handleLoop_gives_up [OF True, of i eops nops c s] net_loop(2,3) show False by auto
    qed
    from handleLoop_goes_on [OF inv(1) True inv(2) go] obtain n2 s2 a2 where
      "handleLoop eops nops c i n s = Inr (n2, s2, a2)" "led_ready eops (st_led s2)" "wifi_inv n2"
      "net_ethConnected n2 = net_ethConnected n" by metis
    with net_loop(2) inv(3) True show ?thesis by (simp add: eth_inv_def)
  next
    case False
    with net_loop(2) inv show ?thesis
      by (auto simp: handleLoop_disabled eth_inv_def wifi_inv_def frame_simps)
  qed
next
  case (net_setup n s enabled c n' s' acts)
  then show ?case by (auto simp: eth_inv_def [of eops n] intro: setWifiEnabled_inv)
qed

text \<open>
  Whatever order the network events, the rounds of the loop and the set-up come in: while
  Ethernet has an address, WiFi is disabled, and a round of the loop neither touches WiFi nor
  restarts the dock nor changes its state.
\<close>

theorem ethernet_disables_wifi:
  assumes "net_reach b eops nops n s" and "net_ethConnected n"
  shows "\<not> net_wifiEnabled n \<and>
     (\<exists>n' acts. handleLoop eops nops c i n s = Inr (n', s, acts) \<and> \<not> is_attempt acts \<and> \<not> rebooted acts)"
proof -
  have "\<not> net_wifiEnabled n" using net_reach_inv [OF assms(1)] assms(2) by (simp add: eth_inv_def)
  then show ?thesis by (simp add: handleLoop_disabled)
qed

section \<open>Concrete runs\<close>

definition ex_round :: "u32 \<Rightarrow> loop_input" where
  "ex_round t = \<lparr>li_ledTime = t, li_connected1 = False, li_checkTime = t, li_nextTime = t, li_connected2 = False\<rparr>"


theorem ethernet_disables_wifi_witness:
  "\<exists>n s. net_ethConnected n \<and> \<not> net_wifiEnabled n \<and>
     (\<exists>n' acts. handleLoop word_eventgroup map_nvs ex_config (ex_round 20000) n s = Inr (n', s, acts) \<and>
        \<not> is_attempt acts \<and> \<not> rebooted acts)"
proof -
  let ?n = "net_start\<lparr>net_ethConnected := True, net_wifiEnabled := False\<rparr>"
  obtain s1 where s1: "net_setState word_eventgroup CONN_SUCCESS ex_state = Inr s1"
    by (rule net_setState_ready [OF ex_state_ready])
  have "WiFiEvent board_5_4 word_eventgroup map_nvs ex_config 500 ETH_GOT_IP net_start ex_state =
      Inr (?n, s1, [NetDisconnect])"
    by (simp add: WiFiEvent_def board_5_4_def eth_event_def setWifiEnabled_def s1 Let_def getter_defs
        cfg_lookup_def cfg_open_def map_nvs_def ex_config_def defaultLedBrightness_def)
  from net_event [OF net_started [OF ex_state_ready] this]
  have "net_reach board_5_4 word_eventgroup map_nvs ?n s1" .
  from ethernet_disables_wifi [OF this, of ex_config "ex_round 20000"] show ?thesis
    by (intro exI [of _ ?n] exI [of _ s1]) simp
qed

end
