(* ===== verification/ServiceApi.thy ===== *)
theory ServiceApi
  imports ServiceNetwork "HOL-Library.AList"
begin

text \<open>
  \<open>src/lib/service_api/service_api.cpp\<close>: the JSON API of the dock over WebSocket, the serial line
  and Bluetooth. A request is checked, its client's authentication with it, and its command is
  carried out on the settings, the state, the IR service and the logger; the components' own
  definitions do that here as the objects' methods do it in the code.

  ArduinoJson is not part of the repository: a received document is the record of the accessors the
  code calls, a response is the list of its members before the library writes it. The capacity
  of the library's documents is not modelled.
\<close>

section \<open>Documents\<close>

record json_doc =
  jd_has :: "string \<Rightarrow> bool"
  jd_string :: "string \<Rightarrow> string"
  jd_int :: "string \<Rightarrow> int"
  jd_uint16 :: "string \<Rightarrow> u16"
  jd_bool :: "string \<Rightarrow> bool"

datatype json_val = JStr string | JInt int | JBool bool

type_synonym api_doc = "(string \<times> json_val) list"

definition doc_set :: "string \<Rightarrow> json_val \<Rightarrow> api_doc \<Rightarrow> api_doc" where
  "doc_set k v doc = AList.update k v doc"

abbreviation msgType :: string where "msgType \<equiv> ''type''"
abbreviation msgTypeDock :: string where "msgTypeDock \<equiv> ''dock''"
abbreviation msgId :: string where "msgId \<equiv> ''id''"
abbreviation msgReqId :: string where "msgReqId \<equiv> ''req_id''"
abbreviation msgCommand :: string where "msgCommand \<equiv> ''command''"
abbreviation msgMsg :: string where "msgMsg \<equiv> ''msg''"
abbreviation msgCode :: string where "msgCode \<equiv> ''code''"
abbreviation msgError :: string where "msgError \<equiv> ''error''"
abbreviation msgToken :: string where "msgToken \<equiv> ''token''"
abbreviation msgWifiPwd :: string where "msgWifiPwd \<equiv> ''wifi_password''"

section \<open>State\<close>

datatype Source = WebSocket | Uart | Bluetooth

text \<open>The objects the API works on, and its own two fields; the saved state has no initial value.\<close>

record ('n, 'q, 'a, 'e) dock =
  dk_config :: "'n config"
  dk_state :: "'e led state"
  dk_net :: net
  dk_ir :: "('q, 'a, 'e) ir"
  dk_log :: UCLog
  dk_authWsClients :: "u8 set"
  dk_prevState :: "States option"

record ('n, 'q, 'a, 'e) env =
  env_board :: board
  env_hasEthLed :: bool \<comment> \<open>\<open>ETH_STATUS_LED\<close> is defined\<close>
  env_hwRevision :: string \<comment> \<open>the build flag \<open>HW_REVISION\<close>\<close>
  env_nvs :: "'n nvs_ops"
  env_events :: "'e eventgroup_ops"
  env_queue :: "('q, IRSendMessage) queue_ops"
  env_responses :: "('a, IrResponse) queue_ops"
  env_parse :: "string \<Rightarrow> json_doc option"

datatype api_action =
    ApiReply api_doc
  | ApiSend int api_doc
  | ApiForward IrResponse \<comment> \<open>to the client the response names\<close>
  | ApiBroadcast IrResponse
  | ApiDisconnect int
  | ApiDelay nat
  | ApiReboot
  | ApiMdnsName string
  | ApiLed "led_action list"
  | ApiIr ir_action
  | ApiPins bool

text \<open>How a command ends: with a response that is still to be sent, or with everything done.\<close>

datatype outcome = Respond api_doc | Finished

type_synonym ('n, 'q, 'a, 'e) api_result =
  "fault + outcome \<times> ('n, 'q, 'a, 'e) dock \<times> api_action list"

definition dock_setState ::
  "('n, 'q, 'a, 'e) env \<Rightarrow> u32 \<Rightarrow> States \<Rightarrow> ('n, 'q, 'a, 'e) dock \<Rightarrow> fault + ('n, 'q, 'a, 'e) dock" where
  "dock_setState env now x d =
     bind_res (setState (led_setState (env_events env)) now x (dk_state d))
       (\<lambda>(_, s). Inr (d\<lparr>dk_state := s\<rparr>))"

text \<open>The calls of the IR service: a state it sets is set at once.\<close>

fun run_ir_actions ::
  "('n, 'q, 'a, 'e) env \<Rightarrow> u32 \<Rightarrow> ir_action list \<Rightarrow> ('n, 'q, 'a, 'e) dock \<Rightarrow>
   fault + ('n, 'q, 'a, 'e) dock \<times> api_action list" where
  "run_ir_actions env now [] d = Inr (d, [])"
| "run_ir_actions env now (a # as) d =
     bind_res (case a of IrSetState x \<Rightarrow> dock_setState env now x d | _ \<Rightarrow> Inr d) (\<lambda>d1.
     bind_res (run_ir_actions env now as d1) (\<lambda>(d2, acts).
       Inr (d2, (case a of IrSetState _ \<Rightarrow> acts | _ \<Rightarrow> ApiIr a # acts))))"

definition disconnect_ws :: "Source \<Rightarrow> int \<Rightarrow> api_action list" where
  "disconnect_ws source cid = (if source = WebSocket then [ApiDisconnect cid] else [])"

section \<open>Authentication\<close>

definition api_authenticate ::
  "('n, 'q, 'a, 'e) env \<Rightarrow> Source \<Rightarrow> int \<Rightarrow> json_doc \<Rightarrow> ('n, 'q, 'a, 'e) dock \<Rightarrow>
   bool \<times> ('n, 'q, 'a, 'e) dock \<times> api_action list" where
  "api_authenticate env source cid req d =
     (let doc = doc_set msgType (JStr ''authentication'') [];
          doc1 = (if jd_has req msgId then doc_set msgReqId (JInt (jd_int req msgId)) doc else doc)
      in if jd_string req msgToken = getToken (env_nvs env) (dk_config d) then
           (True,
            if source = WebSocket
            then d\<lparr>dk_authWsClients := insert (word_of_int cid) (dk_authWsClients d)\<rparr> else d,
            [ApiReply (doc_set msgCode (JInt 200) doc1)])
         else
           (False, d,
            [ApiReply (doc_set msgError (JStr ''Invalid token'') (doc_set msgCode (JInt 401) doc1)), ApiDelay 100] @
            disconnect_ws source cid))"

section \<open>Commands\<close>

text \<open>The members every response starts with.\<close>

definition response_start :: "string \<Rightarrow> string \<Rightarrow> json_doc \<Rightarrow> api_doc" where
  "response_start kind command req =
     (let doc1 = (if kind \<noteq> [] then doc_set msgType (JStr kind) [] else []);
          doc2 = (if command \<noteq> [] then doc_set msgMsg (JStr command) doc1 else doc1);
          doc3 = (if jd_has req msgId then doc_set msgReqId (JInt (jd_int req msgId)) doc2 else doc2)
      in doc_set msgCode (JInt 200) doc3)"

definition sysinfo_members ::
  "('n, 'q, 'a, 'e) env \<Rightarrow> ('n, 'q, 'a, 'e) dock \<Rightarrow> (string \<times> json_val) list" where
  "sysinfo_members env d =
     (let c = dk_config d; ops = env_nvs env in
      [(''name'', JStr (getFriendlyName ops c)), (''hostname'', JStr (getHostName c)),
       (''model'', JStr (getModel c)), (''revision'', JStr (getRevision c)),
       (''version'', JStr (getSoftwareVersion c)), (''serial'', JStr (getSerial c)),
       (''led_brightness'', JInt (getLedBrightness ops c))] @
      (if env_hasEthLed env then [(''eth_led_brightness'', JInt (getEthLedBrightness ops c))] else []) @
      [(''ir_learning'', JBool (isIrLearning (env_events env) (dk_ir d))),
       (''ethernet'', JBool (net_ethConnected (dk_net d))),
       (''wifi'', JBool (net_wifiEnabled (dk_net d))), (''ssid'', JStr (getWifiSsid ops c)),
       (''uptime'', JStr (getUptime (dk_state d))), (''sntp'', JBool (isNtpEnabled ops c))])"

definition get_sysinfo ::
  "('n, 'q, 'a, 'e) env \<Rightarrow> api_doc \<Rightarrow> ('n, 'q, 'a, 'e) dock \<Rightarrow> api_doc" where
  "get_sysinfo env doc d = fold (\<lambda>(k, v). doc_set k v) (sysinfo_members env d) doc"

text \<open>The steps of \<open>set_config\<close>: the results \<open>field\<close> and \<open>ok\<close> are those of the code.\<close>

definition config_name_step ::
  "('n, 'q, 'a, 'e) env \<Rightarrow> json_doc \<Rightarrow> ('n, 'q, 'a, 'e) dock \<Rightarrow>
   bool \<times> ('n, 'q, 'a, 'e) dock \<times> api_action list" where
  "config_name_step env req d =
     (if jd_has req ''friendly_name'' then
        (let c = setFriendlyName (env_nvs env) (jd_string req ''friendly_name'') (dk_config d)
         in (True, d\<lparr>dk_config := c\<rparr>, [ApiMdnsName (getFriendlyName (env_nvs env) c)]))
      else (False, d, []))"

definition config_token_step ::
  "('n, 'q, 'a, 'e) env \<Rightarrow> json_doc \<Rightarrow> api_doc \<Rightarrow> bool \<Rightarrow> ('n, 'q, 'a, 'e) dock \<Rightarrow>
   bool \<times> api_doc \<times> ('n, 'q, 'a, 'e) dock" where
  "config_token_step env req doc ok d =
     (if jd_has req msgToken then
        (let token = jd_string req msgToken in
         if token = [] \<or> length token > 40
         then (ok, doc_set msgError (JStr ''Token length must be 4..40'') doc, d)
         else (case setToken (env_nvs env) token (dk_config d) of
                 (ok', c) \<Rightarrow> (ok', doc, d\<lparr>dk_config := c\<rparr>)))
      else (ok, doc, d))"

definition code_unless :: "bool \<Rightarrow> int \<Rightarrow> api_doc \<Rightarrow> api_doc" where
  "code_unless ok code doc = (if ok then doc else doc_set msgCode (JInt code) doc)"

definition set_config ::
  "('n, 'q, 'a, 'e) env \<Rightarrow> Source \<Rightarrow> int \<Rightarrow> json_doc \<Rightarrow> api_doc \<Rightarrow> ('n, 'q, 'a, 'e) dock \<Rightarrow>
   ('n, 'q, 'a, 'e) api_result" where
  "set_config env source cid req doc d =
     (case config_name_step env req d of (ok1, d1, acts) \<Rightarrow>
      case config_token_step env req doc ok1 d1 of (ok, doc2, d2) \<Rightarrow>
        let field = (jd_has req ''friendly_name'' \<or> jd_has req msgToken) in
        if \<not> (field \<and> \<not> ok) \<and> (jd_has req ''ssid'' \<or> jd_has req msgWifiPwd) then
          (case setWifi (env_nvs env) (jd_string req ''ssid'') (jd_string req msgWifiPwd) (dk_config d2) of
             (True, c) \<Rightarrow>
               Inr (Finished, d2\<lparr>dk_config := c\<rparr>,
                    acts @ [ApiReply (doc_set ''reboot'' (JBool True) doc2), ApiDelay 200] @
                    disconnect_ws source cid @ [ApiReboot])
           | (False, c) \<Rightarrow>
               Inr (Respond (code_unless ok 400 (doc_set msgError (JStr ''Invalid SSID or password'') doc2)),
                    d2\<lparr>dk_config := c\<rparr>, acts))
        else Inr (Respond (code_unless ok 400 doc2), d2, acts))"

definition map_led :: "('e led \<Rightarrow> 'e led) \<Rightarrow> ('n, 'q, 'a, 'e) dock \<Rightarrow> ('n, 'q, 'a, 'e) dock" where
  "map_led f d = d\<lparr>dk_state := (dk_state d)\<lparr>st_led := f (st_led (dk_state d))\<rparr>\<rparr>"

definition brightness_led_step ::
  "('n, 'q, 'a, 'e) env \<Rightarrow> u32 \<Rightarrow> json_doc \<Rightarrow> ('n, 'q, 'a, 'e) dock \<Rightarrow> fault + ('n, 'q, 'a, 'e) dock" where
  "brightness_led_step env now req d =
     (if jd_has req ''status_led'' then
        (let brightness = jd_int req ''status_led'' in
         bind_res (dock_setState env now LED_SETUP d) (\<lambda>d1.
           let d2 = map_led (setLedMaxBrightness brightness) d1
           in Inr (d2\<lparr>dk_config := setLedBrightness (env_nvs env) brightness (dk_config d2)\<rparr>)))
      else Inr d)"

definition brightness_eth_step ::
  "('n, 'q, 'a, 'e) env \<Rightarrow> json_doc \<Rightarrow> ('n, 'q, 'a, 'e) dock \<Rightarrow> ('n, 'q, 'a, 'e) dock \<times> api_action list" where
  "brightness_eth_step env req d =
     (if jd_has req ''eth_led'' then
        (let brightness = jd_int req ''eth_led'' in
         (d\<lparr>dk_config := setEthLedBrightness (env_nvs env) brightness (dk_config d)\<rparr>,
          if net_ethLinkUp (dk_net d)
          then [ApiLed (led_setEthLedBrightness brightness (st_led (dk_state d)))] else []))
      else (d, []))"

definition set_brightness ::
  "('n, 'q, 'a, 'e) env \<Rightarrow> u32 \<Rightarrow> json_doc \<Rightarrow> api_doc \<Rightarrow> ('n, 'q, 'a, 'e) dock \<Rightarrow>
   ('n, 'q, 'a, 'e) api_result" where
  "set_brightness env now req doc d =
     bind_res (brightness_led_step env now req d) (\<lambda>d1.
       case brightness_eth_step env req d1 of
         (d2, acts) \<Rightarrow>
           Inr (Respond (code_unless (jd_has req ''status_led'' \<or> jd_has req ''eth_led'') 400 doc), d2, acts))"

definition test_mode ::
  "('n, 'q, 'a, 'e) env \<Rightarrow> api_doc \<Rightarrow> ('n, 'q, 'a, 'e) dock \<Rightarrow> ('n, 'q, 'a, 'e) api_result" where
  "test_mode env doc d =
     (case setTestMode (env_nvs env) True (dk_config d) of
        (ok, c) \<Rightarrow> Inr (Respond (code_unless ok 400 doc), d\<lparr>dk_config := c\<rparr>, []))"

definition test_color :: "string \<Rightarrow> States option" where
  "test_color color =
     (if color = ''red'' then Some TEST_LED_RED
      else if color = ''green'' then Some TEST_LED_GREEN
      else if color = ''blue'' then Some TEST_LED_BLUE
      else None)"

definition rgb_test ::
  "('n, 'q, 'a, 'e) env \<Rightarrow> u32 \<Rightarrow> json_doc \<Rightarrow> api_doc \<Rightarrow> ('n, 'q, 'a, 'e) dock \<Rightarrow>
   ('n, 'q, 'a, 'e) api_result" where
  "rgb_test env now req doc d =
     (let x = getState (dk_state d);
          d1 = (if x \<noteq> TEST_LED_RED \<and> x \<noteq> TEST_LED_GREEN \<and> x \<noteq> TEST_LED_BLUE
                then d\<lparr>dk_prevState := Some x\<rparr> else d)
      in case test_color (jd_string req ''color'') of
           None \<Rightarrow> Inr (Respond doc, d1, [])
         | Some y \<Rightarrow> bind_res (dock_setState env now y d1) (\<lambda>d2. Inr (Respond doc, d2, [])))"

definition rgb_test_stop ::
  "('n, 'q, 'a, 'e) env \<Rightarrow> u32 \<Rightarrow> api_doc \<Rightarrow> ('n, 'q, 'a, 'e) dock \<Rightarrow> ('n, 'q, 'a, 'e) api_result" where
  "rgb_test_stop env now doc d =
     (case dk_prevState d of
        None \<Rightarrow> Inl Uninitialised
      | Some x \<Rightarrow> bind_res (dock_setState env now x d) (\<lambda>d1. Inr (Respond doc, d1, [])))"

definition api_ir_send ::
  "('n, 'q, 'a, 'e) env \<Rightarrow> int \<Rightarrow> json_doc \<Rightarrow> api_doc \<Rightarrow> ('n, 'q, 'a, 'e) dock \<Rightarrow>
   ('n, 'q, 'a, 'e) api_result" where
  "api_ir_send env cid req doc d =
     (let code = jd_string req ''code''; format = jd_string req ''format'' in
      if code \<noteq> [] \<and> format \<noteq> [] then
        let intSide = jd_bool req ''int_side''; intTop = jd_bool req ''int_top'';
            ext1 = jd_bool req ''ext1''; ext2 = jd_bool req ''ext2'';
            dflt = \<not> (intSide \<or> intTop \<or> ext1 \<or> ext2)
        in (case ir_send (env_board env) (env_queue env) (env_events env) cid
                   (word_of_int (jd_int req msgId)) code format (jd_uint16 req ''repeat'')
                   (intSide \<or> dflt) intTop (ext1 \<or> dflt) (ext2 \<or> dflt) 0 (dk_ir d) of
              (response, ir') \<Rightarrow>
                (if response = 0 then Inr (Finished, d\<lparr>dk_ir := ir'\<rparr>, [])
                 else Inr (Respond (doc_set msgCode (JInt (int response)) doc), d\<lparr>dk_ir := ir'\<rparr>, [])))
      else Inr (Respond (doc_set msgCode (JInt 400) doc), d, []))"

text \<open>Start and stop of learning.\<close>

definition api_ir_learn ::
  "('n, 'q, 'a, 'e) env \<Rightarrow> u32 \<Rightarrow> bool \<Rightarrow> api_doc \<Rightarrow> ('n, 'q, 'a, 'e) dock \<Rightarrow> ('n, 'q, 'a, 'e) api_result" where
  "api_ir_learn env now on doc d =
     (case (if on then startIrLearn else stopIrLearn) (env_events env) (dk_ir d) of
        (ir', acts) \<Rightarrow>
          bind_res (run_ir_actions env now acts (d\<lparr>dk_ir := ir'\<rparr>)) (\<lambda>(d1, acts').
            Inr (Respond doc, d1, acts')))"

definition api_state ::
  "('n, 'q, 'a, 'e) env \<Rightarrow> u32 \<Rightarrow> States \<Rightarrow> api_doc \<Rightarrow> ('n, 'q, 'a, 'e) dock \<Rightarrow> ('n, 'q, 'a, 'e) api_result" where
  "api_state env now x doc d = bind_res (dock_setState env now x d) (\<lambda>d1. Inr (Respond doc, d1, []))"

definition logging_level_step ::
  "('n, 'q, 'a, 'e) env \<Rightarrow> json_doc \<Rightarrow> ('n, 'q, 'a, 'e) dock \<Rightarrow> bool \<times> ('n, 'q, 'a, 'e) dock" where
  "logging_level_step env req d =
     (if jd_has req ''log_level'' \<and> unat (jd_uint16 req ''log_level'') \<le> 7 then
        (let level = level_of_num (unat (jd_uint16 req ''log_level'')) in
         case setLogLevel (env_nvs env) level (dk_config d) of
           (ok, c) \<Rightarrow> (ok, d\<lparr>dk_config := c, dk_log := setFilterLevel level (dk_log d)\<rparr>))
      else (False, d))"

definition logging_server_step ::
  "('n, 'q, 'a, 'e) env \<Rightarrow> json_doc \<Rightarrow> bool \<Rightarrow> ('n, 'q, 'a, 'e) dock \<Rightarrow> bool \<times> ('n, 'q, 'a, 'e) dock" where
  "logging_server_step env req ok d =
     (if jd_has req ''syslog_server'' then
        (case setSyslogServer (env_nvs env) (jd_string req ''syslog_server'') (jd_uint16 req ''syslog_port'')
                (dk_config d) of
           (ok', c) \<Rightarrow> (ok', d\<lparr>dk_config := c\<rparr>))
      else (ok, d))"

definition logging_enable_step ::
  "('n, 'q, 'a, 'e) env \<Rightarrow> json_doc \<Rightarrow> ('n, 'q, 'a, 'e) dock \<Rightarrow> ('n, 'q, 'a, 'e) dock" where
  "logging_enable_step env req d =
     (if jd_has req ''syslog_enabled'' then
        (let syslog = jd_bool req ''syslog_enabled'';
             c = snd (enableSyslog (env_nvs env) syslog (dk_config d));
             log' = (if syslog
                     then log_enableSyslog_server (getHostName c) (getSyslogServer (env_nvs env) c)
                            (getSyslogServerPort (env_nvs env) c) (dk_log d)
                     else log_enableSyslog False (dk_log d))
         in d\<lparr>dk_config := c, dk_log := log'\<rparr>)
      else d)"

definition set_logging ::
  "('n, 'q, 'a, 'e) env \<Rightarrow> json_doc \<Rightarrow> api_doc \<Rightarrow> ('n, 'q, 'a, 'e) dock \<Rightarrow> ('n, 'q, 'a, 'e) api_result" where
  "set_logging env req doc d =
     (case logging_level_step env req d of (ok1, d1) \<Rightarrow>
      case logging_server_step env req ok1 d1 of (ok2, d2) \<Rightarrow>
        Inr (Respond (doc_set msgCode (JInt (if ok2 then 200 else 400)) doc), logging_enable_step env req d2, []))"

text \<open>A setter that is called only when its member is there; \<open>ok\<close> collects the failures.\<close>

definition try_setting ::
  "bool \<Rightarrow> ('n config \<Rightarrow> bool \<times> 'n config) \<Rightarrow> bool \<times> ('n, 'q, 'a, 'e) dock \<Rightarrow> bool \<times> ('n, 'q, 'a, 'e) dock" where
  "try_setting present f r =
     (if present then (case f (dk_config (snd r)) of (ok, c) \<Rightarrow> (fst r \<and> ok, (snd r)\<lparr>dk_config := c\<rparr>)) else r)"

definition set_sntp ::
  "('n, 'q, 'a, 'e) env \<Rightarrow> json_doc \<Rightarrow> api_doc \<Rightarrow> ('n, 'q, 'a, 'e) dock \<Rightarrow> ('n, 'q, 'a, 'e) api_result" where
  "set_sntp env req doc d =
     (let r1 = try_setting (jd_has req ''sntp_server1'' \<or> jd_has req ''sntp_server2'')
                 (setNtpServer (env_nvs env) (jd_string req ''sntp_server1'') (jd_string req ''sntp_server2''))
                 (True, d);
          (ok, d2) = try_setting (jd_has req ''sntp_enabled'')
                 (enableNtp (env_nvs env) (jd_bool req ''sntp_enabled'')) r1
      in Inr (Respond (doc_set msgCode (JInt (if ok then 200 else 400)) doc), d2, []))"

definition reboot_response ::
  "Source \<Rightarrow> int \<Rightarrow> api_doc \<Rightarrow> api_action list" where
  "reboot_response source cid doc =
     [ApiReply (doc_set ''reboot'' (JBool True) doc), ApiDelay 200] @ disconnect_ws source cid"

definition api_reset ::
  "('n, 'q, 'a, 'e) env \<Rightarrow> Source \<Rightarrow> int \<Rightarrow> api_doc \<Rightarrow> ('n, 'q, 'a, 'e) dock \<Rightarrow> ('n, 'q, 'a, 'e) api_result" where
  "api_reset env source cid doc d =
     Inr (Finished, d\<lparr>dk_config := Config_reset (env_nvs env) (dk_config d)\<rparr>,
          reboot_response source cid doc @ [ApiReboot])"

definition set_ir_config ::
  "('n, 'q, 'a, 'e) env \<Rightarrow> json_doc \<Rightarrow> api_doc \<Rightarrow> ('n, 'q, 'a, 'e) dock \<Rightarrow> ('n, 'q, 'a, 'e) api_result" where
  "set_ir_config env req doc d =
     (let ops = env_nvs env; maxPrio = cfg_maxPriorities (dk_config d);
          r1 = try_setting (jd_has req ''irlearn_core'') (setIrLearnCore ops (jd_uint16 req ''irlearn_core'')) (True, d);
          r2 = try_setting (jd_has req ''irlearn_prio'') (setIrLearnPriority ops (jd_uint16 req ''irlearn_prio'')) r1;
          learn = (if jd_has req ''irlearn_prio''
                   then map ApiIr (ir_setIrLearnPriority maxPrio (jd_uint16 req ''irlearn_prio'') (dk_ir d)) else []);
          r3 = try_setting (jd_has req ''irsend_core'') (setIrSendCore ops (jd_uint16 req ''irsend_core'')) r2;
          (ok, d4) = try_setting (jd_has req ''irsend_prio'') (setIrSendPriority ops (jd_uint16 req ''irsend_prio'')) r3;
          send = (if jd_has req ''irsend_prio''
                  then map ApiIr (ir_setIrSendPriority maxPrio (jd_uint16 req ''irsend_prio'') (dk_ir d)) else [])
      in Inr (Respond (doc_set msgCode (JInt (if ok then 200 else 500)) doc), d4, learn @ send))"

definition get_ir_config ::
  "('n, 'q, 'a, 'e) env \<Rightarrow> api_doc \<Rightarrow> ('n, 'q, 'a, 'e) dock \<Rightarrow> ('n, 'q, 'a, 'e) api_result" where
  "get_ir_config env doc d =
     (let c = dk_config d; ops = env_nvs env; num = (\<lambda>w :: u16. JInt (uint w)) in
      Inr (Respond (doc_set ''irsend_prio'' (num (getIrSendPriority ops c))
             (doc_set ''irsend_core'' (num (getIrSendCore ops c))
             (doc_set ''irlearn_prio'' (num (getIrLearnPriority ops c))
             (doc_set ''irlearn_core'' (num (getIrLearnCore ops c)) doc)))), d, []))"

text \<open>The commands of an authenticated client.\<close>

definition run_command ::
  "('n, 'q, 'a, 'e) env \<Rightarrow> u32 \<Rightarrow> Source \<Rightarrow> int \<Rightarrow> string \<Rightarrow> string \<Rightarrow> json_doc \<Rightarrow> api_doc \<Rightarrow>
   ('n, 'q, 'a, 'e) dock \<Rightarrow> ('n, 'q, 'a, 'e) api_result" where
  "run_command env now source cid kind command req doc d =
     (if kind \<noteq> msgTypeDock then Inr (Respond (doc_set msgCode (JInt 400) doc), d, [])
      else if command = [] \<and> jd_string req msgMsg = ''ping''
      then Inr (Respond (doc_set msgMsg (JStr ''pong'') (AList.delete msgCode doc)), d, [])
      else if command = ''set_config'' then set_config env source cid req doc d
      else if command = ''set_brightness'' then set_brightness env now req doc d
      else if command = ''test_mode'' then test_mode env doc d
      else if command = ''rgb_test'' then rgb_test env now req doc d
      else if command = ''rgb_test_stop'' then rgb_test_stop env now doc d
      else if command = ''ir_test''
      then Inr (Respond doc, d, [ApiPins True, ApiDelay 2500, ApiPins False])
      else if command = ''ir_send'' then api_ir_send env cid req doc d
      else if command = ''ir_stop''
      then Inr (Respond (doc_set msgCode (JInt 200) doc), d\<lparr>dk_ir := stopSend (env_events env) (dk_ir d)\<rparr>, [])
      else if command = ''ir_receive_on'' then api_ir_learn env now True doc d
      else if command = ''ir_receive_off'' then api_ir_learn env now False doc d
      else if command = ''remote_charged'' then api_state env now NORMAL_FULLYCHARGED doc d
      else if command = ''remote_lowbattery'' then api_state env now NORMAL_LOWBATTERY doc d
      else if command = ''remote_normal'' then api_state env now NORMAL doc d
      else if command = ''identify'' then api_state env now IDENTIFY doc d
      else if command = ''set_logging'' then set_logging env req doc d
      else if command = ''set_sntp'' then set_sntp env req doc d
      else if command = ''reboot'' then Inr (Finished, d, reboot_response source cid doc @ [ApiReboot])
      else if command = ''reset'' then api_reset env source cid doc d
      else if command = ''set_ir_config'' then set_ir_config env req doc d
      else if command = ''get_ir_config'' then get_ir_config env doc d
      else Inr (Respond (doc_set msgError
                  (JStr (if command = [] then ''Missing command field'' else ''Unsupported command''))
                  (doc_set msgCode (JInt 400) doc)), d, []))"

section \<open>Requests\<close>

definition member_string :: "json_doc \<Rightarrow> string \<Rightarrow> string" where
  "member_string req k = (if jd_has req k then jd_string req k else [])"

text \<open>A request that was parsed.\<close>

definition process_document ::
  "('n, 'q, 'a, 'e) env \<Rightarrow> u32 \<Rightarrow> Source \<Rightarrow> bool \<Rightarrow> int \<Rightarrow> json_doc \<Rightarrow> ('n, 'q, 'a, 'e) dock \<Rightarrow>
   fault + bool \<times> ('n, 'q, 'a, 'e) dock \<times> api_action list" where
  "process_document env now source authenticated cid req d =
     (let kind = member_string req msgType; command = member_string req msgCommand in
      if kind = ''auth'' then Inr (api_authenticate env source cid req d)
      else let doc = response_start kind command req in
      if kind = msgTypeDock \<and> command = ''get_sysinfo'' then Inr (True, d, [ApiReply (get_sysinfo env doc d)])
      else if \<not> authenticated then Inr (False, d, [ApiReply (doc_set msgCode (JInt 401) doc)])
      else bind_res (run_command env now source cid kind command req doc d) (\<lambda>(out, d1, acts).
             case out of
               Respond doc' \<Rightarrow> Inr (True, d1, acts @ [ApiReply doc'])
             | Finished \<Rightarrow> Inr (True, d1, acts)))"

definition processRequest ::
  "('n, 'q, 'a, 'e) env \<Rightarrow> u32 \<Rightarrow> string option \<Rightarrow> Source \<Rightarrow> bool \<Rightarrow> int \<Rightarrow> ('n, 'q, 'a, 'e) dock \<Rightarrow>
   fault + bool \<times> ('n, 'q, 'a, 'e) dock \<times> api_action list" where
  "processRequest env now request source authenticated cid d =
     (case request of
        None \<Rightarrow> Inr (False, d, [])
      | Some text \<Rightarrow>
          if \<not> (case text of [] \<Rightarrow> False | c # _ \<Rightarrow> 32 \<le> code_of c \<and> code_of c \<le> 127) then Inr (False, d, [])
          else (case env_parse env text of
                  None \<Rightarrow> Inr (False, d, [ApiReply [(msgCode, JInt 500)]])
                | Some req \<Rightarrow> process_document env now source authenticated cid req d))"

definition processWsRequest ::
  "('n, 'q, 'a, 'e) env \<Rightarrow> u32 \<Rightarrow> string \<Rightarrow> u8 \<Rightarrow> ('n, 'q, 'a, 'e) dock \<Rightarrow>
   fault + bool \<times> ('n, 'q, 'a, 'e) dock \<times> api_action list" where
  "processWsRequest env now request num d =
     processRequest env now (Some request) WebSocket (num \<in> dk_authWsClients d) (uint num) d"

section \<open>Connections\<close>

datatype ws_event = WsDisconnected | WsConnected | WsText string | WsFragment | WsBin | WsOther

definition auth_required :: "('n, 'q, 'a, 'e) env \<Rightarrow> ('n, 'q, 'a, 'e) dock \<Rightarrow> api_doc" where
  "auth_required env d =
     [(msgType, JStr ''auth_required''), (''model'', JStr (getModel (dk_config d))),
      (''revision'', JStr (env_hwRevision env)), (''version'', JStr (getSoftwareVersion (dk_config d)))]"

definition ws_event ::
  "('n, 'q, 'a, 'e) env \<Rightarrow> u32 \<Rightarrow> u8 \<Rightarrow> ws_event \<Rightarrow> ('n, 'q, 'a, 'e) dock \<Rightarrow>
   fault + ('n, 'q, 'a, 'e) dock \<times> api_action list" where
  "ws_event env now num ev d =
     (case ev of
        WsDisconnected \<Rightarrow> Inr (d\<lparr>dk_authWsClients := dk_authWsClients d - {num}\<rparr>, [])
      | WsConnected \<Rightarrow> Inr (d, [ApiSend (uint num) (auth_required env d)])
      | WsText t \<Rightarrow> bind_res (processWsRequest env now t num d) (\<lambda>(_, d', acts). Inr (d', acts))
      | WsFragment \<Rightarrow> Inr (d, [ApiDisconnect (uint num)])
      | WsBin \<Rightarrow> Inr (d, [ApiDisconnect (uint num)])
      | WsOther \<Rightarrow> Inr (d, []))"

text \<open>
  The serial line: the byte after the received ones is the digit zero, not a terminator, so the
  text goes on with what the memory behind it holds (\<open>stale\<close>).
\<close>

definition handleSerial ::
  "('n, 'q, 'a, 'e) env \<Rightarrow> u32 \<Rightarrow> string \<Rightarrow> string \<Rightarrow> ('n, 'q, 'a, 'e) dock \<Rightarrow>
   fault + ('n, 'q, 'a, 'e) dock \<times> api_action list" where
  "handleSerial env now received stale d =
     (if received = [] then Inr (d, [])
      else bind_res
             (processRequest env now
                (Some (takeWhile (\<lambda>c. code_of c \<noteq> 0) (take 1023 received @ CHR ''0'' # stale))) Uart True (-1) d)
             (\<lambda>(_, d', acts). Inr (d', acts)))"

text \<open>A response of the IR service goes to its client, a learned code to every connected one.\<close>

definition forward_response ::
  "('n, 'q, 'a, 'e) env \<Rightarrow> ('n, 'q, 'a, 'e) dock \<Rightarrow> ('n, 'q, 'a, 'e) dock \<times> api_action list" where
  "forward_response env d =
     (case apiResponse (env_responses env) (dk_ir d) of
        (None, ir') \<Rightarrow> (d\<lparr>dk_ir := ir'\<rparr>, [])
      | (Some m, ir') \<Rightarrow>
          (d\<lparr>dk_ir := ir'\<rparr>, [if response_client m \<ge> 0 then ApiForward m else ApiBroadcast m]))"

text \<open>A round of the loop: the WebSocket events the server delivers, the serial line, one response.\<close>

fun ws_events ::
  "('n, 'q, 'a, 'e) env \<Rightarrow> (u32 \<times> u8 \<times> ws_event) list \<Rightarrow> ('n, 'q, 'a, 'e) dock \<Rightarrow>
   fault + ('n, 'q, 'a, 'e) dock \<times> api_action list" where
  "ws_events env [] d = Inr (d, [])"
| "ws_events env ((now, num, ev) # evs) d =
     bind_res (ws_event env now num ev d) (\<lambda>(d1, acts1).
     bind_res (ws_events env evs d1) (\<lambda>(d2, acts2). Inr (d2, acts1 @ acts2)))"

definition api_loop ::
  "('n, 'q, 'a, 'e) env \<Rightarrow> (u32 \<times> u8 \<times> ws_event) list \<Rightarrow> u32 \<Rightarrow> string \<Rightarrow> string \<Rightarrow> ('n, 'q, 'a, 'e) dock \<Rightarrow>
   fault + ('n, 'q, 'a, 'e) dock \<times> api_action list" where
  "api_loop env evs now received stale d =
     bind_res (ws_events env evs d) (\<lambda>(d1, acts1).
     bind_res (handleSerial env now received stale d1) (\<lambda>(d2, acts2).
       case forward_response env d2 of (d3, acts3) \<Rightarrow> Inr (d3, acts1 @ acts2 @ acts3)))"

definition api_sendMessage :: "u8 list \<Rightarrow> api_doc \<Rightarrow> api_action list" where
  "api_sendMessage clients msg = map (\<lambda>num. ApiSend (uint num) msg) clients"

section \<open>The authentication gate\<close>

text \<open>What an unauthenticated client may cause: answers, a pause, the end of its connection.\<close>

fun harmless :: "api_action \<Rightarrow> bool" where
  "harmless (ApiReply _) = True"
| "harmless (ApiSend _ _) = True"
| "harmless (ApiDelay _) = True"
| "harmless (ApiDisconnect _) = True"
| "harmless _ = False"

text \<open>The text is an authentication request with the given token.\<close>

definition presents_token :: "('n, 'q, 'a, 'e) env \<Rightarrow> string \<Rightarrow> string \<Rightarrow> bool" where
  "presents_token env token t \<longleftrightarrow>
     (case env_parse env t of
        None \<Rightarrow> False
      | Some req \<Rightarrow> member_string req msgType = ''auth'' \<and> jd_string req msgToken = token)"

lemma unauthenticated_request:
  assumes "\<not> presents_token env (getToken (env_nvs env) (dk_config d)) t"
  shows "\<exists>r acts. processRequest env now (Some t) source False cid d = Inr (r, d, acts) \<and> list_all harmless acts"
proof (cases "env_parse env t")
  case None
  then show ?thesis
    by (cases t) (auto simp: processRequest_def intro: exI [of _ False])
next
  case (Some req)
  with assms have "member_string req msgType = ''auth'' \<Longrightarrow>
      jd_string req msgToken \<noteq> getToken (env_nvs env) (dk_config d)"
    by (simp add: presents_token_def)
  then have "\<exists>r acts. process_document env now source False cid req d = Inr (r, d, acts) \<and> list_all harmless acts"
    by (auto simp: process_document_def api_authenticate_def disconnect_ws_def Let_def)
  with Some show ?thesis
    by (cases t) (auto simp: processRequest_def intro: exI [of _ False])
qed

lemma unauthenticated_event:
  assumes "num \<notin> dk_authWsClients d"
    and "\<And>t. ev = WsText t \<Longrightarrow> \<not> presents_token env (getToken (env_nvs env) (dk_config d)) t"
  shows "\<exists>acts. ws_event env now num ev d = Inr (d, acts) \<and> list_all harmless acts"
proof (cases ev)
  case (WsText t)
  obtain r acts where "processRequest env now (Some t) WebSocket False (uint num) d = Inr (r, d, acts)"
    "list_all harmless acts"
    using unauthenticated_request [OF assms(2) [OF WsText], of now WebSocket "uint num"] by blast
  with WsText assms(1) show ?thesis by (simp add: ws_event_def processWsRequest_def)
qed (use assms(1) in \<open>simp_all add: ws_event_def\<close>)

lemma unauthenticated_events:
  assumes "\<forall>(now, num, ev) \<in> set evs. num \<notin> dk_authWsClients d \<and>
     (\<forall>t. ev = WsText t \<longrightarrow> \<not> presents_token env (getToken (env_nvs env) (dk_config d)) t)"
  shows "\<exists>acts. ws_events env evs d = Inr (d, acts) \<and> list_all harmless acts"
  using assms
proof (induction evs)
  case Nil
  then show ?case by simp
next
  case (Cons e evs)
  obtain now num ev where e: "e = (now, num, ev)" by (cases e)
  with Cons.prems have "\<exists>acts. ws_event env now num ev d = Inr (d, acts) \<and> list_all harmless acts"
    by (intro unauthenticated_event) auto
  moreover from Cons obtain acts where "ws_events env evs d = Inr (d, acts)" "list_all harmless acts" by auto
  ultimately show ?case using e by auto
qed

text \<open>
  C3. Without the token nothing happens: whatever sequence of WebSocket events clients send that
  are not authenticated and never present the token in force, no setting, state, IR code or
  logging option of the dock changes, no client becomes authenticated, and all the dock does
  is answer and close connections. No such sequence makes it fail either.
\<close>

theorem api_needs_token:
  assumes "\<forall>(now, num, ev) \<in> set evs. num \<notin> dk_authWsClients d \<and>
     (\<forall>t. ev = WsText t \<longrightarrow> \<not> presents_token env (getToken (env_nvs env) (dk_config d)) t)"
  shows "\<exists>acts. ws_events env evs d = Inr (d, acts) \<and> list_all harmless acts"
  using unauthenticated_events [OF assms] .

section \<open>What a command does to its response\<close>

text \<open>
  The contract of the commands: the authenticated clients stay as they are, the response keeps the
  id of the request, and a command that sends its response itself sends one; only \<open>ir_send\<close>
  (\<open>later\<close>) may leave it to the send task.
\<close>

definition replies :: "api_action list \<Rightarrow> api_doc list" where
  "replies acts = List.map_filter (\<lambda>a. case a of ApiReply doc \<Rightarrow> Some doc | _ \<Rightarrow> None) acts"

lemma replies_simps [simp]:
  "replies [] = []" "replies (as @ bs) = replies as @ replies bs" "replies (ApiReply doc # as) = doc # replies as"
  "replies (ApiDelay k # as) = replies as" "replies (ApiDisconnect c # as) = replies as"
  "replies (ApiReboot # as) = replies as" "replies (ApiMdnsName n # as) = replies as"
  "replies (ApiLed l # as) = replies as" "replies (ApiIr i # as) = replies as" "replies (ApiPins b # as) = replies as"
  by (simp_all add: replies_def List.map_filter_simps map_filter_def)

lemma replies_map_ir [simp]: "replies (map ApiIr as) = []"
  by (induction as) simp_all

lemma replies_disconnect [simp]: "replies (disconnect_ws source cid) = []"
  by (simp add: disconnect_ws_def)

definition same_id :: "api_doc \<Rightarrow> api_doc \<Rightarrow> bool" where
  "same_id doc' doc \<longleftrightarrow> map_of doc' msgReqId = map_of doc msgReqId"

lemma map_of_doc_set [simp]: "map_of (doc_set k v doc) = (map_of doc)(k \<mapsto> v)"
  by (simp add: doc_set_def update_conv')

lemma same_id_simps [simp]:
  "same_id doc doc" "k \<noteq> msgReqId \<Longrightarrow> same_id (doc_set k v doc') doc \<longleftrightarrow> same_id doc' doc"
  "same_id (code_unless ok n doc') doc \<longleftrightarrow> same_id doc' doc"
  by (simp_all add: same_id_def code_unless_def)

definition cmd_ok ::
  "bool \<Rightarrow> api_doc \<Rightarrow> ('n, 'q, 'a, 'e) dock \<Rightarrow> ('n, 'q, 'a, 'e) api_result \<Rightarrow> bool" where
  "cmd_ok later doc d res \<longleftrightarrow>
     (\<forall>out d' acts. res = Inr (out, d', acts) \<longrightarrow>
        dk_authWsClients d' = dk_authWsClients d \<and>
        (case out of
           Respond doc' \<Rightarrow> replies acts = [] \<and> same_id doc' doc
         | Finished \<Rightarrow> (later \<and> replies acts = []) \<or> (\<exists>doc'. replies acts = [doc'] \<and> same_id doc' doc)))"

named_theorems cmd_intros \<open>the commands meet the contract\<close>

lemma cmd_ok_Inl [cmd_intros]: "cmd_ok later doc d (Inl f)"
  by (simp add: cmd_ok_def)

lemma cmd_ok_Respond [cmd_intros]:
  "dk_authWsClients d' = dk_authWsClients d \<Longrightarrow> replies acts = [] \<Longrightarrow> same_id doc' doc \<Longrightarrow>
   cmd_ok later doc d (Inr (Respond doc', d', acts))"
  by (simp add: cmd_ok_def)

lemma cmd_ok_Finished [cmd_intros]:
  "dk_authWsClients d' = dk_authWsClients d \<Longrightarrow> replies acts = [doc'] \<Longrightarrow> same_id doc' doc \<Longrightarrow>
   cmd_ok later doc d (Inr (Finished, d', acts))"
  by (simp add: cmd_ok_def)

lemma dock_setState_frame: "dock_setState env now x d = Inr d' \<Longrightarrow> dk_authWsClients d' = dk_authWsClients d"
  by (auto simp: dock_setState_def bind_res_Inr_iff)

lemma cmd_ok_setState [cmd_intros]:
  assumes "dk_authWsClients d1 = dk_authWsClients d"
    and "\<And>d'. dk_authWsClients d' = dk_authWsClients d1 \<Longrightarrow> cmd_ok later doc d (f d')"
  shows "cmd_ok later doc d (bind_res (dock_setState env now x d1) f)"
proof (cases "dock_setState env now x d1")
  case (Inr d')
  with assms(2) [OF dock_setState_frame [OF Inr]] show ?thesis by simp
qed (simp add: cmd_ok_Inl)

lemma cmd_ok_if:
  "(c \<Longrightarrow> cmd_ok later doc d r) \<Longrightarrow> (\<not> c \<Longrightarrow> cmd_ok later doc d r') \<Longrightarrow> cmd_ok later doc d (if c then r else r')"
  by simp

lemma run_ir_actions_frame:
  "run_ir_actions env now as d = Inr (d', acts) \<Longrightarrow> dk_authWsClients d' = dk_authWsClients d \<and> replies acts = []"
proof (induction as arbitrary: d d' acts)
  case (Cons a as)
  then obtain d1 acts1 where d1: "(case a of IrSetState x \<Rightarrow> dock_setState env now x d | _ \<Rightarrow> Inr d) = Inr d1"
    and rest: "run_ir_actions env now as d1 = Inr (d', acts1)"
    and acts: "acts = (case a of IrSetState _ \<Rightarrow> acts1 | _ \<Rightarrow> ApiIr a # acts1)"
    by (auto simp: bind_res_Inr_iff split: prod.splits)
  have "dk_authWsClients d1 = dk_authWsClients d"
    using d1 by (cases a) (auto dest: dock_setState_frame)
  with Cons.IH [OF rest] acts show ?case by (cases a) simp_all
qed simp

lemma set_config_ok [cmd_intros]: "cmd_ok later doc d (set_config env source cid req doc d)"
proof -
  obtain ok1 d1 acts where name: "config_name_step env req d = (ok1, d1, acts)" by (metis prod_cases3)
  obtain ok doc2 d2 where token: "config_token_step env req doc ok1 d1 = (ok, doc2, d2)" by (metis prod_cases3)
  obtain w c where wifi: "setWifi (env_nvs env) (jd_string req ''ssid'') (jd_string req msgWifiPwd) (dk_config d2) = (w, c)"
    by fastforce
  have "dk_authWsClients d1 = dk_authWsClients d" "replies acts = []"
    using name by (auto simp: config_name_step_def Let_def split: if_splits)
  moreover have "dk_authWsClients d2 = dk_authWsClients d1" "same_id doc2 doc"
    using token by (auto simp: config_token_step_def Let_def split: if_splits prod.splits)
  ultimately have d: "dk_authWsClients d2 = dk_authWsClients d" "same_id doc2 doc" "replies acts = []" by simp_all
  have run: "set_config env source cid req doc d =
      (if \<not> ((jd_has req ''friendly_name'' \<or> jd_has req msgToken) \<and> \<not> ok) \<and> (jd_has req ''ssid'' \<or> jd_has req msgWifiPwd)
       then if w
            then Inr (Finished, d2\<lparr>dk_config := c\<rparr>,
                      acts @ [ApiReply (doc_set ''reboot'' (JBool True) doc2), ApiDelay 200] @
                      disconnect_ws source cid @ [ApiReboot])
            else Inr (Respond (code_unless ok 400 (doc_set msgError (JStr ''Invalid SSID or password'') doc2)),
                      d2\<lparr>dk_config := c\<rparr>, acts)
       else Inr (Respond (code_unless ok 400 doc2), d2, acts))"
    unfolding set_config_def name token wifi prod.case Let_def by (cases w) simp_all
  show ?thesis
    unfolding run by (intro cmd_ok_if cmd_ok_Respond cmd_ok_Finished [of _ _ _ "doc_set ''reboot'' (JBool True) doc2"])
      (simp_all add: d)
qed

lemma brightness_frame:
  "brightness_led_step env now req d = Inr d1 \<Longrightarrow> dk_authWsClients d1 = dk_authWsClients d"
  "dk_authWsClients (fst (brightness_eth_step env req d)) = dk_authWsClients d"
  "replies (snd (brightness_eth_step env req d)) = []"
  by (auto simp: brightness_led_step_def brightness_eth_step_def bind_res_Inr_iff map_led_def Let_def
      dest: dock_setState_frame split: if_splits)

lemma set_brightness_ok [cmd_intros]: "cmd_ok later doc d (set_brightness env now req doc d)"
proof (cases "brightness_led_step env now req d")
  case (Inl f)
  then show ?thesis by (simp add: set_brightness_def cmd_ok_Inl)
next
  case (Inr d1)
  obtain d2 acts where eth: "brightness_eth_step env req d1 = (d2, acts)" by fastforce
  then have "dk_authWsClients d2 = dk_authWsClients d" "replies acts = []"
    using brightness_frame(2,3) [of env req d1] brightness_frame(1) [OF Inr] by simp_all
  with Inr eth show ?thesis by (simp add: set_brightness_def cmd_ok_Respond)
qed

lemma simple_commands_ok [cmd_intros]:
  "cmd_ok later doc d (test_mode env doc d)"
  "cmd_ok later doc d (rgb_test env now req doc d)"
  "cmd_ok later doc d (rgb_test_stop env now doc d)"
  "later \<Longrightarrow> cmd_ok later doc d (api_ir_send env cid req doc d)"
  "cmd_ok later doc d (api_ir_learn env now on doc d)"
  "cmd_ok later doc d (api_state env now x doc d)"
  "cmd_ok later doc d (api_reset env source cid doc d)"
  "cmd_ok later doc d (get_ir_config env doc d)"
  subgoal by (simp add: test_mode_def cmd_ok_Respond split: prod.split)
  subgoal
    unfolding rgb_test_def Let_def
    by (cases "test_color (jd_string req ''color'')")
       (auto simp only: option.case intro!: cmd_ok_Respond cmd_ok_setState split: if_split, simp_all)
  subgoal by (cases "dk_prevState d") (auto simp: rgb_test_stop_def intro!: cmd_intros)
  subgoal by (simp add: cmd_ok_def api_ir_send_def Let_def split: prod.split)
  subgoal using run_ir_actions_frame [of env now]
    by (auto simp: cmd_ok_def api_ir_learn_def bind_res_Inr_iff split: prod.splits)
  subgoal by (auto simp: api_state_def intro!: cmd_intros)
  subgoal
    unfolding api_reset_def
    by (rule cmd_ok_Finished [of _ _ _ "doc_set ''reboot'' (JBool True) doc"]) (simp_all add: reboot_response_def)
  subgoal by (simp add: get_ir_config_def Let_def cmd_ok_Respond)
  done

lemma try_setting_frame [simp]: "dk_authWsClients (snd (try_setting p f r)) = dk_authWsClients (snd r)"
  by (simp add: try_setting_def split: prod.split)

lemma set_logging_ok [cmd_intros]: "cmd_ok later doc d (set_logging env req doc d)"
proof -
  have "dk_authWsClients (snd (logging_level_step env req d)) = dk_authWsClients d" for d
    by (simp add: logging_level_step_def Let_def split: prod.split)
  moreover have "dk_authWsClients (snd (logging_server_step env req ok d)) = dk_authWsClients d" for ok d
    by (simp add: logging_server_step_def split: prod.split)
  moreover have "dk_authWsClients (logging_enable_step env req d) = dk_authWsClients d" for d
    by (simp add: logging_enable_step_def Let_def)
  ultimately show ?thesis
    by (auto simp: set_logging_def case_prod_unfold intro!: cmd_intros)
qed

lemma settings_ok [cmd_intros]:
  "cmd_ok later doc d (set_sntp env req doc d)" "cmd_ok later doc d (set_ir_config env req doc d)"
  by (auto simp: set_sntp_def set_ir_config_def Let_def case_prod_unfold intro!: cmd_intros)

lemma run_command_ok:
  "cmd_ok (command = ''ir_send'') doc d (run_command env now source cid kind command req doc d)"
  unfolding run_command_def
  by (intro cmd_ok_if set_config_ok set_brightness_ok simple_commands_ok set_logging_ok settings_ok cmd_ok_Respond
      cmd_ok_Finished [of _ _ _ "doc_set ''reboot'' (JBool True) doc"])
    (simp_all add: reboot_response_def same_id_def delete_conv')

lemma processRequest_cases:
  "processRequest env now (Some t) source authenticated cid d =
     (if t \<noteq> [] \<and> 32 \<le> code_of (hd t) \<and> code_of (hd t) \<le> 127
      then (case env_parse env t of
              None \<Rightarrow> Inr (False, d, [ApiReply [(msgCode, JInt 500)]])
            | Some req \<Rightarrow> process_document env now source authenticated cid req d)
      else Inr (False, d, []))"
  by (cases t) (simp_all add: processRequest_def)

lemma api_authenticate_reply:
  "\<exists>doc. replies (snd (snd (api_authenticate env source cid req d))) = [doc] \<and>
     (jd_has req msgId \<longrightarrow> map_of doc msgReqId = Some (JInt (jd_int req msgId)))"
  by (simp add: api_authenticate_def Let_def)

lemma get_sysinfo_same_id: "same_id (get_sysinfo env doc d) doc"
  by (simp add: get_sysinfo_def sysinfo_members_def Let_def)

text \<open>A request that is no authentication: the clients stay, one reply at most is missing.\<close>

lemma process_document_ok:
  assumes "process_document env now source authenticated cid req d = Inr (r, d', acts)"
    and kind: "member_string req msgType \<noteq> ''auth''"
  shows "dk_authWsClients d' = dk_authWsClients d \<and>
     ((\<exists>doc. replies acts = [doc] \<and>
        same_id doc (response_start (member_string req msgType) (member_string req msgCommand) req)) \<or>
      (replies acts = [] \<and> authenticated \<and> member_string req msgCommand = ''ir_send''))"
proof -
  let ?command = "member_string req msgCommand"
  let ?doc = "response_start (member_string req msgType) ?command req"
  show ?thesis
  proof (cases "member_string req msgType = msgTypeDock \<and> ?command = ''get_sysinfo'' \<or> \<not> authenticated")
    case True
    with assms show ?thesis
      by (auto simp: process_document_def Let_def get_sysinfo_same_id split: if_splits)
  next
    case False
    then have neg: "\<not> (member_string req msgType = msgTypeDock \<and> ?command = ''get_sysinfo'')" and au: authenticated
      by blast+
    have eq: "process_document env now source authenticated cid req d =
        bind_res (run_command env now source cid (member_string req msgType) ?command req ?doc d)
          (\<lambda>(out, d1, acts). case out of
             Respond doc' \<Rightarrow> Inr (True, d1, acts @ [ApiReply doc']) | Finished \<Rightarrow> Inr (True, d1, acts))"
      unfolding process_document_def Let_def using kind by (simp only: neg au if_False not_True_eq_False)
    from assms(1) obtain out d1 acts' where
      run: "run_command env now source cid (member_string req msgType) ?command req ?doc d = Inr (out, d1, acts')"
      and d1: "d' = d1" and acts: "acts = (case out of Respond doc' \<Rightarrow> acts' @ [ApiReply doc'] | Finished \<Rightarrow> acts')"
    proof (cases "run_command env now source cid (member_string req msgType) ?command req ?doc d")
      case (Inr x)
      obtain out d1 acts' where x: "x = (out, d1, acts')" by (cases x)
      with assms(1) Inr that show thesis unfolding eq by (cases out) simp_all
    qed (use assms(1) in \<open>simp add: eq\<close>)
    from run_command_ok [of ?command ?doc d env now source cid "member_string req msgType" req] run acts d1 False
    show ?thesis by (cases out) (auto simp: cmd_ok_def)
  qed
qed

text \<open>
  The sessions as the API is meant to keep them: a set of clients, which a client enters with the
  token and leaves with its connection. Texts that do not start with a printable character are ignored.
\<close>

definition session_step ::
  "('n, 'q, 'a, 'e) env \<Rightarrow> string \<Rightarrow> u8 \<Rightarrow> ws_event \<Rightarrow> u8 set \<Rightarrow> u8 set" where
  "session_step env token num ev clients =
     (case ev of
        WsDisconnected \<Rightarrow> clients - {num}
      | WsText t \<Rightarrow>
          if presents_token env token t \<and> t \<noteq> [] \<and> 32 \<le> code_of (hd t) \<and> code_of (hd t) \<le> 127
          then insert num clients else clients
      | _ \<Rightarrow> clients)"

text \<open>
  C4. Every WebSocket event acts on the authenticated clients as the abstract sessions do: a client is
  authenticated exactly by presenting the token in force, stays so until its connection ends, and
  no event, whatever command it carries, changes the authentication of another client.
\<close>

theorem api_authentication:
  assumes "ws_event env now num ev d = Inr (d', acts)"
  shows "dk_authWsClients d' =
     session_step env (getToken (env_nvs env) (dk_config d)) num ev (dk_authWsClients d)"
proof (cases ev)
  case (WsText t)
  have doc: "dk_authWsClients d' =
      (if member_string req msgType = ''auth'' \<and> jd_string req msgToken = getToken (env_nvs env) (dk_config d)
       then insert num (dk_authWsClients d) else dk_authWsClients d)"
    if "process_document env now WebSocket (num \<in> dk_authWsClients d) (uint num) req d = Inr (r, d', acts)" for req r
  proof (cases "member_string req msgType = ''auth''")
    case True
    with that show ?thesis by (auto simp: process_document_def api_authenticate_def Let_def split: if_splits)
  next
    case False
    with process_document_ok [OF that] show ?thesis by simp
  qed
  from assms WsText obtain r where
    run: "processRequest env now (Some t) WebSocket (num \<in> dk_authWsClients d) (uint num) d = Inr (r, d', acts)"
    by (cases "processWsRequest env now t num d") (auto simp: ws_event_def processWsRequest_def)
  show ?thesis
  proof (cases "env_parse env t")
    case None
    with run WsText show ?thesis
      by (simp add: processRequest_cases presents_token_def session_step_def split: if_splits)
  next
    case (Some req)
    show ?thesis
    proof (cases "t \<noteq> [] \<and> 32 \<le> code_of (hd t) \<and> code_of (hd t) \<le> 127")
      case True
      then have "process_document env now WebSocket (num \<in> dk_authWsClients d) (uint num) req d = Inr (r, d', acts)"
        using run Some unfolding processRequest_cases by simp
      from doc [OF this] True Some WsText show ?thesis by (simp add: presents_token_def session_step_def)
    next
      case False
      then have "d' = d" using run unfolding processRequest_cases by (simp only: if_False) simp
      with False WsText show ?thesis by (auto simp: session_step_def)
    qed
  qed
qed (use assms in \<open>auto simp: ws_event_def session_step_def\<close>)


end
