(* ===== verification/ApiCommands.thy ===== *)
theory ApiCommands
  imports ServiceApi IrTasks
begin

text \<open>
  What the commands of the API (theory \<open>ServiceApi\<close>) do to the settings and the devices: which
  request fails, what \<open>set_config\<close> and \<open>set_brightness\<close> store and what later requests read,
  and the requests that are answered with a code that does not fit what was done.
\<close>

section \<open>Faults\<close>

definition dock_ready :: "('n, 'q, 'a, 'e) env \<Rightarrow> ('n, 'q, 'a, 'e) dock \<Rightarrow> bool" where
  "dock_ready env d \<longleftrightarrow> led_ready (env_events env) (st_led (dk_state d))"

definition returns :: "fault + 'x \<Rightarrow> bool" where
  "returns res \<longleftrightarrow> (\<exists>x. res = Inr x)"

lemma returns_Inr [simp]: "returns (Inr x)"
  by (simp add: returns_def)

lemma returns_if: "(c \<Longrightarrow> returns r) \<Longrightarrow> (\<not> c \<Longrightarrow> returns r') \<Longrightarrow> returns (if c then r else r')"
  by simp

lemma dock_setState_ready:
  assumes "dock_ready env d"
  obtains s where "dock_setState env now x d = Inr (d\<lparr>dk_state := s\<rparr>)" "led_ready (env_events env) (st_led s)"
proof -
  have "led_ready (env_events env) (st_led (dk_state d))" using assms by (simp add: dock_ready_def)
  from led_control.setState_ready [OF this, of now x] obtain p s where
    "setState (led_setState (env_events env)) now x (dk_state d) = Inr (p, s)" "led_ready (env_events env) (st_led s)" .
  with that show thesis by (simp add: dock_setState_def)
qed

lemma returns_setState:
  assumes "dock_ready env d" and "\<And>d'. returns (f d')"
  shows "returns (bind_res (dock_setState env now x d) f)"
  using dock_setState_ready [OF assms(1), of now x] assms(2) by (metis bind_res_simps(2))

lemma run_ir_actions_returns: "dock_ready env d \<Longrightarrow> returns (run_ir_actions env now as d)"
proof (induction as arbitrary: d)
  case (Cons a as)
  have "\<exists>d1. (case a of IrSetState x \<Rightarrow> dock_setState env now x d | _ \<Rightarrow> Inr d) = Inr d1 \<and> dock_ready env d1"
  proof (cases a)
    case (IrSetState x)
    obtain s where "dock_setState env now x d = Inr (d\<lparr>dk_state := s\<rparr>)" "led_ready (env_events env) (st_led s)"
      by (rule dock_setState_ready [OF Cons.prems])
    with IrSetState show ?thesis by (simp add: dock_ready_def)
  qed (use Cons.prems in simp_all)
  then obtain d1 where d1: "(case a of IrSetState x \<Rightarrow> dock_setState env now x d | _ \<Rightarrow> Inr d) = Inr d1"
    "dock_ready env d1" by blast
  from Cons.IH [OF d1(2)] obtain d2 acts where "run_ir_actions env now as d1 = Inr (d2, acts)"
    by (auto simp: returns_def)
  with d1(1) show ?case by simp
qed simp

lemma commands_return:
  "returns (set_config env source cid req doc d)"
  "dock_ready env d \<Longrightarrow> returns (set_brightness env now req doc d)"
  "returns (test_mode env doc d)"
  "dock_ready env d \<Longrightarrow> returns (rgb_test env now req doc d)"
  "returns (api_ir_send env cid req doc d)"
  "dock_ready env d \<Longrightarrow> returns (api_ir_learn env now on doc d)"
  "dock_ready env d \<Longrightarrow> returns (api_state env now x doc d)"
  "returns (api_reset env source cid doc d)"
  "returns (set_logging env req doc d)"
  "returns (set_sntp env req doc d)"
  "returns (set_ir_config env req doc d)"
  "returns (get_ir_config env doc d)"
  subgoal by (simp add: set_config_def Let_def split: prod.split bool.split)
  subgoal premises prems
  proof -
    have "returns (brightness_led_step env now req d)"
      unfolding brightness_led_step_def Let_def
      by (intro returns_if returns_setState [OF prems]) simp_all
    then show ?thesis by (auto simp: returns_def set_brightness_def split: prod.split)
  qed
  subgoal by (simp add: test_mode_def split: prod.split)
  subgoal premises prems
  proof -
    have "dock_ready env (d\<lparr>dk_prevState := p\<rparr>)" for p using prems by (simp add: dock_ready_def)
    with prems show ?thesis
      by (cases "test_color (jd_string req ''color'')") (simp_all add: rgb_test_def Let_def returns_setState)
  qed
  subgoal by (simp add: api_ir_send_def Let_def split: prod.split)
  subgoal premises prems
  proof -
    obtain ir' acts where learn: "(if on then startIrLearn else stopIrLearn) (env_events env) (dk_ir d) = (ir', acts)"
      by fastforce
    have "dock_ready env (d\<lparr>dk_ir := ir'\<rparr>)" using prems by (simp add: dock_ready_def)
    from run_ir_actions_returns [OF this, of now acts] show ?thesis
      by (auto simp: returns_def api_ir_learn_def learn)
  qed
  subgoal by (simp add: api_state_def returns_setState)
  subgoal by (simp add: api_reset_def)
  subgoal by (simp add: set_logging_def split: prod.split)
  subgoal by (simp add: set_sntp_def Let_def split: prod.split)
  subgoal by (simp add: set_ir_config_def Let_def split: prod.split)
  subgoal by (simp add: get_ir_config_def Let_def)
  done

lemma run_command_returns:
  assumes "dock_ready env d" and "\<not> (kind = msgTypeDock \<and> command = ''rgb_test_stop'' \<and> dk_prevState d = None)"
  shows "returns (run_command env now source cid kind command req doc d)"
proof (cases "kind = msgTypeDock \<and> command = ''rgb_test_stop''")
  case True
  with assms(2) obtain x where "dk_prevState d = Some x" by (cases "dk_prevState d") simp_all
  then have "returns (rgb_test_stop env now doc d)"
    using assms(1) by (simp add: rgb_test_stop_def returns_setState)
  with True show ?thesis by (simp add: run_command_def)
next
  case False
  then show ?thesis
    unfolding run_command_def
    by (intro returns_if commands_return returns_Inr assms(1)) simp_all
qed

lemma process_document_command:
  assumes "member_string req msgType = msgTypeDock" "member_string req msgCommand \<noteq> ''get_sysinfo''"
  shows "process_document env now source True cid req d =
     bind_res (run_command env now source cid msgTypeDock (member_string req msgCommand) req
         (response_start msgTypeDock (member_string req msgCommand) req) d)
       (\<lambda>(out, d1, acts). case out of
          Respond doc' \<Rightarrow> Inr (True, d1, acts @ [ApiReply doc']) | Finished \<Rightarrow> Inr (True, d1, acts))"
  using assms by (simp add: process_document_def Let_def)

lemma process_document_fault:
  assumes "dock_ready env d"
  shows "process_document env now source authenticated cid req d = Inl f \<longleftrightarrow>
     f = Uninitialised \<and> authenticated \<and> member_string req msgType = msgTypeDock \<and>
     member_string req msgCommand = ''rgb_test_stop'' \<and> dk_prevState d = None"
proof (cases "authenticated \<and> member_string req msgType = msgTypeDock \<and> member_string req msgCommand \<noteq> ''get_sysinfo''")
  case True
  let ?cmd = "run_command env now source cid msgTypeDock (member_string req msgCommand) req
     (response_start msgTypeDock (member_string req msgCommand) req) d"
  have eq: "process_document env now source authenticated cid req d = bind_res ?cmd (\<lambda>(out, d1, acts). case out of
      Respond doc' \<Rightarrow> Inr (True, d1, acts @ [ApiReply doc']) | Finished \<Rightarrow> Inr (True, d1, acts))"
    using True process_document_command [of req env now source cid d] by simp
  have iff: "process_document env now source authenticated cid req d = Inl f \<longleftrightarrow> ?cmd = Inl f"
  proof (cases ?cmd)
    case (Inr x)
    obtain out d1 acts where x: "x = (out, d1, acts)" by (cases x)
    show ?thesis unfolding eq Inr x by (cases out) simp_all
  qed (simp add: eq)
  show ?thesis
  proof (cases "member_string req msgCommand = ''rgb_test_stop'' \<and> dk_prevState d = None")
    case stop: True
    then have "?cmd = Inl Uninitialised" by (simp add: run_command_def rgb_test_stop_def)
    with True stop show ?thesis unfolding iff by auto
  next
    case False
    with run_command_returns [OF assms, of msgTypeDock "member_string req msgCommand" now source cid req
        "response_start msgTypeDock (member_string req msgCommand) req"] True
    show ?thesis unfolding iff by (auto simp: returns_def)
  qed
next
  case False
  have ok: "returns (process_document env now source authenticated cid req d)"
  proof (cases "member_string req msgType = msgTypeDock \<or> \<not> authenticated \<or> member_string req msgType = ''auth''")
    case True
    with False show ?thesis by (auto simp: process_document_def Let_def)
  next
    case other: False
    then show ?thesis by (simp add: process_document_def run_command_def Let_def)
  qed
  then obtain r where "process_document env now source authenticated cid req d = Inr r"
    unfolding returns_def by blast
  with False show ?thesis by auto
qed

text \<open>
  C24. With the LED controller ready, a request that parses makes the firmware fail in one case
  only: \<open>rgb_test_stop\<close> of an authenticated client before any \<open>rgb_test\<close>, which reads the member
  \<open>m_prevState\<close> that was never initialised.
\<close>

theorem api_only_fault:
  assumes "dock_ready env d"
  shows "(\<exists>f. process_document env now source authenticated cid req d = Inl f) \<longleftrightarrow>
     authenticated \<and> member_string req msgType = msgTypeDock \<and> member_string req msgCommand = ''rgb_test_stop'' \<and>
     dk_prevState d = None"
  by (simp add: process_document_fault [OF assms])

section \<open>Settings\<close>

definition store_ready :: "('n, 'q, 'a, 'e) env \<Rightarrow> ('n, 'q, 'a, 'e) dock \<Rightarrow> bool" where
  "store_ready env d \<longleftrightarrow> cfg_usable (env_nvs env) prefGeneral (dk_config d)"

text \<open>The name and the token are different keys of the store.\<close>

lemma friendly_name_setToken:
  "cfg_usable ops prefGeneral c \<Longrightarrow>
   getFriendlyName ops (snd (setToken ops v c)) = getFriendlyName ops c"
  by (simp add: getter_defs setter_defs cfg_lookup_try cfg_usable_def frame_simps Let_def)

lemma setToken_ok:
  "cfg_usable ops prefGeneral c \<Longrightarrow> length v \<le> 64 \<Longrightarrow> fst (setToken ops v c)"
  by (simp add: setToken_def cfg_try_def cfg_usable_def)

text \<open>
  \<open>set_config\<close> with a name and a token of 1 to 40 characters is answered with code 200; from
  then on the token is the one clients authenticate with, and the system information shows the
  name as it was stored (cut to 40 characters, the host name for an empty one).
\<close>

theorem set_config_applied:
  assumes "store_ready env d" and "member_string req msgType = msgTypeDock"
    and "member_string req msgCommand = ''set_config''"
    and "jd_has req ''friendly_name''" "jd_has req msgToken" "\<not> jd_has req ''ssid''" "\<not> jd_has req msgWifiPwd"
    and "jd_string req msgToken \<noteq> []" "length (jd_string req msgToken) \<le> 40"
  shows "\<exists>d' acts doc. process_document env now source True cid req d = Inr (True, d', acts @ [ApiReply doc]) \<and>
     map_of doc msgCode = Some (JInt 200) \<and>
     getToken (env_nvs env) (dk_config d') = jd_string req msgToken \<and>
     map_of (get_sysinfo env [] d') ''name'' = Some (JStr (shownName (dk_config d) (jd_string req ''friendly_name'')))"
proof -
  let ?ops = "env_nvs env" and ?name = "jd_string req ''friendly_name''" and ?token = "jd_string req msgToken"
  let ?c1 = "setFriendlyName ?ops ?name (dk_config d)"
  let ?doc = "response_start msgTypeDock ''set_config'' req"
  have use: "cfg_usable ?ops prefGeneral (dk_config d)" using assms(1) by (simp add: store_ready_def)
  have use1: "cfg_usable ?ops prefGeneral ?c1" by (rule friendly_name.usable_put [OF use])
  have len: "length ?token \<le> 64" using assms(9) by simp
  obtain c2 where set: "setToken ?ops ?token ?c1 = (True, c2)"
    using setToken_ok [OF use1 len] by (cases "setToken ?ops ?token ?c1") simp
  then have c2: "c2 = snd (setToken ?ops ?token ?c1)" by simp
  let ?d' = "d\<lparr>dk_config := c2\<rparr>"
  have step: "config_token_step env req ?doc True (d\<lparr>dk_config := ?c1\<rparr>) = (True, ?doc, ?d')"
    using assms(5,8,9) set by (simp add: config_token_step_def Let_def)
  have "set_config env source cid req ?doc d =
      Inr (Respond ?doc, ?d', [ApiMdnsName (getFriendlyName ?ops ?c1)])"
    unfolding set_config_def config_name_step_def using assms(4,6,7) step
    by (simp add: Let_def code_unless_def)
  then have run: "process_document env now source True cid req d =
      Inr (True, ?d', [ApiMdnsName (getFriendlyName ?ops ?c1)] @ [ApiReply ?doc])"
    using assms(2,3) process_document_command [of req env now source cid d] by (simp add: run_command_def)
  have "getToken ?ops c2 = ?token" unfolding c2 by (rule token.get_put [OF use1 len])
  moreover have "getFriendlyName ?ops c2 = shownName (dk_config d) ?name"
    unfolding c2 using friendly_name_setToken [OF use1] friendly_name.get_put [OF use] by simp
  then have "map_of (get_sysinfo env [] ?d') ''name'' = Some (JStr (shownName (dk_config d) ?name))"
    by (simp add: get_sysinfo_def sysinfo_members_def Let_def)
  moreover have "map_of ?doc msgCode = Some (JInt 200)" by (simp add: response_start_def Let_def)
  ultimately show ?thesis using run by (intro exI [of _ ?d'] exI [of _ "[ApiMdnsName (getFriendlyName ?ops ?c1)]"]
      exI [of _ ?doc]) simp
qed

text \<open>
  A \<open>set_config\<close> whose token is refused is answered with code 200 when it also sets the name:
  the error is in the answer, the token is the old one, the name is the new one.
\<close>

theorem set_config_error_code_200:
  assumes "store_ready env d" and "member_string req msgType = msgTypeDock"
    and "member_string req msgCommand = ''set_config''"
    and "jd_has req ''friendly_name''" "jd_has req msgToken" "\<not> jd_has req ''ssid''" "\<not> jd_has req msgWifiPwd"
    and "length (jd_string req msgToken) > 40"
  shows "\<exists>d' acts doc. process_document env now source True cid req d = Inr (True, d', acts @ [ApiReply doc]) \<and>
     map_of doc msgCode = Some (JInt 200) \<and> map_of doc msgError = Some (JStr ''Token length must be 4..40'') \<and>
     getToken (env_nvs env) (dk_config d') = getToken (env_nvs env) (dk_config d) \<and>
     getFriendlyName (env_nvs env) (dk_config d') = shownName (dk_config d) (jd_string req ''friendly_name'')"
proof -
  let ?ops = "env_nvs env" and ?name = "jd_string req ''friendly_name''"
  let ?c1 = "setFriendlyName ?ops ?name (dk_config d)"
  let ?doc = "doc_set msgError (JStr ''Token length must be 4..40'') (response_start msgTypeDock ''set_config'' req)"
  have use: "cfg_usable ?ops prefGeneral (dk_config d)" using assms(1) by (simp add: store_ready_def)
  have "set_config env source cid req (response_start msgTypeDock ''set_config'' req) d =
      Inr (Respond ?doc, d\<lparr>dk_config := ?c1\<rparr>, [ApiMdnsName (getFriendlyName ?ops ?c1)])"
    unfolding set_config_def config_name_step_def config_token_step_def using assms(4-8)
    by (simp add: Let_def code_unless_def)
  then have run: "process_document env now source True cid req d =
      Inr (True, d\<lparr>dk_config := ?c1\<rparr>, [ApiMdnsName (getFriendlyName ?ops ?c1)] @ [ApiReply ?doc])"
    using assms(2,3) process_document_command [of req env now source cid d] by (simp add: run_command_def)
  have "getToken ?ops ?c1 = getToken ?ops (dk_config d)"
    using use by (simp add: getter_defs setter_defs cfg_lookup_try cfg_usable_def frame_simps)
  moreover have "map_of ?doc msgCode = Some (JInt 200)" by (simp add: response_start_def Let_def)
  ultimately show ?thesis
    using run friendly_name.get_put [OF use, of ?name]
    by (intro exI [of _ "d\<lparr>dk_config := ?c1\<rparr>"] exI [of _ "[ApiMdnsName (getFriendlyName ?ops ?c1)]"]
        exI [of _ ?doc]) simp
qed

lemma led_setup_state:
  assumes "dock_ready env d" and "st_current (dk_state d) \<noteq> LED_SETUP" "st_prev (dk_state d) \<noteq> LED_SETUP"
  obtains s where "dock_setState env now LED_SETUP d = Inr (d\<lparr>dk_state := s\<rparr>)" "st_current s = LED_SETUP"
    "getLedMaxBrightness (st_led s) = getLedMaxBrightness (st_led (dk_state d))"
proof -
  from assms(1) obtain e where e: "led_eventgroup (st_led (dk_state d)) = Some e"
    by (auto simp: dock_ready_def led_ready_def)
  let ?l = "st_led (dk_state d)"
  let ?l' = "?l\<lparr>led_eventgroup := Some (eg_set (env_events env) (eg_clear (env_events env) e 0xFFFF) LED_SETUP_BIT)\<rparr>"
  let ?s = "(dk_state d)\<lparr>st_ledSetupTimeout := now + 2000, st_prev := st_current (dk_state d),
     st_current := LED_SETUP, st_led := ?l'\<rparr>"
  have "setState (led_setState (env_events env)) now LED_SETUP (dk_state d) = Inr (st_current (dk_state d), ?s)"
    using assms(2,3) e
    by (simp add: setState_def remember_state_def led_call_def led_setState_def Let_def LED_SETUP_BIT_def state_bits_def)
  then show thesis by (intro that [of ?s]) (simp_all add: dock_setState_def getLedMaxBrightness_def)
qed

text \<open>
  \<open>set_brightness\<close> with a value from 0 to 255 sets the LED controller and the stored setting to it
  and shows the set-up pattern. With any other value the answer is the same, the controller
  keeps its brightness, and the setting becomes the default: they differ until the next start.
\<close>

theorem set_brightness_agrees:
  assumes "dock_ready env d" "store_ready env d" and "member_string req msgType = msgTypeDock"
    and "member_string req msgCommand = ''set_brightness''" "jd_has req ''status_led''" "\<not> jd_has req ''eth_led''"
    and "st_current (dk_state d) \<noteq> LED_SETUP" "st_prev (dk_state d) \<noteq> LED_SETUP"
  shows "\<exists>d' doc. process_document env now source True cid req d = Inr (True, d', [ApiReply doc]) \<and>
     map_of doc msgCode = Some (JInt 200) \<and> getState (dk_state d') = LED_SETUP \<and>
     (let b = jd_int req ''status_led''; led' = getLedMaxBrightness (st_led (dk_state d')) in
      if 0 \<le> b \<and> b \<le> 255 then led' = b \<and> getLedBrightness (env_nvs env) (dk_config d') = b
      else led' = getLedMaxBrightness (st_led (dk_state d)) \<and>
           getLedBrightness (env_nvs env) (dk_config d') = defaultLedBrightness)"
proof -
  let ?ops = "env_nvs env" and ?b = "jd_int req ''status_led''"
  obtain s where set: "dock_setState env now LED_SETUP d = Inr (d\<lparr>dk_state := s\<rparr>)"
    and s: "st_current s = LED_SETUP"
      "getLedMaxBrightness (st_led s) = getLedMaxBrightness (st_led (dk_state d))"
    by (rule led_setup_state [OF assms(1,7,8)])
  let ?d' = "(map_led (setLedMaxBrightness ?b) (d\<lparr>dk_state := s\<rparr>))
     \<lparr>dk_config := setLedBrightness ?ops ?b (dk_config d)\<rparr>"
  let ?doc = "response_start msgTypeDock ''set_brightness'' req"
  have "brightness_led_step env now req d = Inr ?d'"
    using assms(5) by (simp add: brightness_led_step_def set map_led_def Let_def)
  then have "set_brightness env now req ?doc d = Inr (Respond ?doc, ?d', [])"
    using assms(5,6) by (simp add: set_brightness_def brightness_eth_step_def code_unless_def)
  then have run: "process_document env now source True cid req d = Inr (True, ?d', [ApiReply ?doc])"
    using assms(3,4) process_document_command [of req env now source cid d] by (simp add: run_command_def)
  have use: "cfg_usable ?ops prefGeneral (dk_config d)" using assms(2) by (simp add: store_ready_def)
  have "getLedBrightness ?ops (dk_config ?d') = clampBrightness ?b"
    using led_brightness.get_put [OF use, of ?b] by simp
  moreover have "getLedMaxBrightness (st_led (dk_state ?d')) =
      (if 0 \<le> ?b \<and> ?b \<le> 255 then ?b else getLedMaxBrightness (st_led (dk_state d)))"
    using s(2) by (simp add: map_led_def setLedMaxBrightness_def getLedMaxBrightness_def)
  moreover have "getState (dk_state ?d') = LED_SETUP" using s(1) by (simp add: map_led_def getState_def)
  moreover have "map_of ?doc msgCode = Some (JInt 200)" by (simp add: response_start_def Let_def)
  ultimately show ?thesis
    using run by (intro exI [of _ ?d'] exI [of _ ?doc]) (auto simp: Let_def clampBrightness_def)
qed

text \<open>
  \<open>set_logging\<close> that only switches syslog on or off does so, in the setting and in the logger, and
  answers with the error code 400.
\<close>

theorem set_logging_enable_code_400:
  assumes "store_ready env d" and "member_string req msgType = msgTypeDock"
    and "member_string req msgCommand = ''set_logging''" and "jd_has req ''syslog_enabled''"
    and "\<not> jd_has req ''log_level''" "\<not> jd_has req ''syslog_server''"
  shows "\<exists>d' doc. process_document env now source True cid req d = Inr (True, d', [ApiReply doc]) \<and>
     map_of doc msgCode = Some (JInt 400) \<and>
     isSyslogEnabled (env_nvs env) (dk_config d') = jd_bool req ''syslog_enabled'' \<and>
     log_syslog (dk_log d') = jd_bool req ''syslog_enabled''"
proof -
  let ?doc = "doc_set msgCode (JInt 400) (response_start msgTypeDock ''set_logging'' req)"
  let ?d' = "logging_enable_step env req d"
  have run: "process_document env now source True cid req d = Inr (True, ?d', [ApiReply ?doc])"
    using assms(2,3,5,6) process_document_command [of req env now source cid d]
    by (simp add: run_command_def set_logging_def logging_level_step_def logging_server_step_def)
  have "isSyslogEnabled (env_nvs env) (dk_config ?d') = jd_bool req ''syslog_enabled''"
    using assms(1,4)
    by (simp add: logging_enable_step_def Let_def enableSyslog_def store_ready_def cfg_usable_def
        isSyslogEnabled_def getBoolSetting_def cfg_lookup_try)
  moreover have "log_syslog (dk_log ?d') = jd_bool req ''syslog_enabled''"
    using assms(4) by (simp add: logging_enable_step_def Let_def log_enableSyslog_server_def log_enableSyslog_def)
  ultimately show ?thesis using run by (intro exI [of _ ?d'] exI [of _ ?doc]) simp
qed

section \<open>Concrete requests\<close>

text \<open>A document with these members, as ArduinoJson reads it: a missing member is null, 0 or false.\<close>

definition doc_of :: "(string \<times> json_val) list \<Rightarrow> json_doc" where
  "doc_of ms = \<lparr>
     jd_has = (\<lambda>k. map_of ms k \<noteq> None),
     jd_string = (\<lambda>k. case map_of ms k of Some (JStr t) \<Rightarrow> t | _ \<Rightarrow> ''null''),
     jd_int = (\<lambda>k. case map_of ms k of Some (JInt i) \<Rightarrow> i | _ \<Rightarrow> 0),
     jd_uint16 = (\<lambda>k. case map_of ms k of Some (JInt i) \<Rightarrow> word_of_int i | _ \<Rightarrow> 0),
     jd_bool = (\<lambda>k. case map_of ms k of Some (JBool b) \<Rightarrow> b | _ \<Rightarrow> False)\<rparr>"

lemma doc_of_simps:
  "jd_has (doc_of ms) k \<longleftrightarrow> map_of ms k \<noteq> None"
  "jd_string (doc_of ms) k = (case map_of ms k of Some (JStr t) \<Rightarrow> t | _ \<Rightarrow> ''null'')"
  "jd_int (doc_of ms) k = (case map_of ms k of Some (JInt i) \<Rightarrow> i | _ \<Rightarrow> 0)"
  "jd_bool (doc_of ms) k = (case map_of ms k of Some (JBool b) \<Rightarrow> b | _ \<Rightarrow> False)"
  "member_string (doc_of ms) k =
     (case map_of ms k of Some (JStr t) \<Rightarrow> t | None \<Rightarrow> [] | _ \<Rightarrow> ''null'')"
  by (simp_all add: doc_of_def member_string_def split: option.split json_val.split)

definition auth_doc :: json_doc where
  "auth_doc = doc_of [(''type'', JStr ''auth''), (''token'', JStr ''1234''), (''id'', JInt 7)]"

definition ex_env ::
  "(string \<times> string \<Rightarrow> nvs_value option, IRSendMessage list, IrResponse list, u32) env" where
  "ex_env = \<lparr>env_board = board_5_4, env_hasEthLed = True, env_hwRevision = ''5.4'', env_nvs = map_nvs,
     env_events = word_eventgroup, env_queue = list_queue 1, env_responses = list_queue 5,
     env_parse = (\<lambda>t. if t = ''A'' then Some auth_doc
                      else if t = ''R'' then Some (doc_of [(''type'', JStr ''dock''), (''command'', JStr ''reset'')])
                      else None)\<rparr>"

definition ex_dock ::
  "(string \<times> string \<Rightarrow> nvs_value option, IRSendMessage list, IrResponse list, u32) dock" where
  "ex_dock = \<lparr>dk_config = ex_config, dk_state = ex_state, dk_net = net_start, dk_ir = ex_ir, dk_log = log_init 0,
     dk_authWsClients = {}, dk_prevState = None\<rparr>"

lemma ex_env_fields:
  "env_nvs ex_env = map_nvs" "env_events ex_env = word_eventgroup" "dk_config ex_dock = ex_config"
  "dk_state ex_dock = ex_state" "dk_authWsClients ex_dock = {}" "dk_prevState ex_dock = None"
  by (simp_all add: ex_env_def ex_dock_def)

lemma ex_dock_ready: "dock_ready ex_env ex_dock"
  using ex_state_ready by (simp add: dock_ready_def ex_env_fields)

lemma ex_store_ready: "store_ready ex_env ex_dock"
  by (simp add: store_ready_def cfg_usable_def ex_env_fields map_nvs_spec ex_config_open)

lemma ex_token: "getToken map_nvs ex_config = ''1234''"
  using ex_config_open [of prefGeneral]
  by (simp add: getter_defs cfg_lookup_def) (simp add: map_nvs_def ex_config_def)

text \<open>A client that only connects and asks for a reset gets nothing done.\<close>

theorem api_needs_token_witness:
  "\<exists>acts. ws_events ex_env [(0, 3, WsConnected), (9, 3, WsText ''R''), (9, 3, WsText ''?'')] ex_dock =
     Inr (ex_dock, acts) \<and> list_all harmless acts"
  by (rule api_needs_token)
    (simp add: ex_env_fields presents_token_def ex_token, simp add: ex_env_def doc_of_def member_string_def)

theorem api_authentication_witness:
  "\<exists>d' acts. ws_event ex_env 0 3 (WsText ''A'') ex_dock = Inr (d', acts) \<and> dk_authWsClients d' = {3}"
proof -
  have parse: "env_parse ex_env ''A'' = Some auth_doc" by (simp add: ex_env_def)
  have kind: "member_string auth_doc msgType = ''auth''" by (simp add: auth_doc_def doc_of_def member_string_def)
  have "\<exists>r. ws_event ex_env 0 3 (WsText ''A'') ex_dock = Inr r"
    by (simp add: ws_event_def processWsRequest_def processRequest_cases parse process_document_def kind
        code_of_def case_prod_unfold)
  then obtain d' acts where run: "ws_event ex_env 0 3 (WsText ''A'') ex_dock = Inr (d', acts)" by auto
  from api_authentication [OF run] show ?thesis
    by (intro exI [of _ d'] exI [of _ acts])
      (simp add: run ex_env_fields session_step_def presents_token_def parse kind ex_token, simp add: auth_doc_def doc_of_def code_of_def)
qed


abbreviation dock_request :: "string \<Rightarrow> (string \<times> json_val) list \<Rightarrow> json_doc" where
  "dock_request c ms \<equiv> doc_of ([(''type'', JStr ''dock''), (''command'', JStr c)] @ ms)"

theorem api_only_fault_witness:
  "\<exists>f. process_document ex_env 0 Uart True (- 1) (dock_request ''rgb_test_stop'' []) ex_dock = Inl f"
  using api_only_fault [OF ex_dock_ready, of 0 Uart True "- 1" "dock_request ''rgb_test_stop'' []"]
  by (simp add: ex_env_fields doc_of_simps)

theorem set_config_applied_witness:
  "\<exists>d' acts doc. process_document ex_env 0 WebSocket True 3
      (dock_request ''set_config'' [(''friendly_name'', JStr ''Kitchen''), (''token'', JStr ''4711'')]) ex_dock =
      Inr (True, d', acts @ [ApiReply doc]) \<and>
     map_of doc msgCode = Some (JInt 200) \<and> getToken map_nvs (dk_config d') = ''4711''"
  using set_config_applied [OF ex_store_ready,
      of "dock_request ''set_config'' [(''friendly_name'', JStr ''Kitchen''), (''token'', JStr ''4711'')]" 0 WebSocket 3]
  by (auto simp: ex_env_fields doc_of_simps)

theorem set_config_error_code_200_witness:
  "\<exists>d' acts doc. process_document ex_env 0 WebSocket True 3
      (dock_request ''set_config'' [(''friendly_name'', JStr ''Kitchen''), (''token'', JStr (replicate 41 (CHR ''x'')))])
      ex_dock = Inr (True, d', acts @ [ApiReply doc]) \<and>
     map_of doc msgCode = Some (JInt 200) \<and> getToken map_nvs (dk_config d') = ''1234''"
  using set_config_error_code_200 [OF ex_store_ready,
      of "dock_request ''set_config''
            [(''friendly_name'', JStr ''Kitchen''), (''token'', JStr (replicate 41 (CHR ''x'')))]" 0 WebSocket 3]
  by (auto simp: ex_env_fields ex_token doc_of_simps)

theorem set_brightness_agrees_witness:
  "\<exists>d' doc. process_document ex_env 0 WebSocket True 3
      (dock_request ''set_brightness'' [(''status_led'', JInt 300)]) ex_dock = Inr (True, d', [ApiReply doc]) \<and>
     map_of doc msgCode = Some (JInt 200) \<and> getLedMaxBrightness (st_led (dk_state d')) = 127 \<and>
     getLedBrightness map_nvs (dk_config d') = 50"
proof -
  have "getLedMaxBrightness (st_led ex_state) = 127"
    by (simp add: ex_state_def State_init_def led_init_def led_start_def getLedMaxBrightness_def)
  then show ?thesis
    using set_brightness_agrees [OF ex_dock_ready ex_store_ready,
        of "dock_request ''set_brightness'' [(''status_led'', JInt 300)]" 0 WebSocket 3]
    by (auto simp: ex_env_fields ex_state_fields defaultLedBrightness_def doc_of_simps Let_def)
qed

theorem set_logging_enable_code_400_witness:
  "\<exists>d' doc. process_document ex_env 0 WebSocket True 3
      (dock_request ''set_logging'' [(''syslog_enabled'', JBool True)]) ex_dock = Inr (True, d', [ApiReply doc]) \<and>
     map_of doc msgCode = Some (JInt 400) \<and> isSyslogEnabled map_nvs (dk_config d')"
  using set_logging_enable_code_400 [OF ex_store_ready,
      of "dock_request ''set_logging'' [(''syslog_enabled'', JBool True)]" 0 WebSocket 3]
  by (auto simp: ex_env_fields doc_of_simps)

end
