(* ===== verification/MainLoop.thy ===== *)
theory MainLoop
  imports ApiCommands ServiceOta "HOL-Library.Signed_Division"
begin

text \<open>
  \<open>src/src/main.cpp\<close> with the two small services it drives, \<open>src/lib/service_mdns\<close> and
  \<open>src/lib/service_bluetooth\<close>: the start of the dock, the main loop, the charging sensor and the
  button. Inputs of a round (sensor, clock, received data) are arguments; what reaches devices and
  libraries is an action. A call that restarts the ESP does not return and ends the round.
\<close>

section \<open>Data\<close>

datatype mdns_action = MdnsEnd | MdnsDelay nat | MdnsBegin string | MdnsService string | MdnsTxt string string

datatype main_action =
    MainApi api_action
  | MainNet net_action
  | MainMdns mdns_action
  | MainOta ota_action
  | MainIr ir_action
  | MainBtStart string
  | MainBtStop
  | MainRestart

text \<open>The objects the program works with, and the variables of \<open>main.cpp\<close> and of the mDNS loop.\<close>

record ('n, 'q, 'a, 'e) main =
  mn_dock :: "('n, 'q, 'a, 'e) dock"
  mn_buttonPressed :: bool
  mn_resetMarker :: bool
  mn_buttonTimerSet :: int
  mn_counter :: int
  mn_mdnsLast :: u32

type_synonym ('n, 'q, 'a, 'e) main_result = "fault + ('n, 'q, 'a, 'e) main \<times> main_action list"

definition TIMER_RESET_TIME :: int where "TIMER_RESET_TIME = 9223372036854775807"

definition map_dock ::
  "(('n, 'q, 'a, 'e) dock \<Rightarrow> ('n, 'q, 'a, 'e) dock) \<Rightarrow> ('n, 'q, 'a, 'e) main \<Rightarrow> ('n, 'q, 'a, 'e) main" where
  "map_dock f m = m\<lparr>mn_dock := f (mn_dock m)\<rparr>"

section \<open>Button and charging sensor\<close>

text \<open>The interrupt: \<open>low\<close> is the level of the pin (pressed), \<open>t\<close> the time in microseconds.\<close>

definition button_ms :: "int \<Rightarrow> int \<Rightarrow> int" where
  "button_ms t t0 = sint (word_of_int ((t - t0) sdiv 1000) :: u32)"

definition handleButtonPress :: "bool \<Rightarrow> int \<Rightarrow> ('n, 'q, 'a, 'e) main \<Rightarrow> ('n, 'q, 'a, 'e) main" where
  "handleButtonPress low t m =
     (if low \<and> \<not> mn_buttonPressed m then m\<lparr>mn_buttonPressed := True, mn_buttonTimerSet := t\<rparr>
      else if \<not> low \<and> mn_buttonPressed m then
        (let elapsed = button_ms t (mn_buttonTimerSet m);
             m1 = m\<lparr>mn_buttonPressed := False, mn_buttonTimerSet := TIMER_RESET_TIME\<rparr>
         in if elapsed > 3000 then m1\<lparr>mn_resetMarker := True\<rparr> else m1)
      else m)"

definition main_setState ::
  "('n, 'q, 'a, 'e) env \<Rightarrow> States \<Rightarrow> ('n, 'q, 'a, 'e) main \<Rightarrow> fault + ('n, 'q, 'a, 'e) main" where
  "main_setState env x m = bind_res (dock_setState env 0 x (mn_dock m)) (\<lambda>d. Inr (m\<lparr>mn_dock := d\<rparr>))"

definition main_state :: "('n, 'q, 'a, 'e) main \<Rightarrow> States" where
  "main_state m = getState (dk_state (mn_dock m))"

definition handleCharging ::
  "('n, 'q, 'a, 'e) env \<Rightarrow> int \<Rightarrow> ('n, 'q, 'a, 'e) main \<Rightarrow> fault + ('n, 'q, 'a, 'e) main" where
  "handleCharging env value m =
     (let m1 = m\<lparr>mn_counter := mn_counter m + 1\<rparr> in
      if mn_counter m1 = 4000 then
        bind_res
          (if value > 300 \<and> main_state m1 \<noteq> NORMAL_CHARGING then main_setState env NORMAL_CHARGING m1
           else if value < 300 \<and> main_state m1 = NORMAL_CHARGING then main_setState env NORMAL m1
           else Inr m1)
          (\<lambda>m2. Inr (m2\<lparr>mn_counter := 0\<rparr>))
      else Inr m1)"

definition setupChargingPin ::
  "'e eventgroup_ops \<Rightarrow> int \<Rightarrow> 'e led state \<Rightarrow> fault + 'e led state" where
  "setupChargingPin eops value s = (if value > 200 then net_setState eops NORMAL_CHARGING s else Inr s)"

section \<open>mDNS and Bluetooth\<close>

definition mdns_addFriendlyName :: "string \<Rightarrow> mdns_action" where
  "mdns_addFriendlyName name = MdnsTxt ''name'' name"

text \<open>\<open>ok\<close> is the result of \<open>MDNS.begin\<close>; the constant called \<open>fiveMinutes\<close> is one minute.\<close>

definition fiveMinutes :: u32 where "fiveMinutes = 60000"

definition mdns_loop ::
  "'n nvs_ops \<Rightarrow> 'n config \<Rightarrow> u32 \<Rightarrow> bool \<Rightarrow> u32 \<Rightarrow> u32 \<times> mdns_action list" where
  "mdns_loop nops c now ok lastSampleTime =
     (if now - lastSampleTime \<ge> fiveMinutes then
        (lastSampleTime + fiveMinutes,
         [MdnsEnd, MdnsDelay 100, MdnsBegin (getHostName c)] @
         (if \<not> ok then []
          else [MdnsService ''_uc-dock'', mdns_addFriendlyName (getFriendlyName nops c),
                MdnsTxt ''ver'' (getSoftwareVersion c), MdnsTxt ''model'' (getModel c),
                MdnsTxt ''rev'' (cfg_hwRevision c)]))
      else (lastSampleTime, []))"

text \<open>A line of the Bluetooth serial connection, as the serial line is read in \<open>ServiceApi\<close>.\<close>

definition bluetooth_handle ::
  "('n, 'q, 'a, 'e) env \<Rightarrow> u32 \<Rightarrow> string \<Rightarrow> string \<Rightarrow> ('n, 'q, 'a, 'e) dock \<Rightarrow>
   fault + ('n, 'q, 'a, 'e) dock \<times> api_action list" where
  "bluetooth_handle env now received stale d =
     (let line = take 1023 (takeWhile (\<lambda>c. c \<noteq> CHR ''\<newline>'') received) in
      if line = [] then Inr (d, [])
      else bind_res
             (processRequest env now (Some (takeWhile (\<lambda>c. code_of c \<noteq> 0) (line @ CHR ''0'' # stale))) Bluetooth
                True (-1) d)
             (\<lambda>(_, d', acts). Inr (d', acts)))"

section \<open>Start\<close>

text \<open>The network events that arrive before the set-up looks at the network.\<close>

fun early_events ::
  "('n, 'q, 'a, 'e) env \<Rightarrow> 'n config \<Rightarrow> (u32 \<times> net_event) list \<Rightarrow> net \<Rightarrow> 'e led state \<Rightarrow> 'e net_result" where
  "early_events env c [] n s = Inr (n, s, [])"
| "early_events env c ((now, ev) # evs) n s =
     bind_res (WiFiEvent (env_board env) (env_events env) (env_nvs env) c now ev n s) (\<lambda>(n1, s1, acts1).
     bind_res (early_events env c evs n1 s1) (\<lambda>(n2, s2, acts2). Inr (n2, s2, acts1 @ acts2)))"

definition choose_network ::
  "('n, 'q, 'a, 'e) env \<Rightarrow> 'n config \<Rightarrow> net \<Rightarrow> 'e led state \<Rightarrow> 'e net_result" where
  "choose_network env c n s =
     (let eops = env_events env; nops = env_nvs env in
      if net_ethConnected n
      then bind_res (net_setState eops CONN_SUCCESS s) (\<lambda>s1. setWifiEnabled eops nops c False n s1)
      else if net_ethLinkUp n
      then bind_res (net_setState eops CONNECTING s) (\<lambda>s1. setWifiEnabled eops nops c False n s1)
      else if \<not> (getWifiSsid nops c = [] \<or> getWifiPassword nops c = [])
      then bind_res (net_setState eops CONNECTING s) (\<lambda>s1. setWifiEnabled eops nops c True n s1)
      else setWifiEnabled eops nops c False n s)"

definition start_syslog :: "'n nvs_ops \<Rightarrow> 'n config \<Rightarrow> UCLog \<Rightarrow> UCLog" where
  "start_syslog nops c l =
     (if isSyslogEnabled nops c \<and> getSyslogServer nops c \<noteq> []
      then log_enableSyslog_server (getHostName c) (getSyslogServer nops c) (getSyslogServerPort nops c) l else l)"

text \<open>What FreeRTOS returns for the objects the services create.\<close>

record ('q, 'a, 'e) created =
  cr_ledGroup :: 'e
  cr_irQueue :: "'q option"
  cr_irGroup :: "'e option"
  cr_irResponses :: "'a option"

definition dock_setup ::
  "('n, 'q, 'a, 'e) env \<Rightarrow> ('q, 'a, 'e) created \<Rightarrow> 'n config \<Rightarrow> UCLog \<Rightarrow> int \<Rightarrow> (u32 \<times> net_event) list \<Rightarrow>
   ('n, 'q, 'a, 'e) main_result" where
  "dock_setup env cr c log0 value evs =
     (let nops = env_nvs env; eops = env_events env;
          log1 = setFilterLevel (getLogLevel nops c) log0;
          led = led_init (cr_ledGroup cr) (getTestMode nops c)
                  (setLedMaxBrightness (getLedBrightness nops c) led_start)
      in bind_res (net_setState eops SETUP (State_init led)) (\<lambda>s1.
         bind_res (setupChargingPin eops value s1) (\<lambda>s2.
         case net_init (env_board env) nops c net_start of (n1, acts1) \<Rightarrow>
         case ir_init (cr_irQueue cr) (cr_irGroup cr) (cr_irResponses cr) (getIrSendCore nops c)
                (getIrSendPriority nops c) (getIrLearnCore nops c) (getIrLearnPriority nops c) ir_start of
           (ir, irActs) \<Rightarrow>
         bind_res (early_events env c evs n1 s2) (\<lambda>(n2, s3, acts2).
         bind_res (choose_network env c n2 s3) (\<lambda>(n3, s4, acts3).
           Inr (\<lparr>mn_dock = \<lparr>dk_config = c, dk_state = s4, dk_net = n3, dk_ir = ir,
                    dk_log = start_syslog nops c log1, dk_authWsClients = {}, dk_prevState = None\<rparr>,
                 mn_buttonPressed = False, mn_resetMarker = False, mn_buttonTimerSet = TIMER_RESET_TIME,
                 mn_counter = 0, mn_mdnsLast = 0 - fiveMinutes\<rparr>,
                [MainApi (ApiLed (led_setEthLedBrightness 0 led))] @ map MainNet acts1 @ map MainIr irActs @
                map MainNet (acts2 @ acts3) @
                [if getState s4 = SETUP then MainBtStart (getHostName c) else MainBtStop]))))))"

section \<open>The main loop\<close>

record main_input =
  mi_charge :: int
  mi_ws :: "(u32 \<times> u8 \<times> ws_event) list"
  mi_now :: u32
  mi_serial :: string
  mi_serialStale :: string
  mi_bluetooth :: string
  mi_bluetoothStale :: string
  mi_net :: loop_input
  mi_mdnsTime :: u32
  mi_mdnsOk :: bool
  mi_ota :: "ota_action list" \<comment> \<open>what the update service does in its \<open>loop\<close> (theory \<open>ServiceOta\<close>)\<close>
  mi_clock :: "u32 \<times> u32 \<times> u32"

fun is_restart :: "main_action \<Rightarrow> bool" where
  "is_restart (MainApi ApiReboot) = True"
| "is_restart (MainNet NetReboot) = True"
| "is_restart (MainOta RestartEsp) = True"
| "is_restart MainRestart = True"
| "is_restart _ = False"

definition main_then ::
  "('n, 'q, 'a, 'e) main_result \<Rightarrow> (('n, 'q, 'a, 'e) main \<Rightarrow> ('n, 'q, 'a, 'e) main_result) \<Rightarrow>
   ('n, 'q, 'a, 'e) main_result" where
  "main_then r f =
     bind_res r (\<lambda>(m, acts).
       if list_ex is_restart acts then Inr (m, acts)
       else bind_res (f m) (\<lambda>(m', acts'). Inr (m', acts @ acts')))"

definition api_step ::
  "('n, 'q, 'a, 'e) env \<Rightarrow> main_input \<Rightarrow> ('n, 'q, 'a, 'e) main \<Rightarrow> ('n, 'q, 'a, 'e) main_result" where
  "api_step env i m =
     bind_res (api_loop env (mi_ws i) (mi_now i) (mi_serial i) (mi_serialStale i) (mn_dock m))
       (\<lambda>(d, acts). Inr (m\<lparr>mn_dock := d\<rparr>, map MainApi acts))"

definition setup_mode_step ::
  "('n, 'q, 'a, 'e) env \<Rightarrow> main_input \<Rightarrow> ('n, 'q, 'a, 'e) main \<Rightarrow> ('n, 'q, 'a, 'e) main_result" where
  "setup_mode_step env i m =
     bind_res (bluetooth_handle env (mi_now i) (mi_bluetooth i) (mi_bluetoothStale i) (mn_dock m))
       (\<lambda>(d, acts). Inr (m\<lparr>mn_dock := d\<rparr>, map MainApi acts))"

definition network_step ::
  "('n, 'q, 'a, 'e) env \<Rightarrow> main_input \<Rightarrow> ('n, 'q, 'a, 'e) main \<Rightarrow> ('n, 'q, 'a, 'e) main_result" where
  "network_step env i m =
     (let d = mn_dock m in
      bind_res (handleLoop (env_events env) (env_nvs env) (dk_config d) (mi_net i) (dk_net d) (dk_state d))
        (\<lambda>(n, s, acts). Inr (m\<lparr>mn_dock := d\<lparr>dk_net := n, dk_state := s\<rparr>\<rparr>, map MainNet acts)))"

definition mdns_step ::
  "('n, 'q, 'a, 'e) env \<Rightarrow> main_input \<Rightarrow> ('n, 'q, 'a, 'e) main \<Rightarrow> ('n, 'q, 'a, 'e) main_result" where
  "mdns_step env i m =
     (case mdns_loop (env_nvs env) (dk_config (mn_dock m)) (mi_mdnsTime i) (mi_mdnsOk i) (mn_mdnsLast m) of
        (t, acts) \<Rightarrow> Inr (m\<lparr>mn_mdnsLast := t\<rparr>, map MainMdns acts))"

text \<open>The update service sets the state when an upload starts.\<close>

fun run_ota_actions ::
  "('n, 'q, 'a, 'e) env \<Rightarrow> ota_action list \<Rightarrow> ('n, 'q, 'a, 'e) dock \<Rightarrow> fault + ('n, 'q, 'a, 'e) dock" where
  "run_ota_actions env [] d = Inr d"
| "run_ota_actions env (a # as) d =
     bind_res (if a = SetStateOTA then dock_setState env 0 OTA d else Inr d) (run_ota_actions env as)"

definition ota_step ::
  "('n, 'q, 'a, 'e) env \<Rightarrow> main_input \<Rightarrow> ('n, 'q, 'a, 'e) main \<Rightarrow> ('n, 'q, 'a, 'e) main_result" where
  "ota_step env i m =
     bind_res (run_ota_actions env (mi_ota i) (mn_dock m))
       (\<lambda>d. Inr (m\<lparr>mn_dock := d\<rparr>, map MainOta (mi_ota i)))"

definition services_step ::
  "('n, 'q, 'a, 'e) env \<Rightarrow> main_input \<Rightarrow> ('n, 'q, 'a, 'e) main \<Rightarrow> ('n, 'q, 'a, 'e) main_result" where
  "services_step env i m =
     (if main_state m = SETUP then setup_mode_step env i m
      else main_then (network_step env i m) (\<lambda>m1.
           main_then (mdns_step env i m1) (\<lambda>m2. ota_step env i m2)))"

definition reset_step ::
  "('n, 'q, 'a, 'e) env \<Rightarrow> ('n, 'q, 'a, 'e) main \<Rightarrow> ('n, 'q, 'a, 'e) main_result" where
  "reset_step env m =
     (if mn_resetMarker m then
        bind_res (main_setState env ERROR m) (\<lambda>m1.
          Inr (map_dock (\<lambda>d. d\<lparr>dk_config := Config_reset (env_nvs env) (dk_config d)\<rparr>) m1, [MainRestart]))
      else Inr (m, []))"

definition state_step ::
  "('n, 'q, 'a, 'e) env \<Rightarrow> main_input \<Rightarrow> ('n, 'q, 'a, 'e) main \<Rightarrow> ('n, 'q, 'a, 'e) main_result" where
  "state_step env i m =
     (case mi_clock i of (t1, t2, t3) \<Rightarrow>
        bind_res (state_loop (led_setState (env_events env)) t1 t2 t3 (dk_state (mn_dock m)))
          (\<lambda>s. Inr (map_dock (\<lambda>d. d\<lparr>dk_state := s\<rparr>) m, [])))"

definition main_loop ::
  "('n, 'q, 'a, 'e) env \<Rightarrow> main_input \<Rightarrow> ('n, 'q, 'a, 'e) main \<Rightarrow> ('n, 'q, 'a, 'e) main_result" where
  "main_loop env i m =
     bind_res (handleCharging env (mi_charge i) m) (\<lambda>m1.
     main_then (api_step env i m1) (\<lambda>m2.
     main_then (services_step env i m2) (\<lambda>m3.
     main_then (reset_step env m3) (\<lambda>m4. state_step env i m4))))"

section \<open>The button\<close>

lemma button_ms_exact:
  assumes "t0 \<le> t" "t - t0 < 2147483648000"
  shows "button_ms t t0 = (t - t0) div 1000"
proof -
  have pos: "0 \<le> (t - t0) div 1000" and small: "(t - t0) div 1000 < 2 ^ 31"
    using assms by simp_all
  have "(t - t0) sdiv 1000 = (t - t0) div 1000" using assms(1) by (simp add: signed_divide_int_def sgn_if)
  moreover have "sint (word_of_int k :: u32) = k" if "0 \<le> k" "k < 2 ^ 31" for k
    using that by (simp add: sint_uint uint_word_of_int signed_take_bit_int_eq_self)
  ultimately show ?thesis using pos small by (simp add: button_ms_def)
qed

lemma button_bounce: "mn_buttonPressed m \<Longrightarrow> fold (handleButtonPress True) ts m = m"
  by (induction ts) (simp_all add: handleButtonPress_def)

lemma button_held:
  assumes "\<not> mn_buttonPressed m" "t0 \<le> t1" "t1 - t0 < 2147483648000"
  shows "handleButtonPress False t1 (fold (handleButtonPress True) (t0 # ts) m) =
     m\<lparr>mn_buttonPressed := False, mn_buttonTimerSet := TIMER_RESET_TIME,
       mn_resetMarker := (mn_resetMarker m \<or> 3001000 \<le> t1 - t0)\<rparr>"
proof -
  let ?p = "m\<lparr>mn_buttonPressed := True, mn_buttonTimerSet := t0\<rparr>"
  have "fold (handleButtonPress True) (t0 # ts) m = ?p"
    using assms(1) button_bounce [of ?p ts] by (simp add: handleButtonPress_def)
  moreover have "3000 < (t1 - t0) div 1000 \<longleftrightarrow> 3001000 \<le> t1 - t0" by linarith
  ultimately show ?thesis
    using assms(1) button_ms_exact [OF assms(2,3)] by (auto simp: handleButtonPress_def Let_def)
qed

lemma setState_current:
  assumes "dock_ready env d" and "x \<notin> {IR_LEARN_OK, IR_LEARN_FAILED}"
  obtains s where "dock_setState env now x d = Inr (d\<lparr>dk_state := s\<rparr>)" "led_ready (env_events env) (st_led s)"
    "st_current s = x"
proof -
  obtain s where s: "dock_setState env now x d = Inr (d\<lparr>dk_state := s\<rparr>)" "led_ready (env_events env) (st_led s)"
    by (rule dock_setState_ready [OF assms(1)])
  then obtain p where "setState (led_setState (env_events env)) now x (dk_state d) = Inr (p, s)"
    by (cases "setState (led_setState (env_events env)) now x (dk_state d)")
       (auto simp: dock_setState_def dest: arg_cong [of _ _ dk_state])
  then have "st_current s = x"
    using assms(2) by (auto simp: setState_def Let_def bind_res_Inr_iff led_call_def split: if_splits)
  with s that show thesis by blast
qed


section \<open>Charging\<close>

text \<open>
  The charging sensor is read in every 4000th round. A value above 300 makes charging the
  current state from whatever state the dock was in, one below 300 ends it, 300 itself changes
  nothing; in the other rounds nothing changes.
\<close>

theorem charging_state:
  assumes "dock_ready env (mn_dock m)"
  shows "\<exists>m'. handleCharging env value m = Inr m' \<and> mn_counter m' = (if mn_counter m = 3999 then 0 else mn_counter m + 1) \<and>
     main_state m' =
       (if mn_counter m = 3999 \<and> value > 300 then NORMAL_CHARGING
        else if mn_counter m = 3999 \<and> value < 300 \<and> main_state m = NORMAL_CHARGING then NORMAL
        else main_state m)"
proof -
  let ?m = "m\<lparr>mn_counter := mn_counter m + 1\<rparr>"
  have set: "\<exists>m'. main_setState env x ?m = Inr m' \<and> main_state m' = x \<and> mn_counter m' = mn_counter m + 1"
    if x: "x \<notin> {IR_LEARN_OK, IR_LEARN_FAILED}" for x
  proof -
    obtain s where "dock_setState env 0 x (mn_dock m) = Inr ((mn_dock m)\<lparr>dk_state := s\<rparr>)" "st_current s = x"
      by (rule setState_current [OF assms x])
    then show ?thesis by (simp add: main_setState_def main_state_def getState_def)
  qed
  obtain c where c: "main_setState env NORMAL_CHARGING ?m = Inr c" "main_state c = NORMAL_CHARGING"
    using set [of NORMAL_CHARGING] by auto
  obtain n where n: "main_setState env NORMAL ?m = Inr n" "main_state n = NORMAL"
    using set [of NORMAL] by auto
  have same: "main_state (x\<lparr>mn_counter := k\<rparr>) = main_state x" for x :: "('a, 'b, 'c, 'd) main" and k
    by (simp add: main_state_def)
  show ?thesis using c n by (auto simp: handleCharging_def Let_def same)
qed

section \<open>The start\<close>

lemma net_setState_current:
  assumes "led_ready eops (st_led s)" and "x \<notin> {IR_LEARN_OK, IR_LEARN_FAILED}"
  obtains s' where "net_setState eops x s = Inr s'" "led_ready eops (st_led s')" "st_current s' = x"
proof -
  obtain s' where s': "net_setState eops x s = Inr s'" "led_ready eops (st_led s')"
    by (rule net_setState_ready [OF assms(1)])
  then have "st_current s' = x"
    using assms(2) by (auto simp: net_setState_def setState_def Let_def bind_res_Inr_iff led_call_def split: if_splits)
  with s' that show thesis by blast
qed

lemma setWifi_connect_current:
  assumes "led_ready eops (st_led s)" and "st_current s = CONNECTING"
  obtains s' acts where "setWifiEnabled eops nops c enabled n s = Inr (n\<lparr>net_wifiEnabled := enabled\<rparr>, s', acts)"
    "st_current s' = CONNECTING"
proof (cases enabled)
  case True
  obtain s' where "net_setState eops CONNECTING s = Inr s'" "st_current s' = CONNECTING"
    by (rule net_setState_current [OF assms(1), of CONNECTING]) simp_all
  with True show thesis by (intro that) (simp_all add: setWifiEnabled_def net_connect_def)
next
  case False
  with assms(2) show thesis by (intro that) (simp_all add: setWifiEnabled_def)
qed

text \<open>
  Without Ethernet the dock offers the Bluetooth set-up after a start exactly when it has no
  WiFi credentials and the charging sensor does not see a remote: a remote on the dock moves the
  state from set-up to charging, and Bluetooth is switched off.
\<close>

theorem start_offers_bluetooth:
  assumes "eventgroup_spec (env_events env)" "eg_get (env_events env) (cr_ledGroup cr) = 0"
  shows "\<exists>m acts. dock_setup env cr c log0 value [] = Inr (m, acts) \<and>
     (MainBtStart (getHostName c) \<in> set acts \<longleftrightarrow>
        value \<le> 200 \<and> (getWifiSsid (env_nvs env) c = [] \<or> getWifiPassword (env_nvs env) c = []))"
proof -
  let ?eops = "env_events env" and ?nops = "env_nvs env"
  let ?led = "led_init (cr_ledGroup cr) (getTestMode ?nops c) (setLedMaxBrightness (getLedBrightness ?nops c) led_start)"
  let ?creds = "\<not> (getWifiSsid ?nops c = [] \<or> getWifiPassword ?nops c = [])"
  have "led_ready ?eops (st_led (State_init ?led))"
    using assms by (simp add: led_ready_def State_init_def led_init_def setLedMaxBrightness_def led_start_def)
  then obtain s1 where s1: "net_setState ?eops SETUP (State_init ?led) = Inr s1" "led_ready ?eops (st_led s1)"
    "st_current s1 = SETUP"
    by (rule net_setState_current [of ?eops _ SETUP]) simp_all
  obtain s2 where s2: "setupChargingPin ?eops value s1 = Inr s2" "led_ready ?eops (st_led s2)"
    "st_current s2 = (if value > 200 then NORMAL_CHARGING else SETUP)"
  proof (cases "value > 200")
    case True
    with net_setState_current [OF s1(2), of NORMAL_CHARGING] that show thesis
      by (auto simp: setupChargingPin_def)
  next
    case False
    with s1 that show thesis by (simp add: setupChargingPin_def)
  qed
  obtain n1 a1 where n1: "net_init (env_board env) ?nops c net_start = (n1, a1)" by fastforce
  then have flags: "\<not> net_ethConnected n1" "\<not> net_ethLinkUp n1"
    by (auto simp: net_init_def net_start_def Let_def split: if_splits)
  obtain ir ia where ir: "ir_init (cr_irQueue cr) (cr_irGroup cr) (cr_irResponses cr) (getIrSendCore ?nops c)
      (getIrSendPriority ?nops c) (getIrLearnCore ?nops c) (getIrLearnPriority ?nops c) ir_start = (ir, ia)"
    by fastforce
  obtain n3 s3 a3 where chosen: "choose_network env c n1 s2 = Inr (n3, s3, a3)"
    and cur: "st_current s3 = (if ?creds then CONNECTING else st_current s2)"
  proof (cases ?creds)
    case True
    obtain s' where s': "net_setState ?eops CONNECTING s2 = Inr s'" "led_ready ?eops (st_led s')"
      "st_current s' = CONNECTING"
      by (rule net_setState_current [OF s2(2), of CONNECTING]) simp_all
    obtain s'' acts where "setWifiEnabled ?eops ?nops c True n1 s' = Inr (n1\<lparr>net_wifiEnabled := True\<rparr>, s'', acts)"
      "st_current s'' = CONNECTING"
      by (rule setWifi_connect_current [OF s'(2,3)])
    with True flags s' have "choose_network env c n1 s2 = Inr (n1\<lparr>net_wifiEnabled := True\<rparr>, s'', acts)"
      unfolding choose_network_def Let_def by simp
    with True \<open>st_current s'' = CONNECTING\<close> that show thesis by simp
  next
    case False
    with flags have "choose_network env c n1 s2 = Inr (n1\<lparr>net_wifiEnabled := False\<rparr>, s2, [NetDisconnect])"
      unfolding choose_network_def setWifiEnabled_def Let_def by simp
    with False that show thesis by simp
  qed
  have bt: "MainBtStart h \<notin> set (map MainNet xs)" "MainBtStart h \<notin> set (map MainIr ys)" for h xs ys by auto
  have "st_current s3 = SETUP \<longleftrightarrow> value \<le> 200 \<and> \<not> ?creds" using cur s2(3) by auto
  then show ?thesis
    unfolding dock_setup_def Let_def
    by (simp add: s1(1) s2(1) n1 ir chosen getState_def image_iff)
qed

section \<open>Concrete runs\<close>

definition ex_main ::
  "(string \<times> string \<Rightarrow> nvs_value option, IRSendMessage list, IrResponse list, u32) main" where
  "ex_main = \<lparr>mn_dock = ex_dock, mn_buttonPressed = False, mn_resetMarker = False,
     mn_buttonTimerSet = TIMER_RESET_TIME, mn_counter = 3999, mn_mdnsLast = 0\<rparr>"


theorem charging_state_witness:
  "\<exists>m'. handleCharging ex_env 500 ex_main = Inr m' \<and> main_state m' = NORMAL_CHARGING"
  using charging_state [of ex_env ex_main 500] ex_dock_ready by (auto simp: ex_main_def)

theorem start_offers_bluetooth_witness:
  "\<exists>m acts. dock_setup ex_env \<lparr>cr_ledGroup = 0, cr_irQueue = Some [], cr_irGroup = Some 0, cr_irResponses = Some []\<rparr>
       ex_config (log_init 0) 150 [] = Inr (m, acts) \<and> MainBtStart ''UC-Dock-1'' \<in> set acts"
proof -
  let ?cr = "\<lparr>cr_ledGroup = 0 :: u32, cr_irQueue = Some ([] :: IRSendMessage list), cr_irGroup = Some 0,
     cr_irResponses = Some ([] :: IrResponse list)\<rparr>"
  have "eventgroup_spec (env_events ex_env)" "eg_get (env_events ex_env) (cr_ledGroup ?cr) = 0"
    by (simp_all add: ex_env_fields word_eventgroup_spec) (simp add: word_eventgroup_def)
  moreover have "getWifiSsid map_nvs ex_config = []"
    by (simp add: getter_defs cfg_lookup_def map_nvs_def ex_config_def)
  ultimately show ?thesis
    using start_offers_bluetooth [of ex_env ?cr ex_config "log_init 0" 150]
    by (auto simp: ex_env_fields getHostName_def ex_config_def)
qed

end
