(* ===== verification/DockRun.thy ===== *)
theory DockRun
  imports MainLoop IrLearn GcStart
begin

text \<open>
  The whole dock: the main loop of \<open>src/src/main.cpp\<close> together with the tasks it starts. A run is a
  list of events, each an atomic step on the shared objects: a part of the main loop, an event of
  the network driver, the interrupt of the button, a round of the IR send task, of the IR learn task,
  of a Global Cache client task or of the LED task. The theorems hold for every order of the events,
  the order of \<open>main_loop\<close> among them (\<open>main_loop_events\<close>); that a part is itself interrupted is not
  modelled here (theory \<open>StateMutex\<close> does so for the state).
\<close>

section \<open>Events\<close>

datatype dock_event =
    DoCharging int
  | DoApi main_input
  | DoServices main_input
  | DoReset
  | DoState main_input
  | DoNet u32 net_event
  | DoButton bool int
  | DoIrSend "nat \<Rightarrow> bool" \<comment> \<open>which allocations succeed\<close>
  | DoIrLearn u32 decode_results
  | DoGc u32 gc_client bool bool string
  | DoLed "int \<Rightarrow> int \<Rightarrow> int \<Rightarrow> int \<Rightarrow> int \<Rightarrow> int" "nat \<Rightarrow> u32" u32

datatype dock_action =
    AMain main_action
  | AGc int gc_action
  | AIrRound ir_round
  | ALed led_action

type_synonym ('n, 'q, 'a, 'e) dock_result = "fault + ('n, 'q, 'a, 'e) main \<times> dock_action list"

definition of_main :: "('n, 'q, 'a, 'e) main_result \<Rightarrow> ('n, 'q, 'a, 'e) dock_result" where
  "of_main r = bind_res r (\<lambda>(m, acts). Inr (m, map AMain acts))"

definition net_event_step ::
  "('n, 'q, 'a, 'e) env \<Rightarrow> u32 \<Rightarrow> net_event \<Rightarrow> ('n, 'q, 'a, 'e) main \<Rightarrow> ('n, 'q, 'a, 'e) main_result" where
  "net_event_step env now ev m =
     (let d = mn_dock m in
      bind_res (WiFiEvent (env_board env) (env_events env) (env_nvs env) (dk_config d) now ev (dk_net d) (dk_state d))
        (\<lambda>(n, s, acts). Inr (m\<lparr>mn_dock := d\<lparr>dk_net := n, dk_state := s\<rparr>\<rparr>, map MainNet acts)))"

definition ir_send_step ::
  "('n, 'q, 'a, 'e) env \<Rightarrow> ir_lib \<Rightarrow> (nat \<Rightarrow> bool) \<Rightarrow> ('n, 'q, 'a, 'e) main \<Rightarrow> ('n, 'q, 'a, 'e) dock_result" where
  "ir_send_step env lib mem m =
     bind_res (send_round lib mem (env_queue env) (env_responses env) (dk_ir (mn_dock m))) (\<lambda>(r, ir).
       Inr (map_dock (\<lambda>d. d\<lparr>dk_ir := ir\<rparr>) m, (case r of None \<Rightarrow> [] | Some x \<Rightarrow> [AIrRound x])))"

definition ir_learn_step ::
  "('n, 'q, 'a, 'e) env \<Rightarrow> (decode_results \<Rightarrow> string) \<Rightarrow> u32 \<Rightarrow> decode_results \<Rightarrow> ('n, 'q, 'a, 'e) main \<Rightarrow>
   ('n, 'q, 'a, 'e) dock_result" where
  "ir_learn_step env hexOf now res m =
     (case learn_round hexOf (env_responses env) res (dk_ir (mn_dock m)) of (ir, acts) \<Rightarrow>
        bind_res (run_ir_actions env now acts ((mn_dock m)\<lparr>dk_ir := ir\<rparr>))
          (\<lambda>(d, _). Inr (m\<lparr>mn_dock := d\<rparr>, [])))"

text \<open>The calls of the state a request of a Global Cache client makes.\<close>

fun run_gc_actions ::
  "('n, 'q, 'a, 'e) env \<Rightarrow> u32 \<Rightarrow> gc_action list \<Rightarrow> ('n, 'q, 'a, 'e) dock \<Rightarrow> fault + ('n, 'q, 'a, 'e) dock" where
  "run_gc_actions env now [] d = Inr d"
| "run_gc_actions env now (a # as) d =
     bind_res (case a of GcState x \<Rightarrow> dock_setState env now x d | GcIr (IrSetState x) \<Rightarrow> dock_setState env now x d
                 | _ \<Rightarrow> Inr d) (run_gc_actions env now as)"

definition gc_step ::
  "('n, 'q, 'a, 'e) env \<Rightarrow> u32 \<Rightarrow> gc_client \<Rightarrow> bool \<Rightarrow> bool \<Rightarrow> string \<Rightarrow> ('n, 'q, 'a, 'e) main \<Rightarrow>
   ('n, 'q, 'a, 'e) dock_result" where
  "gc_step env now cl sent sent2 rx m =
     bind_res (gc_round cl (env_queue env) (env_events env) sent sent2 rx (dk_ir (mn_dock m))) (\<lambda>(_, acts, ir).
     bind_res (run_gc_actions env now acts ((mn_dock m)\<lparr>dk_ir := ir\<rparr>)) (\<lambda>d.
       Inr (m\<lparr>mn_dock := d\<rparr>, map (AGc (cl_socket cl)) acts)))"

text \<open>
  The end of a cycle of the LED task: it clears the bit of a finished pattern. \<open>bits\<close> is what the task read
  at the start of the cycle, so that other events may come in between.
\<close>

definition led_step ::
  "('n, 'q, 'a, 'e) env \<Rightarrow> (int \<Rightarrow> int \<Rightarrow> int \<Rightarrow> int \<Rightarrow> int \<Rightarrow> int) \<Rightarrow> (nat \<Rightarrow> u32) \<Rightarrow> u32 \<Rightarrow>
   ('n, 'q, 'a, 'e) main \<Rightarrow> ('n, 'q, 'a, 'e) dock_result" where
  "led_step env scale poll bits m =
     (let l = st_led (dk_state (mn_dock m)) in
      case led_eventgroup l of
        None \<Rightarrow> Inr (m, [])
      | Some e \<Rightarrow>
          let acts = ledTask_cycle scale poll bits l in
          Inr (map_dock (map_led (\<lambda>l. l\<lparr>led_eventgroup := Some (clear_after (env_events env) acts e)\<rparr>)) m,
               map ALed acts))"

definition dock_step ::
  "('n, 'q, 'a, 'e) env \<Rightarrow> ir_lib \<Rightarrow> (decode_results \<Rightarrow> string) \<Rightarrow> dock_event \<Rightarrow> ('n, 'q, 'a, 'e) main \<Rightarrow>
   ('n, 'q, 'a, 'e) dock_result" where
  "dock_step env lib hexOf ev m =
     (case ev of
        DoCharging value \<Rightarrow> bind_res (handleCharging env value m) (\<lambda>m1. Inr (m1, []))
      | DoApi i \<Rightarrow> of_main (api_step env i m)
      | DoServices i \<Rightarrow> of_main (services_step env i m)
      | DoReset \<Rightarrow> of_main (reset_step env m)
      | DoState i \<Rightarrow> of_main (state_step env i m)
      | DoNet now e \<Rightarrow> of_main (net_event_step env now e m)
      | DoButton low t \<Rightarrow> Inr (handleButtonPress low t m, [])
      | DoIrSend mem \<Rightarrow> ir_send_step env lib mem m
      | DoIrLearn now res \<Rightarrow> ir_learn_step env hexOf now res m
      | DoGc now cl sent sent2 rx \<Rightarrow> gc_step env now cl sent sent2 rx m
      | DoLed scale poll bits \<Rightarrow> led_step env scale poll bits m)"

text \<open>A run ends with the first restart: of the main loop, or of the send task without memory.\<close>

fun ends_run :: "dock_action \<Rightarrow> bool" where
  "ends_run (AMain a) = is_restart a"
| "ends_run (AIrRound x) = rd_reboot x"
| "ends_run _ = False"

definition dock_then ::
  "('n, 'q, 'a, 'e) dock_result \<Rightarrow> (('n, 'q, 'a, 'e) main \<Rightarrow> ('n, 'q, 'a, 'e) dock_result) \<Rightarrow>
   ('n, 'q, 'a, 'e) dock_result" where
  "dock_then r f =
     bind_res r (\<lambda>(m, acts).
       if list_ex ends_run acts then Inr (m, acts)
       else bind_res (f m) (\<lambda>(m', acts'). Inr (m', acts @ acts')))"

fun dock_run ::
  "('n, 'q, 'a, 'e) env \<Rightarrow> ir_lib \<Rightarrow> (decode_results \<Rightarrow> string) \<Rightarrow> dock_event list \<Rightarrow> ('n, 'q, 'a, 'e) main \<Rightarrow>
   ('n, 'q, 'a, 'e) dock_result" where
  "dock_run env lib hexOf [] m = Inr (m, [])"
| "dock_run env lib hexOf (ev # evs) m = dock_then (dock_step env lib hexOf ev m) (dock_run env lib hexOf evs)"

text \<open>The events of a round of the main loop, in its order.\<close>

definition round_events :: "main_input \<Rightarrow> dock_event list" where
  "round_events i = [DoCharging (mi_charge i), DoApi i, DoServices i, DoReset, DoState i]"

lemma list_ex_of_main [simp]: "list_ex ends_run (map AMain acts) \<longleftrightarrow> list_ex is_restart acts"
  by (induction acts) simp_all

lemma of_main_then: "of_main (main_then r f) = dock_then (of_main r) (\<lambda>m. of_main (f m))"
proof (cases r)
  case (Inr x)
  obtain m acts where x: "x = (m, acts)" by (cases x)
  show ?thesis
    by (cases "f m") (auto simp: of_main_def main_then_def dock_then_def Inr x)
qed (simp add: of_main_def main_then_def dock_then_def)

lemma dock_then_done [simp]: "dock_then r (\<lambda>m. Inr (m, [])) = r"
  by (cases r) (auto simp: dock_then_def)

lemma dock_then_simps [simp]: "dock_then (Inl e) f = Inl e" "dock_then (Inr (m, [])) f = f m"
  by (cases "f m", auto simp: dock_then_def)+

text \<open>\<open>main_loop\<close> is one order of these events.\<close>

lemma main_loop_events: "dock_run env lib hexOf (round_events i) m = of_main (main_loop env i m)"
proof -
  have runs: "dock_run env lib hexOf [] = (\<lambda>m. Inr (m, []))"
    "dock_run env lib hexOf (ev # evs) = (\<lambda>m. dock_then (dock_step env lib hexOf ev m) (dock_run env lib hexOf evs))"
    for ev evs
    by (intro ext, simp)+
  show ?thesis
    by (cases "handleCharging env (mi_charge i) m")
      (simp_all add: round_events_def runs dock_step_def main_loop_def of_main_then del: dock_run.simps,
       simp add: of_main_def)
qed

end
