(* ===== verification/DockFrame.thy ===== *)
theory DockFrame
  imports DockRun
begin

text \<open>
  What a request, a Global Cache client and the IR tasks do to the objects they share: the contract that
  every command of the API meets, and the invariant of the two IR queues.
\<close>

section \<open>What a command does to the IR queues\<close>

text \<open>
  The requests that wait are the old ones, or the one request the command put into the empty queue; the
  queue of responses is as it was. \<open>P\<close> says which request that may be.
\<close>

definition ir_frame ::
  "('q \<Rightarrow> IRSendMessage list) \<Rightarrow> (int \<times> u32 \<times> string \<Rightarrow> bool) \<Rightarrow> ('q, 'a, 'e) ir \<Rightarrow> ('q, 'a, 'e) ir \<Rightarrow> bool" where
  "ir_frame contents P s s' \<longleftrightarrow> ir_apiResponseQueue s' = ir_apiResponseQueue s \<and>
     (in_queue contents s' = in_queue contents s \<or>
      (\<exists>k. P k \<and> map request_key (in_queue contents s') = [k]))"

definition dock_frame ::
  "('n, 'q, 'a, 'e) env \<Rightarrow> ('q \<Rightarrow> IRSendMessage list) \<Rightarrow> (int \<times> u32 \<times> string \<Rightarrow> bool) \<Rightarrow>
   ('n, 'q, 'a, 'e) dock \<Rightarrow> ('n, 'q, 'a, 'e) dock \<Rightarrow> bool" where
  "dock_frame env contents P d d' \<longleftrightarrow> dock_ready env d' \<and> ir_frame contents P (dk_ir d) (dk_ir d')"

lemma ir_frame_refl [simp]: "ir_frame contents P s s"
  by (simp add: ir_frame_def)

lemma ir_frame_trans: "ir_frame contents P s s' \<Longrightarrow> ir_frame contents P s' s'' \<Longrightarrow> ir_frame contents P s s''"
  unfolding ir_frame_def by auto

lemma dock_frame_trans:
  "dock_frame env contents P d d' \<Longrightarrow> dock_frame env contents P d' d'' \<Longrightarrow> dock_frame env contents P d d''"
  unfolding dock_frame_def using ir_frame_trans by metis

lemma dock_frame_same [simp]: "dk_ir d' = dk_ir d \<Longrightarrow> dock_frame env contents P d d' \<longleftrightarrow> dock_ready env d'"
  by (simp add: dock_frame_def)

lemma ir_frame_group [simp]: "ir_frame contents P s (map_group f s)"
  by (simp add: ir_frame_def map_group_def in_queue_def)

lemma dock_ready_updates [simp]:
  "dock_ready env (d\<lparr>dk_config := c\<rparr>) = dock_ready env d" "dock_ready env (d\<lparr>dk_ir := r\<rparr>) = dock_ready env d"
  "dock_ready env (d\<lparr>dk_log := l\<rparr>) = dock_ready env d" "dock_ready env (d\<lparr>dk_net := n\<rparr>) = dock_ready env d"
  "dock_ready env (d\<lparr>dk_authWsClients := a\<rparr>) = dock_ready env d"
  "dock_ready env (d\<lparr>dk_prevState := p\<rparr>) = dock_ready env d"
  by (simp_all add: dock_ready_def)

lemma dock_ready_brightness [simp]: "dock_ready env (map_led (setLedMaxBrightness b) d) = dock_ready env d"
  by (simp add: dock_ready_def map_led_def setLedMaxBrightness_def led_ready_def)

lemma map_led_ir [simp]: "dk_ir (map_led f d) = dk_ir d"
  by (simp add: map_led_def)

lemma dock_setState_frame_ready:
  assumes "dock_setState env now x d = Inr d'" and "dock_ready env d"
  shows "dock_ready env d' \<and> dk_ir d' = dk_ir d"
proof -
  obtain s where "dock_setState env now x d = Inr (d\<lparr>dk_state := s\<rparr>)" "led_ready (env_events env) (st_led s)"
    by (rule dock_setState_ready [OF assms(2)])
  with assms(1) show ?thesis by (auto simp: dock_ready_def)
qed

text \<open>
  The contract of a command, beside \<open>cmd_ok\<close> of \<open>ServiceApi\<close>: it keeps to the frame, and forwards no
  response of the IR service itself.
\<close>

definition no_forward :: "api_action list \<Rightarrow> bool" where
  "no_forward acts \<longleftrightarrow> list_all (\<lambda>a. case a of ApiForward _ \<Rightarrow> False | _ \<Rightarrow> True) acts"

lemma no_forward_simps [simp]:
  "no_forward []" "no_forward (as @ bs) \<longleftrightarrow> no_forward as \<and> no_forward bs" "no_forward (ApiReply doc # as) = no_forward as"
  "no_forward (ApiDelay k # as) = no_forward as" "no_forward (ApiDisconnect c # as) = no_forward as"
  "no_forward (ApiReboot # as) = no_forward as" "no_forward (ApiMdnsName n # as) = no_forward as"
  "no_forward (ApiLed l # as) = no_forward as" "no_forward (ApiIr i # as) = no_forward as"
  "no_forward (ApiPins b # as) = no_forward as" "no_forward (ApiSend c doc # as) = no_forward as"
  "no_forward (disconnect_ws source cid)"
  by (simp_all add: no_forward_def disconnect_ws_def)

lemma no_forward_map_ir [simp]: "no_forward (map ApiIr as)"
  by (induction as) simp_all

definition cmd_frame ::
  "('n, 'q, 'a, 'e) env \<Rightarrow> ('q \<Rightarrow> IRSendMessage list) \<Rightarrow> (int \<times> u32 \<times> string \<Rightarrow> bool) \<Rightarrow>
   ('n, 'q, 'a, 'e) dock \<Rightarrow> ('n, 'q, 'a, 'e) api_result \<Rightarrow> bool" where
  "cmd_frame env contents P d res \<longleftrightarrow>
     (\<forall>out d' acts. res = Inr (out, d', acts) \<longrightarrow> dock_frame env contents P d d' \<and> no_forward acts)"

lemma cmd_frame_Inl [simp]: "cmd_frame env contents P d (Inl f)"
  by (simp add: cmd_frame_def)

lemma cmd_frame_Inr [simp]:
  "cmd_frame env contents P d (Inr (out, d', acts)) \<longleftrightarrow> dock_frame env contents P d d' \<and> no_forward acts"
  by (simp add: cmd_frame_def)

lemma cmd_frame_setState:
  assumes "dock_ready env d1" "dk_ir d1 = dk_ir d"
    and "\<And>d'. dock_ready env d' \<Longrightarrow> dk_ir d' = dk_ir d \<Longrightarrow> cmd_frame env contents P d (f d')"
  shows "cmd_frame env contents P d (bind_res (dock_setState env now x d1) f)"
proof (cases "dock_setState env now x d1")
  case (Inr d')
  from dock_setState_frame_ready [OF Inr assms(1)] assms(2,3) show ?thesis by (simp add: Inr)
qed simp

lemma cmd_frame_if:
  "(c \<Longrightarrow> cmd_frame env contents P d r) \<Longrightarrow> (\<not> c \<Longrightarrow> cmd_frame env contents P d r') \<Longrightarrow>
   cmd_frame env contents P d (if c then r else r')"
  by simp

lemma try_setting_ir_frame [simp]:
  "dk_ir (snd (try_setting b f r)) = dk_ir (snd r)" "dk_state (snd (try_setting b f r)) = dk_state (snd r)"
  by (simp_all add: try_setting_def split: prod.split)

lemma dock_ready_try [simp]: "dock_ready env (snd (try_setting b f r)) = dock_ready env (snd r)"
  by (simp add: dock_ready_def)

lemma run_ir_actions_keep:
  "run_ir_actions env now as d = Inr (d', acts) \<Longrightarrow> dock_ready env d \<Longrightarrow>
   dock_ready env d' \<and> dk_ir d' = dk_ir d \<and> no_forward acts"
proof (induction as arbitrary: d d' acts)
  case (Cons a as)
  then obtain d1 acts1 where d1: "(case a of IrSetState x \<Rightarrow> dock_setState env now x d | _ \<Rightarrow> Inr d) = Inr d1"
    and rest: "run_ir_actions env now as d1 = Inr (d', acts1)"
    and acts: "acts = (case a of IrSetState _ \<Rightarrow> acts1 | _ \<Rightarrow> ApiIr a # acts1)"
    by (auto simp: bind_res_Inr_iff split: prod.splits)
  have "dock_ready env d1 \<and> dk_ir d1 = dk_ir d"
    using d1 Cons.prems(2) by (cases a) (auto dest: dock_setState_frame_ready)
  with Cons.IH [OF rest] acts show ?case by (cases a) simp_all
qed simp

lemma set_config_frame:
  assumes "dock_ready env d"
  shows "cmd_frame env contents P d (set_config env source cid req doc d)"
proof -
  obtain ok1 d1 acts where name: "config_name_step env req d = (ok1, d1, acts)" by (metis prod_cases3)
  obtain ok doc2 d2 where token: "config_token_step env req doc ok1 d1 = (ok, doc2, d2)" by (metis prod_cases3)
  obtain w c where wifi: "setWifi (env_nvs env) (jd_string req ''ssid'') (jd_string req msgWifiPwd) (dk_config d2) = (w, c)"
    by fastforce
  have "dock_ready env d1 \<and> dk_ir d1 = dk_ir d" "no_forward acts"
    using name assms by (auto simp: config_name_step_def Let_def split: if_splits)
  moreover from this have "dock_ready env d2 \<and> dk_ir d2 = dk_ir d1"
    using token by (auto simp: config_token_step_def Let_def split: if_splits prod.splits)
  ultimately show ?thesis
    by (cases w) (simp_all add: set_config_def name token wifi Let_def)
qed

lemma set_brightness_frame:
  assumes "dock_ready env d"
  shows "cmd_frame env contents P d (set_brightness env now req doc d)"
proof -
  have "dock_ready env d1 \<and> dk_ir d1 = dk_ir d" if "brightness_led_step env now req d = Inr d1" for d1
    using that assms
    by (auto simp: brightness_led_step_def Let_def bind_res_Inr_iff dest: dock_setState_frame_ready split: if_splits)
  then show ?thesis
    by (auto simp: cmd_frame_def set_brightness_def brightness_eth_step_def bind_res_Inr_iff Let_def split: if_splits)
qed

lemma ir_send_frame:
  assumes "queue_spec 1 contents qops"
    and "ir_send b qops eops c i code fmt rep o1 o2 o3 o4 sock s = (r, s')" and "P (c, i, code)"
  shows "ir_frame contents P s s'"
proof -
  have "ir_apiResponseQueue s' = ir_apiResponseQueue s"
    using assms(2) by (auto simp: ir_send_def Let_def split: option.splits if_splits)
  with send_accepts [OF assms(1,2)] assms(3) show ?thesis by (auto simp: ir_frame_def split: if_splits)
qed

lemma api_ir_send_frame:
  assumes "queue_spec 1 contents (env_queue env)" "dock_ready env d"
    and "jd_string req ''code'' \<noteq> [] \<Longrightarrow> P (cid, word_of_int (jd_int req msgId), jd_string req ''code'')"
  shows "cmd_frame env contents P d (api_ir_send env cid req doc d)"
proof (cases "jd_string req ''code'' \<noteq> [] \<and> jd_string req ''format'' \<noteq> []")
  case True
  let ?intSide = "jd_bool req ''int_side''" and ?intTop = "jd_bool req ''int_top''"
  let ?ext1 = "jd_bool req ''ext1''" and ?ext2 = "jd_bool req ''ext2''"
  let ?dflt = "\<not> (?intSide \<or> ?intTop \<or> ?ext1 \<or> ?ext2)"
  obtain r ir' where send: "ir_send (env_board env) (env_queue env) (env_events env) cid
      (word_of_int (jd_int req msgId)) (jd_string req ''code'') (jd_string req ''format'') (jd_uint16 req ''repeat'')
      (?intSide \<or> ?dflt) ?intTop (?ext1 \<or> ?dflt) (?ext2 \<or> ?dflt) 0 (dk_ir d) = (r, ir')"
    by fastforce
  have "ir_frame contents P (dk_ir d) ir'" by (rule ir_send_frame [OF assms(1) send]) (use assms(3) True in simp)
  with assms(2) send True show ?thesis
    by (simp add: api_ir_send_def Let_def dock_frame_def)
qed (use assms(2) in \<open>auto simp: api_ir_send_def Let_def\<close>)

lemma api_ir_learn_frame:
  assumes "dock_ready env d"
  shows "cmd_frame env contents P d (api_ir_learn env now on doc d)"
proof -
  obtain ir' acts where learn: "(if on then startIrLearn else stopIrLearn) (env_events env) (dk_ir d) = (ir', acts)"
    by fastforce
  then have "ir_frame contents P (dk_ir d) ir'"
    by (auto simp: startIrLearn_def stopIrLearn_def split: if_splits)
  with assms show ?thesis
    by (auto simp: cmd_frame_def api_ir_learn_def learn bind_res_Inr_iff dock_frame_def dest!: run_ir_actions_keep)
qed

lemma run_command_frame:
  assumes "queue_spec 1 contents (env_queue env)" "dock_ready env d"
    and "kind = msgTypeDock \<Longrightarrow> command = ''ir_send'' \<Longrightarrow> jd_string req ''code'' \<noteq> [] \<Longrightarrow>
      P (cid, word_of_int (jd_int req msgId), jd_string req ''code'')"
  shows "cmd_frame env contents P d (run_command env now source cid kind command req doc d)"
proof -
  have simple:
    "cmd_frame env contents P d (test_mode env doc d)" "cmd_frame env contents P d (set_logging env req doc d)"
    "cmd_frame env contents P d (set_sntp env req doc d)" "cmd_frame env contents P d (set_ir_config env req doc d)"
    "cmd_frame env contents P d (get_ir_config env doc d)" "cmd_frame env contents P d (api_reset env source cid doc d)"
    "cmd_frame env contents P d (rgb_test env now req doc d)" "cmd_frame env contents P d (rgb_test_stop env now doc d)"
    "cmd_frame env contents P d (api_state env now x doc d)"
    "cmd_frame env contents P d (Inr (Respond doc', d\<lparr>dk_ir := stopSend (env_events env) (dk_ir d)\<rparr>, []))"
    for x doc'
    subgoal using assms(2) by (simp add: test_mode_def split: prod.split)
    subgoal using assms(2)
      by (auto simp: set_logging_def logging_level_step_def logging_server_step_def logging_enable_step_def Let_def
          split: prod.splits if_splits)
    subgoal using assms(2) by (simp add: set_sntp_def Let_def case_prod_unfold)
    subgoal using assms(2) by (simp add: set_ir_config_def Let_def case_prod_unfold)
    subgoal using assms(2) by (simp add: get_ir_config_def Let_def)
    subgoal using assms(2) by (simp add: api_reset_def reboot_response_def)
    subgoal using assms(2)
      by (auto simp: rgb_test_def Let_def intro!: cmd_frame_setState split: option.split)
    subgoal using assms(2)
      by (auto simp: rgb_test_stop_def intro!: cmd_frame_setState split: option.split)
    subgoal using assms(2) by (auto simp: api_state_def intro!: cmd_frame_setState)
    subgoal using assms(2) by (simp add: dock_frame_def stopSend_def)
    done
  show ?thesis
    unfolding run_command_def
    by (intro cmd_frame_if simple set_config_frame set_brightness_frame api_ir_send_frame api_ir_learn_frame assms)
      (use assms in \<open>simp_all add: reboot_response_def\<close>)
qed

section \<open>Requests\<close>

text \<open>The text is an \<open>ir_send\<close> request; \<open>k\<close> is what the send task will know of it.\<close>

definition asks_ir :: "('n, 'q, 'a, 'e) env \<Rightarrow> int \<Rightarrow> string \<Rightarrow> int \<times> u32 \<times> string \<Rightarrow> bool" where
  "asks_ir env cid t k \<longleftrightarrow>
     (case env_parse env t of
        None \<Rightarrow> False
      | Some req \<Rightarrow> member_string req msgType = msgTypeDock \<and> member_string req msgCommand = ''ir_send'' \<and>
          jd_string req ''code'' \<noteq> [] \<and> k = (cid, word_of_int (jd_int req msgId), jd_string req ''code''))"

definition asks_stop :: "('n, 'q, 'a, 'e) env \<Rightarrow> string \<Rightarrow> bool" where
  "asks_stop env t \<longleftrightarrow>
     (case env_parse env t of
        None \<Rightarrow> False
      | Some req \<Rightarrow> member_string req msgType = msgTypeDock \<and> member_string req msgCommand = ''rgb_test_stop'')"

lemma process_document_frame:
  assumes "queue_spec 1 contents (env_queue env)" "dock_ready env d"
    and "process_document env now source authenticated cid req d = Inr (r, d', acts)"
    and "authenticated \<Longrightarrow> member_string req msgType = msgTypeDock \<Longrightarrow> member_string req msgCommand = ''ir_send'' \<Longrightarrow>
      jd_string req ''code'' \<noteq> [] \<Longrightarrow> P (cid, word_of_int (jd_int req msgId), jd_string req ''code'')"
  shows "dock_frame env contents P d d' \<and> no_forward acts"
proof (cases "member_string req msgType = ''auth'' \<or>
    member_string req msgType = msgTypeDock \<and> member_string req msgCommand = ''get_sysinfo'' \<or> \<not> authenticated")
  case True
  with assms(2,3) show ?thesis
    by (auto simp: process_document_def api_authenticate_def Let_def split: if_splits)
next
  case False
  let ?kind = "member_string req msgType" and ?command = "member_string req msgCommand"
  have "cmd_frame env contents P d
      (run_command env now source cid ?kind ?command req (response_start ?kind ?command req) d)"
    using False by (intro run_command_frame [OF assms(1,2)] assms(4)) simp_all
  moreover obtain out acts' where
    "run_command env now source cid ?kind ?command req (response_start ?kind ?command req) d = Inr (out, d', acts')"
    "acts = acts' \<or> (\<exists>doc. acts = acts' @ [ApiReply doc])"
  proof -
    from False assms(3) obtain out d1 acts' where
      run: "run_command env now source cid ?kind ?command req (response_start ?kind ?command req) d = Inr (out, d1, acts')"
      by (auto simp: process_document_def Let_def bind_res_Inr_iff)
    with False assms(3) show thesis
      by (intro that [of out acts']) (cases out; auto simp: process_document_def Let_def)+
  qed
  ultimately show ?thesis by (auto simp: cmd_frame_def)
qed

lemma processRequest_frame:
  assumes "queue_spec 1 contents (env_queue env)" "dock_ready env d"
    and "processRequest env now (Some t) source authenticated cid d = Inr (r, d', acts)"
    and "\<And>k. authenticated \<Longrightarrow> asks_ir env cid t k \<Longrightarrow> P k"
  shows "dock_frame env contents P d d' \<and> no_forward acts"
proof -
  from assms(3) consider "d' = d" "no_forward acts"
    | req where "env_parse env t = Some req" "process_document env now source authenticated cid req d = Inr (r, d', acts)"
    by (auto simp: processRequest_def split: if_splits option.splits)
  then show ?thesis
  proof cases
    case 1
    with assms(2) show ?thesis by simp
  next
    case 2
    show ?thesis
      by (rule process_document_frame [OF assms(1,2) 2(2)]) (use assms(4) 2(1) in \<open>simp add: asks_ir_def\<close>)
  qed
qed

lemma processRequest_fault:
  assumes "dock_ready env d" "processRequest env now (Some t) source authenticated cid d = Inl f"
  shows "f = Uninitialised \<and> authenticated \<and> asks_stop env t \<and> dk_prevState d = None"
  using assms(2) process_document_fault [OF assms(1)]
  by (auto simp: processRequest_def asks_stop_def split: if_splits option.splits)

section \<open>The parts of the main loop\<close>

text \<open>The texts a part of the main loop takes as requests, with the number of the client.\<close>

definition serial_text :: "string \<Rightarrow> string \<Rightarrow> string" where
  "serial_text received stale = takeWhile (\<lambda>c. code_of c \<noteq> 0) (take 1023 received @ CHR ''0'' # stale)"

definition bluetooth_text :: "string \<Rightarrow> string \<Rightarrow> string" where
  "bluetooth_text received stale =
     takeWhile (\<lambda>c. code_of c \<noteq> 0) (take 1023 (takeWhile (\<lambda>c. c \<noteq> CHR ''\<newline>'') received) @ CHR ''0'' # stale)"

fun request_texts :: "dock_event \<Rightarrow> (int \<times> string) list" where
  "request_texts (DoApi i) =
     List.map_filter (\<lambda>(now, num, ev). case ev of WsText t \<Rightarrow> Some (uint num, t) | _ \<Rightarrow> None) (mi_ws i) @
     (if mi_serial i = [] then [] else [(-1, serial_text (mi_serial i) (mi_serialStale i))])"
| "request_texts (DoServices i) =
     (if mi_bluetooth i = [] then [] else [(-1, bluetooth_text (mi_bluetooth i) (mi_bluetoothStale i))])"
| "request_texts _ = []"

lemma ws_event_frame:
  assumes "queue_spec 1 contents (env_queue env)" "dock_ready env d"
    and "ws_event env now num ev d = Inr (d', acts)"
    and "\<And>t k. ev = WsText t \<Longrightarrow> asks_ir env (uint num) t k \<Longrightarrow> P k"
  shows "dock_frame env contents P d d' \<and> no_forward acts"
proof (cases ev)
  case (WsText t)
  with assms(3) obtain r where
    "processRequest env now (Some t) WebSocket (num \<in> dk_authWsClients d) (uint num) d = Inr (r, d', acts)"
    by (auto simp: ws_event_def processWsRequest_def bind_res_Inr_iff)
  from processRequest_frame [OF assms(1,2) this] assms(4) [OF WsText] show ?thesis by blast
qed (use assms(2,3) in \<open>auto simp: ws_event_def\<close>)

lemma ws_events_frame:
  assumes "queue_spec 1 contents (env_queue env)" "dock_ready env d"
    and "ws_events env evs d = Inr (d', acts)"
    and "\<And>now num t k. (now, num, WsText t) \<in> set evs \<Longrightarrow> asks_ir env (uint num) t k \<Longrightarrow> P k"
  shows "dock_frame env contents P d d' \<and> no_forward acts"
  using assms(2-)
proof (induction evs arbitrary: d acts)
  case (Cons e evs)
  obtain now num ev where e: "e = (now, num, ev)" by (cases e)
  with Cons.prems(2) obtain d1 acts1 acts2 where
    one: "ws_event env now num ev d = Inr (d1, acts1)" and
    rest: "ws_events env evs d1 = Inr (d', acts2)" and acts: "acts = acts1 @ acts2"
    by (auto simp: bind_res_Inr_iff)
  have f1: "dock_frame env contents P d d1 \<and> no_forward acts1"
    by (rule ws_event_frame [OF assms(1) Cons.prems(1) one])
      (use Cons.prems(3) e in \<open>metis list.set_intros(1)\<close>)
  then have "dock_ready env d1" by (simp add: dock_frame_def)
  moreover have "P k" if "(now, num, WsText t) \<in> set evs" "asks_ir env (uint num) t k" for now num t k
    using Cons.prems(3) that by (meson list.set_intros(2))
  ultimately have "dock_frame env contents P d1 d' \<and> no_forward acts2" by (intro Cons.IH [OF _ rest])
  with f1 show ?case using dock_frame_trans acts by auto
qed simp

lemma ws_events_fault:
  assumes "queue_spec 1 contents (env_queue env)" "dock_ready env d" "ws_events env evs d = Inl f"
  shows "f = Uninitialised \<and> (\<exists>now num t. (now, num, WsText t) \<in> set evs \<and> asks_stop env t)"
  using assms(2-)
proof (induction evs arbitrary: d)
  case (Cons e evs)
  obtain now num ev where e: "e = (now, num, ev)" by (cases e)
  show ?case
  proof (cases "ws_event env now num ev d")
    case (Inl g)
    with Cons.prems(2) e have "f = g" by simp
    moreover have "g = Uninitialised \<and> (\<exists>t. ev = WsText t \<and> asks_stop env t)"
      using Inl processRequest_fault [OF Cons.prems(1)]
      by (cases ev) (auto simp: ws_event_def processWsRequest_def bind_res_Inl_iff)
    ultimately show ?thesis using e by auto
  next
    case (Inr r)
    obtain d1 acts1 where r: "r = (d1, acts1)" by (cases r)
    with Inr have "dock_ready env d1"
      using ws_event_frame [OF assms(1) Cons.prems(1), of now num ev d1 acts1 "\<lambda>_. True"] by (simp add: dock_frame_def)
    with Cons.IH [of d1] Cons.prems(2) e Inr r show ?thesis
      by (cases "ws_events env evs d1") auto
  qed
qed simp

section \<open>Global Cache requests\<close>

definition gc_request :: "string \<Rightarrow> string" where
  "gc_request rx = (case strchr rx CR of None \<Rightarrow> [] | Some e \<Rightarrow> take (ptr_diff e rx) rx)"

text \<open>The request that stops the client task: \<open>sendir\<close> without parameters.\<close>

definition gc_crashes :: "string \<Rightarrow> bool" where
  "gc_crashes rx \<longleftrightarrow> CR \<in> set rx \<and>
     (case parseGcRequest (Some (gc_request rx)) (Some no_request) of
        (0, Some req) \<Rightarrow> gm_command req = ''sendir'' \<and> gm_param req = None | _ \<Rightarrow> False)"

lemma sendGlobalCache_cases:
  assumes "sendGlobalCache b qops eops c i t sock s = (r, s')"
  obtains "s' = s"
    | rep o1 o2 o3 o4 where "ir_send b qops eops c i t ''gc'' rep o1 o2 o3 o4 sock s = (r, s')" "t \<noteq> []"
proof (cases "strncmp_eq t ''sendir,1:'' 9")
  case True
  then have "t \<noteq> []" by (auto simp: strncmp_eq_def)
  with assms that show thesis
    by (auto simp: sendGlobalCache_def Let_def split: if_splits option.splits)
next
  case False
  with assms that show thesis by (simp add: sendGlobalCache_def)
qed

lemma gc_round_frame:
  assumes "queue_spec 1 contents qops" and "gc_round cl qops eops sent sent2 rx s = Inr (go, acts, s')"
  shows "ir_frame contents (\<lambda>k. fst k = IR_CLIENT_GC \<and> snd (snd k) = gc_request rx \<and> gc_request rx \<noteq> []) s s'"
proof -
  let ?P = "\<lambda>k. fst k = IR_CLIENT_GC \<and> snd (snd k) = gc_request rx \<and> gc_request rx \<noteq> []"
  have send: "ir_frame contents ?P s t"
    if "sendGlobalCache (cl_board cl) qops eops IR_CLIENT_GC i (gc_request rx) (cl_socket cl) s = (r, t)" for i r t
    using that
  proof (cases rule: sendGlobalCache_cases)
    case (2 rep o1 o2 o3 o4)
    from ir_send_frame [OF assms(1) this(1), of ?P] this(2) show ?thesis by simp
  qed simp
  have step: "ir_frame contents ?P s t"
    if "gc_command_step cl qops eops sent sent2 (gc_request rx) req s = Inr (go', acts', t)" for req go' acts' t
    using that send
    by (auto simp: gc_command_step_def gc_sendir_def gc_getdevices_def stopSend_def startIrLearn_def stopIrLearn_def
        reply_def silent_def Let_def split: if_splits option.splits prod.splits)
  show ?thesis
    using assms(2) step
    by (auto simp: gc_round_def gc_request_def reply_def silent_def Let_def split: option.splits if_splits prod.splits nat.splits)
qed

lemma gc_round_crashes:
  assumes "gc_round cl qops eops sent sent2 rx s = Inl f"
  shows "f = NullPointer \<and> gc_crashes rx"
  using gc_round_faults [OF assms] strchr_None_iff [of rx CR]
  by (auto simp: gc_crashes_def gc_request_def)

section \<open>The invariant of the dock\<close>

text \<open>
  The LED controller is ready, every waiting request satisfies \<open>P\<close>, and every result that waits for the
  API belongs to such a request.
\<close>

primrec response_ok :: "(int \<times> u32 \<times> string \<Rightarrow> bool) \<Rightarrow> IrResponse \<Rightarrow> bool" where
  "response_ok P (IrSendDone c i code) = (\<exists>t. P (c, i, t))"
| "response_ok P (IrReceived c t) = True"

definition in_responses :: "('a \<Rightarrow> IrResponse list) \<Rightarrow> ('q, 'a, 'e) ir \<Rightarrow> IrResponse list" where
  "in_responses rcontents s = (case ir_apiResponseQueue s of None \<Rightarrow> [] | Some a \<Rightarrow> rcontents a)"

definition ir_ok ::
  "('q \<Rightarrow> IRSendMessage list) \<Rightarrow> ('a \<Rightarrow> IrResponse list) \<Rightarrow> (int \<times> u32 \<times> string \<Rightarrow> bool) \<Rightarrow>
   ('q, 'a, 'e) ir \<Rightarrow> bool" where
  "ir_ok contents rcontents P s \<longleftrightarrow>
     list_all P (map request_key (in_queue contents s)) \<and> list_all (response_ok P) (in_responses rcontents s)"

definition dock_ok ::
  "('n, 'q, 'a, 'e) env \<Rightarrow> ('q \<Rightarrow> IRSendMessage list) \<Rightarrow> ('a \<Rightarrow> IrResponse list) \<Rightarrow>
   (int \<times> u32 \<times> string \<Rightarrow> bool) \<Rightarrow> ('n, 'q, 'a, 'e) dock \<Rightarrow> bool" where
  "dock_ok env contents rcontents P d \<longleftrightarrow> dock_ready env d \<and> ir_ok contents rcontents P (dk_ir d)"

lemma ir_ok_frame: "ir_frame contents P s s' \<Longrightarrow> ir_ok contents rcontents P s \<Longrightarrow> ir_ok contents rcontents P s'"
  by (auto simp: ir_frame_def ir_ok_def in_responses_def)

lemma ir_frame_mono: "ir_frame contents P s s' \<Longrightarrow> (\<And>k. P k \<Longrightarrow> Q k) \<Longrightarrow> ir_frame contents Q s s'"
  by (auto simp: ir_frame_def)

lemma dock_ok_frame:
  "dock_frame env contents P d d' \<Longrightarrow> dock_ok env contents rcontents P d \<Longrightarrow> dock_ok env contents rcontents P d'"
  by (auto simp: dock_frame_def dock_ok_def intro: ir_ok_frame)

lemma dock_ok_same:
  "dock_ready env d' \<Longrightarrow> dk_ir d' = dk_ir d \<Longrightarrow> dock_ok env contents rcontents P d \<Longrightarrow>
   dock_ok env contents rcontents P d'"
  by (simp add: dock_ok_def)

lemma dock_ok_ready: "dock_ok env contents rcontents P d \<Longrightarrow> dock_ready env d"
  by (simp add: dock_ok_def)

definition forwards_ok :: "(int \<times> u32 \<times> string \<Rightarrow> bool) \<Rightarrow> api_action list \<Rightarrow> bool" where
  "forwards_ok P acts \<longleftrightarrow> (\<forall>r. ApiForward r \<in> set acts \<longrightarrow> response_ok P r \<and> 0 \<le> response_client r)"

lemma forwards_ok_append [simp]: "forwards_ok P (as @ bs) \<longleftrightarrow> forwards_ok P as \<and> forwards_ok P bs"
  by (auto simp: forwards_ok_def)

lemma no_forward_ok: "no_forward acts \<Longrightarrow> forwards_ok P acts"
  by (auto simp: no_forward_def forwards_ok_def list_all_iff)

lemma forward_response_ok:
  assumes "queue_spec n rcontents (env_responses env)" "dock_ok env contents rcontents P d"
    and "forward_response env d = (d', acts)"
  shows "dock_ok env contents rcontents P d' \<and> forwards_ok P acts"
proof (cases "ir_apiResponseQueue (dk_ir d)")
  case None
  with assms(2,3) show ?thesis by (auto simp: forward_response_def apiResponse_def forwards_ok_def dock_ok_def)
next
  case (Some a)
  show ?thesis
  proof (cases "q_receive (env_responses env) a")
    case None
    with Some assms(2,3) show ?thesis
      by (auto simp: forward_response_def apiResponse_def forwards_ok_def dock_ok_def)
  next
    case recv: (Some x)
    obtain r a' where x: "x = (r, a')" by (cases x)
    with queue_receive [OF assms(1), of a] recv have "rcontents a = r # rcontents a'" by simp
    with assms(2) Some have "response_ok P r" "list_all (response_ok P) (rcontents a')"
      "list_all P (map request_key (in_queue contents (dk_ir d)))" "dock_ready env d"
      by (simp_all add: dock_ok_def ir_ok_def in_responses_def)
    with assms(3) Some recv x show ?thesis
      by (auto simp: forward_response_def apiResponse_def forwards_ok_def dock_ok_def ir_ok_def in_responses_def
          in_queue_def split: if_splits)
  qed
qed

lemma send_round_ok:
  assumes "queue_spec 1 contents (env_queue env)" "queue_spec n rcontents (env_responses env)"
    and "send_round lib mem (env_queue env) (env_responses env) s = Inr (r, s')" "ir_ok contents rcontents P s"
  shows "ir_ok contents rcontents P s'"
proof (cases r)
  case None
  with round_empties [OF assms(1,3)] assms(4) show ?thesis by simp
next
  case (Some x)
  then obtain q a m where q: "ir_queue s = Some q" "ir_apiResponseQueue s = Some a" "q_peek (env_queue env) q = Some m"
    and ans: "\<exists>ok. s' = s\<lparr>ir_queue := Some (q_reset (env_queue env) q),
      ir_apiResponseQueue := Some (snd (answer (env_responses env) m ok a))\<rparr>"
    using assms(3) by (auto simp: send_round_def bind_res_Inr_iff case_prod_unfold split: option.splits)
  have "m \<in> set (contents q)"
    using q(3) queue_peek [OF assms(1), of q] by (cases "contents q") auto
  with q assms(4) have m: "P (request_key m)" and rs: "list_all (response_ok P) (rcontents a)"
    by (auto simp: ir_ok_def in_queue_def in_responses_def list_all_iff)
  have "list_all (response_ok P) (rcontents (snd (answer (env_responses env) m ok a)))" for ok
    using m rs queue_send_Some [OF assms(2)]
    by (auto simp: answer_def request_key_def Let_def split: option.splits)
  with ans queue_reset [OF assms(1)] show ?thesis by (auto simp: ir_ok_def in_queue_def in_responses_def)
qed

lemma learn_round_ok:
  assumes "queue_spec n rcontents aops" "learn_round hexOf aops r s = (s', acts)" "ir_ok contents rcontents P s"
  shows "ir_ok contents rcontents P s'"
  using assms(2,3) queue_send_Some [OF assms(1)]
  by (auto simp: learn_round_def ir_ok_def in_queue_def in_responses_def split: if_splits option.splits)

end
