(* ===== verification/DockSafety.thy ===== *)
theory DockSafety
  imports DockFrame
begin

text \<open>
  What holds in every run of the whole dock (theory \<open>DockRun\<close>), from its start: which steps can fail,
  whom the results of the IR service reach, and what nobody without the token, the button or a cable can
  change.
\<close>

section \<open>The parts of the main loop that cannot fail\<close>

text \<open>A step that returns, with the controller ready and the IR service as it was.\<close>

definition calm_res ::
  "('n, 'q, 'a, 'e) env \<Rightarrow> ('n, 'q, 'a, 'e) dock \<Rightarrow> fault + ('n, 'q, 'a, 'e) dock \<Rightarrow> bool" where
  "calm_res env d res \<longleftrightarrow> (\<exists>d'. res = Inr d' \<and> dock_ready env d' \<and> dk_ir d' = dk_ir d)"

lemma calm_Inr [simp]: "calm_res env d (Inr d') \<longleftrightarrow> dock_ready env d' \<and> dk_ir d' = dk_ir d"
  by (simp add: calm_res_def)

lemma calm_setState: "dock_ready env d \<Longrightarrow> calm_res env d (dock_setState env now x d)"
  by (rule dock_setState_ready [of env d now x]) (auto simp: calm_res_def dock_ready_def)

lemma calm_bind:
  assumes "calm_res env d r" and "\<And>d'. dock_ready env d' \<Longrightarrow> dk_ir d' = dk_ir d \<Longrightarrow> calm_res env d' (f d')"
  shows "calm_res env d (bind_res r f)"
  using assms by (auto simp: calm_res_def)

lemma run_ir_actions_calm:
  "dock_ready env d \<Longrightarrow> \<exists>d' acts'. run_ir_actions env now acts d = Inr (d', acts') \<and> dock_ready env d' \<and> dk_ir d' = dk_ir d"
  using run_ir_actions_returns [of env d now acts] run_ir_actions_keep [of env now acts d]
  by (auto simp: returns_def)

lemma run_gc_actions_calm: "dock_ready env d \<Longrightarrow> calm_res env d (run_gc_actions env now acts d)"
proof (induction acts arbitrary: d)
  case (Cons a acts)
  have "calm_res env d (case a of GcState x \<Rightarrow> dock_setState env now x d
      | GcIr (IrSetState x) \<Rightarrow> dock_setState env now x d | _ \<Rightarrow> Inr d)"
    using Cons.prems by (auto simp: calm_setState split: gc_action.split ir_action.split)
  from calm_bind [OF this Cons.IH] show ?case by simp
qed simp

lemma run_ota_actions_calm: "dock_ready env d \<Longrightarrow> calm_res env d (run_ota_actions env acts d)"
proof (induction acts arbitrary: d)
  case (Cons a acts)
  have "calm_res env d (if a = SetStateOTA then dock_setState env 0 OTA d else Inr d)"
    using Cons.prems by (simp add: calm_setState)
  from calm_bind [OF this Cons.IH] show ?case by simp
qed simp

lemma handleLoop_ready:
  assumes "led_ready eops (st_led s)"
  obtains n' s' acts where "handleLoop eops nops c i n s = Inr (n', s', acts)" "led_ready eops (st_led s')"
proof -
  have reconnect: "\<exists>n3 s3 a3. (if due then wifi_reconnect eops nops c t k s else Inr (k, s, [])) = Inr (n3, s3, a3) \<and>
      led_ready eops (st_led s3)" for due t k
    by (cases due, rule wifi_reconnect_ready [OF assms, of nops c t k]) (use assms in auto)
  let ?n1 = "fst (eth_led_timeout (li_ledTime i) n s)"
  let ?n2 = "if wifi_due i ?n1 then ?n1\<lparr>net_wifiReconnectCount := net_wifiReconnectCount ?n1 + 1\<rparr> else ?n1"
  from reconnect [of "wifi_due i ?n1" "li_nextTime i" ?n2]
  obtain n3 s3 a3 where s3: "(if wifi_due i ?n1 then wifi_reconnect eops nops c (li_nextTime i) ?n2 s
      else Inr (?n2, s, [])) = Inr (n3, s3, a3)" "led_ready eops (st_led s3)"
    by blast
  obtain n4 s4 where s4: "wifi_check_connected eops (li_connected2 i) n3 s3 = Inr (n4, s4)" "led_ready eops (st_led s4)"
    by (rule wifi_check_ready [OF s3(2)])
  consider "\<not> net_wifiEnabled ?n1" | "net_wifiEnabled ?n1" "wifi_due i ?n1 \<and> net_wifiReconnectCount ?n2 = 5"
    | "net_wifiEnabled ?n1" "\<not> (wifi_due i ?n1 \<and> net_wifiReconnectCount ?n2 = 5)" by blast
  then show thesis
  proof cases
    case 3
    with s3 s4 show thesis
      by (intro that [of n4 s4 "snd (eth_led_timeout (li_ledTime i) n s) @ a3"])
        (simp_all only: handleLoop_def case_prod_unfold Let_def, simp_all)
  next
    case 1
    with assms show thesis
      by (intro that [of ?n1 s "snd (eth_led_timeout (li_ledTime i) n s)"])
        (simp_all add: handleLoop_def case_prod_unfold Let_def)
  next
    case 2
    then have due: "wifi_due i n" "net_wifiReconnectCount ?n1 = 4" by auto
    with 2(1) assms show thesis
      by (intro that [of ?n2 s "snd (eth_led_timeout (li_ledTime i) n s) @ [NetReboot]"])
        (simp_all add: handleLoop_def case_prod_unfold Let_def)
  qed
qed

lemma WiFiEvent_ready:
  assumes "led_ready eops (st_led s)"
  obtains n' s' acts where "WiFiEvent b eops nops c now ev n s = Inr (n', s', acts)" "led_ready eops (st_led s')"
proof -
  have wifi: "\<exists>s' acts. setWifiEnabled eops nops c on k s = Inr (k\<lparr>net_wifiEnabled := on\<rparr>, s', acts) \<and>
      led_ready eops (st_led s')" for on k
    by (rule setWifiEnabled_ready [OF assms]) blast
  have set_ok: "\<exists>s'. net_setState eops x t = Inr s' \<and> led_ready eops (st_led s')" if "led_ready eops (st_led t)" for x t
    by (rule net_setState_ready [OF that]) blast
  have "\<exists>n' s' acts. eth_event eops nops c now ev n s = Inr (n', s', acts) \<and> led_ready eops (st_led s')"
  proof (cases ev)
    case ETH_GOT_IP
    let ?n1 = "n\<lparr>net_ethConnected := True\<rparr>"
    let ?n2 = "if getEthLedBrightness nops c = 0 then ?n1\<lparr>net_ethLedTimeout := now + 3000\<rparr> else ?n1"
    obtain s1 acts where s1: "setWifiEnabled eops nops c False ?n2 s = Inr (?n2\<lparr>net_wifiEnabled := False\<rparr>, s1, acts)"
      "led_ready eops (st_led s1)" using wifi by blast
    from set_ok [OF this(2), of CONN_SUCCESS] s1 ETH_GOT_IP show ?thesis by (auto simp: eth_event_def Let_def)
  next
    case ETH_DISCONNECTED
    with wifi [of True "n\<lparr>net_ethLinkUp := False, net_ethConnected := False\<rparr>"] show ?thesis
      by (auto simp: eth_event_def)
  next
    case ETH_STOP
    with wifi [of True "n\<lparr>net_ethConnected := False\<rparr>"] show ?thesis by (auto simp: eth_event_def)
  qed (use assms in \<open>simp_all add: eth_event_def Let_def\<close>)
  then obtain n1 s1 acts1 where e: "eth_event eops nops c now ev n s = Inr (n1, s1, acts1)" "led_ready eops (st_led s1)"
    by blast
  show thesis
  proof (cases "ev = WIFI_STA_DISCONNECTED \<or> ev = WIFI_STA_GOT_IP \<or> ev = NET_OTHER_EVENT \<or> \<not> HAS_ETHERNET b")
    case True
    with assms show thesis
      by (intro that [of n s "if ev = WIFI_STA_DISCONNECTED \<and> isNtpEnabled nops c then [NetSntpStop] else []"])
        (auto simp: WiFiEvent_def)
  next
    case False
    with e show thesis by (intro that [of n1 s1 acts1]) (simp_all add: WiFiEvent_def)
  qed
qed

lemma state_event_ready:
  assumes "led_ready eops (st_led s)"
  obtains s' where "state_event (led_setState eops) ev s = Inr s'" "led_ready eops (st_led s')"
proof -
  let ?s = "case ev of LED_SETUP_DONE \<Rightarrow> s\<lparr>st_current := st_prev s\<rparr> | IDENTIFY_DONE \<Rightarrow> s\<lparr>st_current := st_prev s\<rparr>
     | CONN_SUCCESS_DONE \<Rightarrow> s\<lparr>st_current := NORMAL\<rparr>"
  have "led_ready eops (st_led ?s)" using assms by (cases ev) simp_all
  from led_control.led_call_shows [OF this, of "st_current ?s"] obtain l where
    "led_call (led_setState eops) (st_current ?s) ?s = Inr (?s\<lparr>st_led := l\<rparr>)" "led_ready eops l" .
  then show thesis by (intro that [of "?s\<lparr>st_led := l\<rparr>"]) (simp_all add: state_event_def Let_def)
qed

lemma state_loop_ready:
  assumes "led_ready eops (st_led s)"
  obtains s' where "state_loop (led_setState eops) t1 t2 t3 s = Inr s'" "led_ready eops (st_led s')"
proof -
  let ?s1 = "clock_tick t1 s"
  have timeout: "\<exists>s'. (if c then state_event (led_setState eops) ev u else Inr t) = Inr s' \<and> led_ready eops (st_led s')"
    if "led_ready eops (st_led t)" "st_led u = st_led t" for c ev u t
  proof -
    have "led_ready eops (st_led u)" using that by simp
    then obtain u' where "state_event (led_setState eops) ev u = Inr u'" "led_ready eops (st_led u')"
      by (rule state_event_ready)
    with that(1) show ?thesis by (cases c) simp_all
  qed
  have r1: "led_ready eops (st_led ?s1)" using assms by (simp add: frame_simps)
  have "\<exists>s2. (if st_ledSetupTimeout ?s1 \<noteq> 0 \<and> t2 > st_ledSetupTimeout ?s1
       then state_event (led_setState eops) LED_SETUP_DONE (?s1\<lparr>st_ledSetupTimeout := 0\<rparr>) else Inr ?s1) = Inr s2 \<and>
    led_ready eops (st_led s2)"
    by (rule timeout [OF r1]) simp
  then obtain s2 where s2: "(if st_ledSetupTimeout ?s1 \<noteq> 0 \<and> t2 > st_ledSetupTimeout ?s1
       then state_event (led_setState eops) LED_SETUP_DONE (?s1\<lparr>st_ledSetupTimeout := 0\<rparr>) else Inr ?s1) = Inr s2"
    "led_ready eops (st_led s2)" by blast
  have "\<exists>s3. (if st_identifyTimeout s2 \<noteq> 0 \<and> t3 > st_identifyTimeout s2
       then state_event (led_setState eops) IDENTIFY_DONE (s2\<lparr>st_identifyTimeout := 0\<rparr>) else Inr s2) = Inr s3 \<and>
    led_ready eops (st_led s3)"
    by (rule timeout [OF s2(2)]) simp
  then obtain s3 where "(if st_identifyTimeout s2 \<noteq> 0 \<and> t3 > st_identifyTimeout s2
       then state_event (led_setState eops) IDENTIFY_DONE (s2\<lparr>st_identifyTimeout := 0\<rparr>) else Inr s2) = Inr s3"
    "led_ready eops (st_led s3)" by blast
  with s2(1) show thesis by (intro that [of s3]) (simp_all add: state_loop_def Let_def)
qed

section \<open>One event\<close>

text \<open>What an event can put into the queue of the send task, and the two ways it can crash the dock.\<close>

definition event_asks :: "('n, 'q, 'a, 'e) env \<Rightarrow> dock_event \<Rightarrow> int \<times> u32 \<times> string \<Rightarrow> bool" where
  "event_asks env ev k \<longleftrightarrow>
     (\<exists>(c, t) \<in> set (request_texts ev). asks_ir env c t k) \<or>
     (case ev of
        DoGc _ _ _ _ rx \<Rightarrow> fst k = IR_CLIENT_GC \<and> snd (snd k) = gc_request rx \<and> gc_request rx \<noteq> []
      | _ \<Rightarrow> False)"

definition event_crashes :: "('n, 'q, 'a, 'e) env \<Rightarrow> dock_event \<Rightarrow> fault \<Rightarrow> bool" where
  "event_crashes env ev f \<longleftrightarrow>
     f = Uninitialised \<and> (\<exists>(c, t) \<in> set (request_texts ev). asks_stop env t) \<or>
     f = NullPointer \<and> (case ev of DoGc _ _ _ _ rx \<Rightarrow> gc_crashes rx | _ \<Rightarrow> False)"

definition main_ok ::
  "('n, 'q, 'a, 'e) env \<Rightarrow> ('q \<Rightarrow> IRSendMessage list) \<Rightarrow> ('a \<Rightarrow> IrResponse list) \<Rightarrow>
   (int \<times> u32 \<times> string \<Rightarrow> bool) \<Rightarrow> ('n, 'q, 'a, 'e) main \<Rightarrow> bool" where
  "main_ok env contents rcontents P m \<longleftrightarrow> dock_ok env contents rcontents P (mn_dock m)"

definition step_ok ::
  "('n, 'q, 'a, 'e) env \<Rightarrow> ('q \<Rightarrow> IRSendMessage list) \<Rightarrow> ('a \<Rightarrow> IrResponse list) \<Rightarrow>
   (int \<times> u32 \<times> string \<Rightarrow> bool) \<Rightarrow> (fault \<Rightarrow> bool) \<Rightarrow> ('n, 'q, 'a, 'e) dock_result \<Rightarrow> bool" where
  "step_ok env contents rcontents P C res \<longleftrightarrow>
     (case res of
        Inl f \<Rightarrow> C f
      | Inr (m, acts) \<Rightarrow> main_ok env contents rcontents P m \<and>
          (\<forall>r. AMain (MainApi (ApiForward r)) \<in> set acts \<longrightarrow> response_ok P r \<and> 0 \<le> response_client r))"

text \<open>A step of the main loop that leaves the IR service alone.\<close>

definition calm_main ::
  "('n, 'q, 'a, 'e) env \<Rightarrow> ('n, 'q, 'a, 'e) main \<Rightarrow> ('n, 'q, 'a, 'e) main_result \<Rightarrow> bool" where
  "calm_main env m res \<longleftrightarrow> (\<exists>m' acts. res = Inr (m', acts) \<and> dock_ready env (mn_dock m') \<and>
     dk_ir (mn_dock m') = dk_ir (mn_dock m) \<and> (\<forall>a. MainApi a \<notin> set acts))"

lemma calm_main_ok:
  "calm_main env m res \<Longrightarrow> main_ok env contents rcontents P m \<Longrightarrow>
   step_ok env contents rcontents P C (of_main res)"
  by (auto simp: calm_main_def step_ok_def main_ok_def of_main_def intro: dock_ok_same)

lemma calm_main_then:
  assumes "calm_main env m r"
    and "\<And>m'. dock_ready env (mn_dock m') \<Longrightarrow> dk_ir (mn_dock m') = dk_ir (mn_dock m) \<Longrightarrow> calm_main env m (f m')"
  shows "calm_main env m (main_then r f)"
  using assms by (fastforce simp: calm_main_def main_then_def)

lemma main_setState_calm:
  assumes "dock_ready env (mn_dock m)"
  obtains m' where "main_setState env x m = Inr m'" "dock_ready env (mn_dock m')"
    "dk_ir (mn_dock m') = dk_ir (mn_dock m)"
  using calm_setState [OF assms, of 0 x] by (auto simp: calm_res_def main_setState_def)

lemma handleCharging_calm:
  assumes "dock_ready env (mn_dock m)"
  shows "\<exists>m'. handleCharging env value m = Inr m' \<and> dock_ready env (mn_dock m') \<and>
     dk_ir (mn_dock m') = dk_ir (mn_dock m)"
proof -
  let ?m = "m\<lparr>mn_counter := mn_counter m + 1\<rparr>"
  have r: "dock_ready env (mn_dock ?m)" using assms by simp
  obtain a where a: "main_setState env NORMAL_CHARGING ?m = Inr a" "dock_ready env (mn_dock a)"
    "dk_ir (mn_dock a) = dk_ir (mn_dock m)" by (rule main_setState_calm [OF r, of NORMAL_CHARGING]) simp
  obtain b where b: "main_setState env NORMAL ?m = Inr b" "dock_ready env (mn_dock b)"
    "dk_ir (mn_dock b) = dk_ir (mn_dock m)" by (rule main_setState_calm [OF r, of NORMAL]) simp
  from a b assms show ?thesis by (cases "mn_counter m = 3999") (auto simp: handleCharging_def Let_def)
qed

lemma network_step_calm: "dock_ready env (mn_dock m) \<Longrightarrow> calm_main env m (network_step env i m)"
  unfolding dock_ready_def
  by (rule handleLoop_ready [of "env_events env" "dk_state (mn_dock m)" "env_nvs env" "dk_config (mn_dock m)" "mi_net i"
        "dk_net (mn_dock m)"], assumption)
    (auto simp: network_step_def calm_main_def dock_ready_def Let_def)

lemma mdns_step_calm: "dock_ready env (mn_dock m) \<Longrightarrow> calm_main env m (mdns_step env i m)"
  by (auto simp: mdns_step_def calm_main_def split: prod.split)

lemma ota_step_calm:
  assumes "dock_ready env (mn_dock m)"
  shows "calm_main env m (ota_step env i m)"
  using run_ota_actions_calm [OF assms, of "mi_ota i"] by (auto simp: ota_step_def calm_main_def calm_res_def)

lemma calm_main_trans:
  "calm_main env m' res \<Longrightarrow> dk_ir (mn_dock m') = dk_ir (mn_dock m) \<Longrightarrow> calm_main env m res"
  by (simp add: calm_main_def)

lemma loop_services_calm:
  assumes "dock_ready env (mn_dock m)"
  shows "calm_main env m (main_then (network_step env i m) (\<lambda>m1.
     main_then (mdns_step env i m1) (\<lambda>m2. ota_step env i m2)))"
  by (intro calm_main_then network_step_calm assms)
    (auto intro!: calm_main_then intro: calm_main_trans mdns_step_calm ota_step_calm)

lemma reset_step_calm: "dock_ready env (mn_dock m) \<Longrightarrow> calm_main env m (reset_step env m)"
  by (rule main_setState_calm [of env m ERROR])
    (auto simp: reset_step_def calm_main_def map_dock_def)

lemma state_step_calm:
  assumes "dock_ready env (mn_dock m)"
  shows "calm_main env m (state_step env i m)"
proof -
  obtain t1 t2 t3 where t: "mi_clock i = (t1, t2, t3)" by (cases "mi_clock i")
  have "led_ready (env_events env) (st_led (dk_state (mn_dock m)))" using assms by (simp add: dock_ready_def)
  from state_loop_ready [OF this, of t1 t2 t3] obtain s' where
    "state_loop (led_setState (env_events env)) t1 t2 t3 (dk_state (mn_dock m)) = Inr s'"
    "led_ready (env_events env) (st_led s')" .
  with t show ?thesis by (simp add: state_step_def calm_main_def map_dock_def dock_ready_def)
qed

lemma net_event_calm: "dock_ready env (mn_dock m) \<Longrightarrow> calm_main env m (net_event_step env now ev m)"
  unfolding dock_ready_def
  by (rule WiFiEvent_ready [of "env_events env" "dk_state (mn_dock m)" "env_board env" "env_nvs env"
        "dk_config (mn_dock m)" now ev "dk_net (mn_dock m)"], assumption)
    (auto simp: net_event_step_def calm_main_def dock_ready_def Let_def)

lemma button_dock [simp]: "mn_dock (handleButtonPress low t m) = mn_dock m"
  by (simp add: handleButtonPress_def Let_def)

lemma requests_ok:
  assumes "queue_spec 1 contents (env_queue env)" "dock_ready env d"
    and "(if c then Inr (d, []) else bind_res (processRequest env now (Some t) source True (- 1) d)
      (\<lambda>(_, d', acts). Inr (d', acts))) = r"
    and "\<And>k. \<not> c \<Longrightarrow> asks_ir env (- 1) t k \<Longrightarrow> P k"
  shows "case r of Inl f \<Rightarrow> \<not> c \<and> f = Uninitialised \<and> asks_stop env t
    | Inr (d', acts) \<Rightarrow> dock_frame env contents P d d' \<and> no_forward acts"
proof (cases "c")
  case True
  with assms(2,3) show ?thesis by auto
next
  case False
  show ?thesis
  proof (cases "processRequest env now (Some t) source True (- 1) d")
    case (Inl f)
    with False assms(3) processRequest_fault [OF assms(2) Inl] show ?thesis by auto
  next
    case (Inr x)
    obtain ok d' acts where x: "x = (ok, d', acts)" by (cases x)
    with Inr False assms(3) processRequest_frame [OF assms(1,2), of now t source True "- 1" ok d' acts P] assms(4)
    show ?thesis by auto
  qed
qed

lemma api_step_ok:
  assumes "queue_spec 1 contents (env_queue env)" "queue_spec n rcontents (env_responses env)"
    and "main_ok env contents rcontents P m"
    and "\<And>k. event_asks env (DoApi i) k \<Longrightarrow> P k"
  shows "step_ok env contents rcontents P (event_crashes env (DoApi i)) (of_main (api_step env i m))"
proof -
  let ?d = "mn_dock m"
  have ok: "dock_ok env contents rcontents P ?d" and rdy: "dock_ready env ?d"
    using assms(3) by (simp_all add: main_ok_def dock_ok_def)
  have texts: "(uint num, t) \<in> set (request_texts (DoApi i))" if "(now, num, WsText t) \<in> set (mi_ws i)" for now num t
    using that by (force simp: List.map_filter_def)
  show ?thesis
  proof (cases "ws_events env (mi_ws i) ?d")
    case (Inl f)
    from ws_events_fault [OF assms(1) rdy Inl] texts have "event_crashes env (DoApi i) f"
      unfolding event_crashes_def by blast
    with Inl show ?thesis by (simp add: api_step_def api_loop_def of_main_def step_ok_def)
  next
    case (Inr x)
    obtain d1 acts1 where x: "x = (d1, acts1)" by (cases x)
    have ws: "P k" if "(now, num, WsText t) \<in> set (mi_ws i)" "asks_ir env (uint num) t k" for now num t k
      by (rule assms(4), unfold event_asks_def) (use texts [OF that(1)] that(2) in blast)
    have f1: "dock_frame env contents P ?d d1 \<and> no_forward acts1"
      by (rule ws_events_frame [OF assms(1) rdy _ ws]) (use Inr x in simp_all)
    then have r1: "dock_ready env d1" and ok1: "dock_ok env contents rcontents P d1"
      using ok by (auto simp: dock_frame_def intro: dock_ok_frame)
    obtain r where r: "handleSerial env (mi_now i) (mi_serial i) (mi_serialStale i) d1 = r" by simp
    have "\<And>k. mi_serial i \<noteq> [] \<Longrightarrow> asks_ir env (- 1) (serial_text (mi_serial i) (mi_serialStale i)) k \<Longrightarrow> P k"
      using assms(4) by (auto simp: event_asks_def)
    with r have case2: "case r of Inl f \<Rightarrow> mi_serial i \<noteq> [] \<and> f = Uninitialised \<and>
          asks_stop env (serial_text (mi_serial i) (mi_serialStale i))
        | Inr (d', acts) \<Rightarrow> dock_frame env contents P d1 d' \<and> no_forward acts"
      unfolding handleSerial_def serial_text_def by (intro requests_ok [OF assms(1) r1]) auto
    show ?thesis
    proof (cases r)
      case (Inl f)
      with case2 have "event_crashes env (DoApi i) f" by (simp add: event_crashes_def)
      with Inl \<open>ws_events env (mi_ws i) ?d = Inr x\<close> x r show ?thesis
        by (simp add: api_step_def api_loop_def of_main_def step_ok_def)
    next
      case r2: (Inr y)
      obtain d2 acts2 where y: "y = (d2, acts2)" by (cases y)
      with case2 r2 have f2: "dock_frame env contents P d1 d2" "no_forward acts2" by simp_all
      obtain d3 acts3 where f3: "forward_response env d2 = (d3, acts3)" by fastforce
      from forward_response_ok [OF assms(2) dock_ok_frame [OF f2(1) ok1] f3]
      have ok3: "dock_ok env contents rcontents P d3" "forwards_ok P acts3" by simp_all
      have "forwards_ok P (acts1 @ acts2 @ acts3)" using f1 f2 ok3 by (simp add: no_forward_ok)
      with ok3 r2 y r x f3 \<open>ws_events env (mi_ws i) ?d = Inr x\<close> show ?thesis
        by (auto simp: api_step_def api_loop_def of_main_def step_ok_def main_ok_def forwards_ok_def)
    qed
  qed
qed

lemma services_step_ok:
  assumes "queue_spec 1 contents (env_queue env)" "main_ok env contents rcontents P m"
    and "\<And>k. event_asks env (DoServices i) k \<Longrightarrow> P k"
  shows "step_ok env contents rcontents P (event_crashes env (DoServices i)) (of_main (services_step env i m))"
proof (cases "main_state m = SETUP")
  case True
  let ?d = "mn_dock m"
  have ok: "dock_ok env contents rcontents P ?d" and rdy: "dock_ready env ?d"
    using assms(2) by (simp_all add: main_ok_def dock_ok_def)
  let ?line = "take 1023 (takeWhile (\<lambda>c. c \<noteq> CHR ''\<newline>'') (mi_bluetooth i))"
  obtain r where r: "bluetooth_handle env (mi_now i) (mi_bluetooth i) (mi_bluetoothStale i) ?d = r" by simp
  have asked: "P k" if "?line \<noteq> []" "asks_ir env (- 1) (bluetooth_text (mi_bluetooth i) (mi_bluetoothStale i)) k" for k
  proof -
    from that(1) have "mi_bluetooth i \<noteq> []" by auto
    with that(2) show ?thesis by (intro assms(3)) (simp add: event_asks_def)
  qed
  from r have "(if ?line = [] then Inr (?d, []) else bind_res (processRequest env (mi_now i)
      (Some (bluetooth_text (mi_bluetooth i) (mi_bluetoothStale i))) Bluetooth True (- 1) ?d)
      (\<lambda>(_, d', acts). Inr (d', acts))) = r"
    by (simp only: bluetooth_handle_def bluetooth_text_def Let_def)
  from requests_ok [OF assms(1) rdy this asked]
  have "case r of Inl f \<Rightarrow> ?line \<noteq> [] \<and> f = Uninitialised \<and>
        asks_stop env (bluetooth_text (mi_bluetooth i) (mi_bluetoothStale i))
      | Inr (d', acts) \<Rightarrow> dock_frame env contents P ?d d' \<and> no_forward acts" .
  then show ?thesis
    using True r dock_ok_frame [OF _ ok]
    by (cases r)
      (auto simp: services_step_def setup_mode_step_def step_ok_def of_main_def main_ok_def event_crashes_def
        forwards_ok_def dest!: no_forward_ok [of _ P] split: if_splits)
next
  case False
  have "dock_ready env (mn_dock m)" using assms(2) by (simp add: main_ok_def dock_ok_def)
  from loop_services_calm [OF this, of i] False show ?thesis
    by (simp add: services_step_def calm_main_ok [OF _ assms(2)])
qed

text \<open>The codes the send task can be given.\<close>

definition sendable :: "int \<times> u32 \<times> string \<Rightarrow> bool" where
  "sendable k \<longleftrightarrow> snd (snd k) \<noteq> [] \<and> length (snd (snd k)) \<le> 32767"

lemma ir_send_step_ok:
  assumes "queue_spec 1 contents (env_queue env)" "queue_spec n rcontents (env_responses env)"
    and "main_ok env contents rcontents P m" "\<And>f. (\<forall>k. P k \<longrightarrow> sendable k) \<or> C f"
  shows "step_ok env contents rcontents P C (ir_send_step env lib mem m)"
proof -
  let ?s = "dk_ir (mn_dock m)"
  have ok: "ir_ok contents rcontents P ?s" using assms(3) by (simp add: main_ok_def dock_ok_def)
  have "\<exists>r. send_round lib mem (env_queue env) (env_responses env) ?s = Inr r" if all: "\<forall>k. P k \<longrightarrow> sendable k"
  proof (cases "\<exists>q a x. ir_queue ?s = Some q \<and> ir_apiResponseQueue ?s = Some a \<and> q_peek (env_queue env) q = Some x")
    case True
    then obtain q a x where q: "ir_queue ?s = Some q" "ir_apiResponseQueue ?s = Some a" "q_peek (env_queue env) q = Some x"
      by blast
    then have "x \<in> set (contents q)" using queue_peek [OF assms(1), of q] by (cases "contents q") auto
    with q(1) ok have "P (request_key x)" by (auto simp: ir_ok_def in_queue_def list_all_iff)
    with all obtain y where "transmit lib mem x = Inr y"
      using transmit_returns [of x lib mem] by (auto simp: sendable_def request_key_def)
    with q show ?thesis by (cases y) (simp add: send_round_def case_prod_unfold)
  qed (auto simp: send_round_def split: option.split)
  then consider f where "send_round lib mem (env_queue env) (env_responses env) ?s = Inl f" "C f"
    | r s' where "send_round lib mem (env_queue env) (env_responses env) ?s = Inr (r, s')"
    using assms(4) by (cases "send_round lib mem (env_queue env) (env_responses env) ?s") auto
  then show ?thesis
  proof cases
    case 1
    then show ?thesis by (simp add: ir_send_step_def step_ok_def)
  next
    case 2
    from send_round_ok [OF assms(1,2) 2 ok] 2 assms(3) show ?thesis
      by (auto simp: ir_send_step_def step_ok_def main_ok_def dock_ok_def map_dock_def split: option.splits)
  qed
qed

lemma ir_learn_step_ok:
  assumes "queue_spec n rcontents (env_responses env)" "main_ok env contents rcontents P m"
  shows "step_ok env contents rcontents P C (ir_learn_step env hexOf now res m)"
proof -
  let ?d = "mn_dock m"
  obtain ir acts where learn: "learn_round hexOf (env_responses env) res (dk_ir ?d) = (ir, acts)" by fastforce
  have ok: "ir_ok contents rcontents P ir" "dock_ready env (?d\<lparr>dk_ir := ir\<rparr>)"
    using learn_round_ok [OF assms(1) learn] assms(2) by (simp_all add: main_ok_def dock_ok_def)
  from run_ir_actions_calm [OF ok(2), of now acts] ok(1) show ?thesis
    by (auto simp: ir_learn_step_def learn step_ok_def main_ok_def dock_ok_def)
qed

lemma gc_step_ok:
  assumes "queue_spec 1 contents (env_queue env)" "main_ok env contents rcontents P m"
    and "\<And>k. event_asks env (DoGc now cl sent sent2 rx) k \<Longrightarrow> P k"
  shows "step_ok env contents rcontents P (event_crashes env (DoGc now cl sent sent2 rx))
    (gc_step env now cl sent sent2 rx m)"
proof -
  let ?d = "mn_dock m"
  obtain r where r: "gc_round cl (env_queue env) (env_events env) sent sent2 rx (dk_ir ?d) = r" by simp
  show ?thesis
  proof (cases r)
    case (Inl f)
    with gc_round_crashes [OF r [unfolded Inl]] r show ?thesis
      by (simp add: gc_step_def step_ok_def event_crashes_def)
  next
    case (Inr x)
    obtain go acts ir where x: "x = (go, acts, ir)" by (cases x)
    have "ir_frame contents P (dk_ir ?d) ir"
      by (rule ir_frame_mono [OF gc_round_frame [OF assms(1)]])
        (use r Inr x assms(3) in \<open>auto simp: event_asks_def\<close>)
    then have ok: "ir_ok contents rcontents P ir" "dock_ready env (?d\<lparr>dk_ir := ir\<rparr>)"
      using assms(2) by (auto simp: main_ok_def dock_ok_def intro: ir_ok_frame)
    from run_gc_actions_calm [OF ok(2), of now acts] ok(1) r Inr x show ?thesis
      by (auto simp: gc_step_def step_ok_def main_ok_def dock_ok_def calm_res_def)
  qed
qed

lemma led_step_ok:
  assumes "main_ok env contents rcontents P m"
  shows "step_ok env contents rcontents P C (led_step env scale poll bits m)"
proof -
  let ?d = "mn_dock m" and ?l = "st_led (dk_state (mn_dock m))"
  from assms obtain e where e: "eventgroup_spec (env_events env)" "led_eventgroup ?l = Some e"
    "eg_get (env_events env) e AND NOT 0xFFFF = 0"
    by (auto simp: main_ok_def dock_ok_def dock_ready_def led_ready_def)
  let ?acts = "ledTask_cycle scale poll bits ?l"
  have "eg_get (env_events env) (clear_after (env_events env) ?acts e) AND NOT 0xFFFF = 0"
    using e(3) by (simp add: clear_after_cycle [OF e(1)] and.assoc and.left_commute [of _ "NOT (once_bit (select_pattern bits))"])
  with e assms show ?thesis
    by (auto simp: led_step_def step_ok_def main_ok_def dock_ok_def dock_ready_def led_ready_def map_dock_def map_led_def Let_def)
qed

lemma step_ok_mono:
  "step_ok env contents rcontents P C res \<Longrightarrow> (\<And>f. C f \<Longrightarrow> D f) \<Longrightarrow> step_ok env contents rcontents P D res"
  by (cases res) (auto simp: step_ok_def)

lemma dock_step_ok:
  assumes "queue_spec 1 contents (env_queue env)" "queue_spec n rcontents (env_responses env)"
    and "main_ok env contents rcontents P m" and "\<And>k. event_asks env ev k \<Longrightarrow> P k"
  shows "step_ok env contents rcontents P (\<lambda>f. event_crashes env ev f \<or> \<not> (\<forall>k. P k \<longrightarrow> sendable k))
    (dock_step env lib hexOf ev m)"
    (is "step_ok _ _ _ _ ?C _")
proof -
  have rdy: "dock_ready env (mn_dock m)" using assms(3) by (simp add: main_ok_def dock_ok_def)
  note calm = calm_main_ok [OF _ assms(3)]
  show ?thesis
  proof (cases ev)
    case (DoCharging v)
    with handleCharging_calm [OF rdy, of v] assms(3) show ?thesis
      by (auto simp: dock_step_def step_ok_def main_ok_def intro: dock_ok_same)
  next
    case (DoApi i)
    have "step_ok env contents rcontents P (event_crashes env (DoApi i)) (of_main (api_step env i m))"
      by (rule api_step_ok [OF assms(1-3)]) (use assms(4) DoApi in blast)
    with DoApi show ?thesis by (auto simp: dock_step_def elim: step_ok_mono)
  next
    case (DoServices i)
    have "step_ok env contents rcontents P (event_crashes env (DoServices i)) (of_main (services_step env i m))"
      by (rule services_step_ok [OF assms(1,3)]) (use assms(4) DoServices in blast)
    with DoServices show ?thesis by (auto simp: dock_step_def elim: step_ok_mono)
  next
    case DoReset
    with calm [OF reset_step_calm [OF rdy]] show ?thesis by (simp add: dock_step_def)
  next
    case (DoState i)
    with calm [OF state_step_calm [OF rdy]] show ?thesis by (simp add: dock_step_def)
  next
    case (DoNet now e)
    with calm [OF net_event_calm [OF rdy]] show ?thesis by (simp add: dock_step_def)
  next
    case (DoButton low t)
    with assms(3) show ?thesis by (simp add: dock_step_def step_ok_def main_ok_def)
  next
    case (DoIrSend mem)
    have "step_ok env contents rcontents P ?C (ir_send_step env lib mem m)"
      by (rule ir_send_step_ok [OF assms(1-3)]) blast
    with DoIrSend show ?thesis by (simp add: dock_step_def)
  next
    case (DoIrLearn now res)
    with ir_learn_step_ok [OF assms(2,3)] show ?thesis by (simp add: dock_step_def)
  next
    case (DoGc now cl sent sent2 rx)
    have "step_ok env contents rcontents P (event_crashes env (DoGc now cl sent sent2 rx))
        (gc_step env now cl sent sent2 rx m)"
      by (rule gc_step_ok [OF assms(1,3)]) (use assms(4) DoGc in blast)
    with DoGc show ?thesis by (auto simp: dock_step_def elim: step_ok_mono)
  next
    case (DoLed scale poll bits)
    with led_step_ok [OF assms(3)] show ?thesis by (simp add: dock_step_def)
  qed
qed

lemma dock_run_ok:
  assumes "queue_spec 1 contents (env_queue env)" "queue_spec n rcontents (env_responses env)"
    and "main_ok env contents rcontents P m"
    and "\<And>ev k. ev \<in> set evs \<Longrightarrow> event_asks env ev k \<Longrightarrow> P k"
  shows "step_ok env contents rcontents P 
     (\<lambda>f. (\<exists>ev \<in> set evs. event_crashes env ev f) \<or> \<not> (\<forall>k. P k \<longrightarrow> sendable k)) (dock_run env lib hexOf evs m)"
  using assms(3,4)
proof (induction evs arbitrary: m)
  case Nil
  then show ?case by (simp add: step_ok_def)
next
  case (Cons ev evs)
  have one: "step_ok env contents rcontents P (\<lambda>f. event_crashes env ev f \<or> \<not> (\<forall>k. P k \<longrightarrow> sendable k))
      (dock_step env lib hexOf ev m)"
    by (rule dock_step_ok [OF assms(1,2) Cons.prems(1)]) (rule Cons.prems(2) [OF list.set_intros(1)])
  show ?case
  proof (cases "dock_step env lib hexOf ev m")
    case (Inl f)
    with one show ?thesis by (auto simp: step_ok_def)
  next
    case (Inr x)
    obtain m1 acts1 where x: "x = (m1, acts1)" by (cases x)
    with one Inr have m1: "main_ok env contents rcontents P m1" by (simp add: step_ok_def)
    have "step_ok env contents rcontents P
        (\<lambda>f. (\<exists>ev \<in> set evs. event_crashes env ev f) \<or> \<not> (\<forall>k. P k \<longrightarrow> sendable k)) (dock_run env lib hexOf evs m1)"
      by (rule Cons.IH [OF m1]) (rule Cons.prems(2) [OF list.set_intros(2)])
    with one Inr x show ?thesis
      by (cases "dock_run env lib hexOf evs m1") (auto simp: step_ok_def dock_then_def)
  qed
qed

section \<open>The start\<close>

lemma early_events_ready:
  assumes "led_ready (env_events env) (st_led s)"
  shows "\<exists>n' s' acts. early_events env c evs n s = Inr (n', s', acts) \<and> led_ready (env_events env) (st_led s')"
  using assms
proof (induction env c evs n s rule: early_events.induct)
  case (2 env c now ev evs n s)
  obtain n1 s1 acts1 where one:
    "WiFiEvent (env_board env) (env_events env) (env_nvs env) c now ev n s = Inr (n1, s1, acts1)"
    "led_ready (env_events env) (st_led s1)" by (rule WiFiEvent_ready [OF "2.prems"])
  obtain n2 s2 acts2 where "early_events env c evs n1 s1 = Inr (n2, s2, acts2)" "led_ready (env_events env) (st_led s2)"
    using "2.IH" [OF one(2)] by blast
  with one(1) show ?case by simp
qed simp

lemma choose_network_ready:
  assumes "led_ready (env_events env) (st_led s)"
  obtains n' s' acts where "choose_network env c n s = Inr (n', s', acts)" "led_ready (env_events env) (st_led s')"
proof -
  let ?eops = "env_events env" and ?nops = "env_nvs env"
  have step: "\<exists>n' s' acts. bind_res (net_setState ?eops x s) (setWifiEnabled ?eops ?nops c on n) = Inr (n', s', acts) \<and>
      led_ready ?eops (st_led s')" for x on
  proof -
    obtain t where t: "net_setState ?eops x s = Inr t" "led_ready ?eops (st_led t)"
      by (rule net_setState_ready [OF assms])
    obtain s' acts where "setWifiEnabled ?eops ?nops c on n t = Inr (n\<lparr>net_wifiEnabled := on\<rparr>, s', acts)"
      "led_ready ?eops (st_led s')" by (rule setWifiEnabled_ready [OF t(2)])
    with t(1) show ?thesis by simp
  qed
  have off: "\<exists>n' s' acts. setWifiEnabled ?eops ?nops c False n s = Inr (n', s', acts) \<and> led_ready ?eops (st_led s')"
    by (rule setWifiEnabled_ready [OF assms, of ?nops c False n]) blast
  have "\<exists>n' s' acts. choose_network env c n s = Inr (n', s', acts) \<and> led_ready ?eops (st_led s')"
    unfolding choose_network_def Let_def using step off by (simp only: split: if_split) simp
  with that show thesis by blast
qed

text \<open>FreeRTOS creates event groups without bits and empty queues.\<close>

definition created_empty ::
  "('n, 'q, 'a, 'e) env \<Rightarrow> ('q \<Rightarrow> IRSendMessage list) \<Rightarrow> ('a \<Rightarrow> IrResponse list) \<Rightarrow> ('q, 'a, 'e) created \<Rightarrow> bool" where
  "created_empty env contents rcontents cr \<longleftrightarrow> eg_get (env_events env) (cr_ledGroup cr) = 0 \<and>
     (case cr_irQueue cr of None \<Rightarrow> True | Some q \<Rightarrow> contents q = []) \<and>
     (case cr_irResponses cr of None \<Rightarrow> True | Some a \<Rightarrow> rcontents a = [])"

lemma ir_init_ok:
  assumes "created_empty env contents rcontents cr"
    and "ir_init (cr_irQueue cr) (cr_irGroup cr) (cr_irResponses cr) sc sp lc lp ir_start = (s, acts)"
  shows "ir_ok contents rcontents P s"
  using assms
  by (auto simp: created_empty_def ir_init_def ir_start_def ir_ok_def in_queue_def in_responses_def Let_def
      split: if_splits option.splits)

lemma dock_setup_ok:
  assumes "eventgroup_spec (env_events env)" "created_empty env contents rcontents cr"
  obtains m acts where "dock_setup env cr c log0 v evs = Inr (m, acts)" "main_ok env contents rcontents P m"
    "dk_config (mn_dock m) = c" "dk_authWsClients (mn_dock m) = {}" "\<not> mn_resetMarker m"
    "dk_ir (mn_dock m) = fst (ir_init (cr_irQueue cr) (cr_irGroup cr) (cr_irResponses cr) (getIrSendCore (env_nvs env) c)
       (getIrSendPriority (env_nvs env) c) (getIrLearnCore (env_nvs env) c) (getIrLearnPriority (env_nvs env) c) ir_start)"
proof -
  let ?eops = "env_events env" and ?nops = "env_nvs env"
  let ?led = "led_init (cr_ledGroup cr) (getTestMode ?nops c) (setLedMaxBrightness (getLedBrightness ?nops c) led_start)"
  have "led_ready ?eops (st_led (State_init ?led))"
    using assms by (simp add: created_empty_def led_ready_def State_init_def led_init_def setLedMaxBrightness_def led_start_def)
  then obtain s1 where s1: "net_setState ?eops SETUP (State_init ?led) = Inr s1" "led_ready ?eops (st_led s1)"
    by (rule net_setState_ready)
  obtain s2 where s2: "setupChargingPin ?eops v s1 = Inr s2" "led_ready ?eops (st_led s2)"
    by (cases "v > 200", rule net_setState_ready [OF s1(2), of NORMAL_CHARGING]) (use s1 in \<open>auto simp: setupChargingPin_def\<close>)
  obtain n1 a1 where n1: "net_init (env_board env) ?nops c net_start = (n1, a1)" by fastforce
  obtain ir ia where ir: "ir_init (cr_irQueue cr) (cr_irGroup cr) (cr_irResponses cr) (getIrSendCore ?nops c)
      (getIrSendPriority ?nops c) (getIrLearnCore ?nops c) (getIrLearnPriority ?nops c) ir_start = (ir, ia)"
    by fastforce
  obtain n2 s3 a2 where e: "early_events env c evs n1 s2 = Inr (n2, s3, a2)" "led_ready ?eops (st_led s3)"
    using early_events_ready [OF s2(2)] by blast
  obtain n3 s4 a3 where ch: "choose_network env c n2 s3 = Inr (n3, s4, a3)" "led_ready ?eops (st_led s4)"
    by (rule choose_network_ready [OF e(2)])
  obtain m acts where run: "dock_setup env cr c log0 v evs = Inr (m, acts)"
    and m: "mn_dock m = \<lparr>dk_config = c, dk_state = s4, dk_net = n3, dk_ir = ir,
        dk_log = start_syslog ?nops c (setFilterLevel (getLogLevel ?nops c) log0), dk_authWsClients = {}, dk_prevState = None\<rparr>"
      "\<not> mn_resetMarker m"
    unfolding dock_setup_def Let_def by (simp add: s1 s2 n1 ir e ch)
  have "main_ok env contents rcontents P m"
    using m(1) ch(2) ir_init_ok [OF assms(2) ir] by (simp add: main_ok_def dock_ok_def dock_ready_def)
  with run m ir that show thesis by simp
qed

end
