(* ===== verification/DockProperties.thy ===== *)
theory DockProperties
  imports DockSafety
begin

text \<open>
  The properties of the whole dock: when it fails, where the results of the IR service go, and what
  cannot be changed from the network without the token.
\<close>

section \<open>When the dock fails\<close>

text \<open>Codes and Global Cache requests that an \<open>int16_t\<close> can index; the buffer of the server has 1024 bytes.\<close>

definition event_fits :: "('n, 'q, 'a, 'e) env \<Rightarrow> dock_event \<Rightarrow> bool" where
  "event_fits env ev \<longleftrightarrow>
     (\<forall>(c, t) \<in> set (request_texts ev).
        case env_parse env t of None \<Rightarrow> True | Some req \<Rightarrow> length (jd_string req ''code'') \<le> 32767) \<and>
     (case ev of DoGc _ _ _ _ rx \<Rightarrow> length rx \<le> 32767 | _ \<Rightarrow> True)"

lemma length_gc_request: "length (gc_request rx) \<le> length rx"
  by (simp add: gc_request_def split: option.split)

lemma event_fits_sendable:
  assumes "event_fits env ev" "event_asks env ev k"
  shows "sendable k"
proof -
  from assms(2) consider c t where "(c, t) \<in> set (request_texts ev)" "asks_ir env c t k"
    | now cl sent sent2 rx where "ev = DoGc now cl sent sent2 rx" "snd (snd k) = gc_request rx" "gc_request rx \<noteq> []"
    by (auto simp: event_asks_def split: dock_event.splits)
  then show ?thesis
  proof cases
    case 1
    with assms(1) show ?thesis by (auto simp: event_fits_def asks_ir_def sendable_def split: option.splits)
  next
    case 2
    with assms(1) length_gc_request [of rx] show ?thesis by (simp add: event_fits_def sendable_def)
  qed
qed


section \<open>Where results go\<close>


text \<open>
  The number is all that identifies the client: after a new connection with the same number, which is
  not authenticated, it gets the result the former client asked for.
\<close>

theorem result_reaches_successor:
  assumes "queue_spec n rcontents (env_responses env)" "ir_apiResponseQueue (dk_ir d) = Some a"
    and "rcontents a = IrSendDone (uint num) i code # rs"
  shows "\<exists>d1 acts1 d2. ws_events env [(t1, num, WsDisconnected), (t2, num, WsConnected)] d = Inr (d1, acts1) \<and>
     num \<notin> dk_authWsClients d1 \<and> forward_response env d1 = (d2, [ApiForward (IrSendDone (uint num) i code)])"
proof -
  obtain a' where recv: "q_receive (env_responses env) a = Some (IrSendDone (uint num) i code, a')"
    using queue_receive [OF assms(1), of a] assms(3) by (cases "q_receive (env_responses env) a") auto
  have "0 \<le> uint num" by simp
  then have "uint num \<noteq> IR_CLIENT_GC" unfolding IR_CLIENT_GC_def by linarith
  with assms(2) recv show ?thesis
    by (auto simp: ws_event_def forward_response_def apiResponse_def)
qed

section \<open>What outsiders can change\<close>

definition settings :: "('n, 'q, 'a, 'e) dock \<Rightarrow> 'n config \<times> UCLog \<times> u8 set \<times> States option" where
  "settings d = (dk_config d, dk_log d, dk_authWsClients d, dk_prevState d)"

lemma settings_updates [simp]:
  "settings (d\<lparr>dk_state := s\<rparr>) = settings d" "settings (d\<lparr>dk_ir := r\<rparr>) = settings d"
  "settings (d\<lparr>dk_net := n\<rparr>) = settings d" "settings (map_led f d) = settings d"
  by (simp_all add: settings_def map_led_def)

lemma settings_setState: "dock_setState env now x d = Inr d' \<Longrightarrow> settings d' = settings d"
  by (auto simp: dock_setState_def bind_res_Inr_iff)

lemma settings_ir: "run_ir_actions env now as d = Inr (d', acts) \<Longrightarrow> settings d' = settings d"
proof (induction as arbitrary: d acts)
  case (Cons a as)
  then obtain d1 acts1 where "(case a of IrSetState x \<Rightarrow> dock_setState env now x d | _ \<Rightarrow> Inr d) = Inr d1"
    "run_ir_actions env now as d1 = Inr (d', acts1)"
    by (auto simp: bind_res_Inr_iff split: prod.splits)
  with Cons.IH [OF this(2)] show ?case by (cases a) (auto dest: settings_setState)
qed simp

lemma settings_gc: "run_gc_actions env now as d = Inr d' \<Longrightarrow> settings d' = settings d"
  by (induction as arbitrary: d)
    (fastforce simp: bind_res_Inr_iff dest: settings_setState split: gc_action.splits ir_action.splits)+

lemma settings_ota: "run_ota_actions env as d = Inr d' \<Longrightarrow> settings d' = settings d"
  by (induction as arbitrary: d) (fastforce simp: bind_res_Inr_iff dest: settings_setState split: if_splits)+

text \<open>
  Events that need no knowledge of the token, no hand on the button and no cable: clients that are not
  authenticated and do not present the token in force.
\<close>

definition outsider_event :: "('n, 'q, 'a, 'e) env \<Rightarrow> 'n config \<Rightarrow> u8 set \<Rightarrow> dock_event \<Rightarrow> bool" where
  "outsider_event env c clients ev \<longleftrightarrow>
     (case ev of
        DoApi i \<Rightarrow> mi_serial i = [] \<and>
          (\<forall>(now, num, e) \<in> set (mi_ws i). num \<notin> clients \<and>
             (case e of WsText t \<Rightarrow> \<not> presents_token env (getToken (env_nvs env) c) t | _ \<Rightarrow> True))
      | DoServices i \<Rightarrow> mi_bluetooth i = []
      | DoButton low t \<Rightarrow> False
      | _ \<Rightarrow> True)"

fun outsider_action :: "dock_action \<Rightarrow> bool" where
  "outsider_action (AMain (MainApi (ApiForward r))) = True"
| "outsider_action (AMain (MainApi (ApiBroadcast r))) = True"
| "outsider_action (AMain (MainApi a)) = harmless a"
| "outsider_action (AMain MainRestart) = False"
| "outsider_action _ = True"

text \<open>No setting changes, no client becomes authenticated, no reset is requested.\<close>

definition unchanged :: "('n, 'q, 'a, 'e) main \<Rightarrow> ('n, 'q, 'a, 'e) main \<times> dock_action list \<Rightarrow> bool" where
  "unchanged m r \<longleftrightarrow> settings (mn_dock (fst r)) = settings (mn_dock m) \<and>
     mn_resetMarker (fst r) = mn_resetMarker m \<and> list_all outsider_action (snd r)"

lemma outsider_main:
  "(\<And>a. MainApi a \<notin> set acts) \<Longrightarrow> MainRestart \<notin> set acts \<Longrightarrow> list_all outsider_action (map AMain acts)"
proof (induction acts)
  case (Cons a acts)
  then show ?case by (cases a) auto
qed simp

lemma harmless_outsider: "harmless a \<Longrightarrow> outsider_action (AMain (MainApi a))"
  by (cases a) simp_all

lemma api_step_unchanged:
  assumes "outsider_event env (dk_config (mn_dock m)) (dk_authWsClients (mn_dock m)) (DoApi i)" "api_step env i m = Inr (m', acts)"
  shows "unchanged m (m', map AMain acts)"
proof -
  let ?d = "mn_dock m"
  have "\<forall>(now, num, ev) \<in> set (mi_ws i). num \<notin> dk_authWsClients ?d \<and>
     (\<forall>t. ev = WsText t \<longrightarrow> \<not> presents_token env (getToken (env_nvs env) (dk_config ?d)) t)"
    using assms(1) by (fastforce simp: outsider_event_def)
  from unauthenticated_events [OF this] obtain acts1 where
    ws: "ws_events env (mi_ws i) ?d = Inr (?d, acts1)" "list_all harmless acts1" by blast
  obtain d3 acts3 where f: "forward_response env ?d = (d3, acts3)" by fastforce
  then have d3: "settings d3 = settings ?d" "list_all (\<lambda>a. outsider_action (AMain (MainApi a))) acts3"
    by (auto simp: forward_response_def split: prod.splits option.splits)
  have "m' = m\<lparr>mn_dock := d3\<rparr>" "acts = map MainApi (acts1 @ acts3)"
    using assms ws(1) f by (auto simp: api_step_def api_loop_def handleSerial_def outsider_event_def)
  with d3 ws(2) show ?thesis
    by (auto simp: unchanged_def list_all_iff intro: harmless_outsider)
qed

lemma services_step_unchanged:
  assumes "mi_bluetooth i = []" "services_step env i m = Inr (m', acts)"
  shows "unchanged m (m', map AMain acts)"
proof -
  have net: "settings (mn_dock m1) = settings (mn_dock m) \<and> mn_resetMarker m1 = mn_resetMarker m \<and>
      (\<exists>as. acts1 = map MainNet as)" if "network_step env i m = Inr (m1, acts1)" for m1 acts1
    using that by (auto simp: network_step_def Let_def bind_res_Inr_iff)
  have mdns: "settings (mn_dock m2) = settings (mn_dock m1) \<and> mn_resetMarker m2 = mn_resetMarker m1 \<and>
      (\<exists>as. acts2 = map MainMdns as)" if "mdns_step env i m1 = Inr (m2, acts2)" for m1 m2 acts2
    using that by (auto simp: mdns_step_def split: prod.splits)
  have ota: "settings (mn_dock m3) = settings (mn_dock m2) \<and> mn_resetMarker m3 = mn_resetMarker m2 \<and>
      acts3 = map MainOta (mi_ota i)" if "ota_step env i m2 = Inr (m3, acts3)" for m2 m3 acts3
    using that by (auto simp: ota_step_def bind_res_Inr_iff dest: settings_ota)
  show ?thesis
  proof (cases "main_state m = SETUP")
    case True
    with assms show ?thesis
      by (auto simp: services_step_def setup_mode_step_def bluetooth_handle_def unchanged_def)
  next
    case False
    then have run: "main_then (network_step env i m) (\<lambda>m1. main_then (mdns_step env i m1) (ota_step env i)) = Inr (m', acts)"
      using assms(2) by (simp add: services_step_def)
    obtain m1 acts1 where s1: "network_step env i m = Inr (m1, acts1)"
      using run by (auto simp: main_then_def bind_res_Inr_iff)
    from net [OF this] obtain as where n1: "settings (mn_dock m1) = settings (mn_dock m)"
      "mn_resetMarker m1 = mn_resetMarker m" "acts1 = map MainNet as" by blast
    obtain m2 acts2 where s2: "mdns_step env i m1 = Inr (m2, acts2)" by (cases "mdns_step env i m1") (auto simp: mdns_step_def split: prod.splits)
    from mdns [OF this] obtain bs where n2: "settings (mn_dock m2) = settings (mn_dock m1)"
      "mn_resetMarker m2 = mn_resetMarker m1" "acts2 = map MainMdns bs" by blast
    have "m' = m1 \<and> acts = acts1 \<or> (\<exists>acts3. ota_step env i m2 = Inr (m', acts3) \<and> acts = acts1 @ acts2 @ acts3) \<or>
        m' = m2 \<and> acts = acts1 @ acts2"
      using run by (auto simp: main_then_def s1 s2 bind_res_Inr_iff split: if_splits)
    then have "settings (mn_dock m') = settings (mn_dock m) \<and> mn_resetMarker m' = mn_resetMarker m \<and>
        (\<forall>a. MainApi a \<notin> set acts) \<and> MainRestart \<notin> set acts"
      by (elim disjE exE conjE) (use n1 n2 in \<open>auto dest: ota\<close>)
    then show ?thesis by (simp add: unchanged_def outsider_main)
  qed
qed

lemma silent_main: "\<forall>a. MainApi a \<notin> set (map MainNet as)" "MainRestart \<notin> set (map MainNet as)"
  by auto

lemma dock_step_unchanged:
  assumes "outsider_event env (dk_config (mn_dock m)) (dk_authWsClients (mn_dock m)) ev" "\<not> mn_resetMarker m" "dock_step env lib hexOf ev m = Inr r"
  shows "unchanged m r"
proof (cases ev)
  case (DoCharging v)
  have "settings (mn_dock m1) = settings (mn_dock m) \<and> mn_resetMarker m1 = mn_resetMarker m"
    if "handleCharging env v m = Inr m1" for m1
    using that
    by (auto simp: handleCharging_def main_setState_def Let_def bind_res_Inr_iff dest!: settings_setState split: if_splits)
  with assms(3) DoCharging show ?thesis by (auto simp: dock_step_def unchanged_def bind_res_Inr_iff)
next
  case (DoApi i)
  with assms api_step_unchanged [of env m i] show ?thesis by (auto simp: dock_step_def of_main_def bind_res_Inr_iff)
next
  case (DoServices i)
  with assms services_step_unchanged [of i env m] show ?thesis
    by (auto simp: dock_step_def of_main_def bind_res_Inr_iff outsider_event_def)
next
  case DoReset
  with assms(2,3) show ?thesis by (simp add: dock_step_def reset_step_def of_main_def) (auto simp: unchanged_def)
next
  case (DoState i)
  with assms(3) show ?thesis
    by (auto simp: dock_step_def state_step_def of_main_def map_dock_def unchanged_def bind_res_Inr_iff split: prod.splits)
next
  case (DoNet now e)
  with assms(3) show ?thesis
    by (auto simp: dock_step_def net_event_step_def of_main_def unchanged_def bind_res_Inr_iff Let_def
        intro!: outsider_main simp del: map_map)
next
  case (DoButton low t)
  with assms(1) show ?thesis by (simp add: outsider_event_def)
next
  case (DoIrSend mem)
  with assms(3) show ?thesis
    by (auto simp: dock_step_def ir_send_step_def unchanged_def map_dock_def bind_res_Inr_iff split: option.splits)
next
  case (DoIrLearn now res)
  with assms(3) show ?thesis
    by (auto simp: dock_step_def ir_learn_step_def unchanged_def bind_res_Inr_iff dest!: settings_ir split: prod.splits)
next
  case (DoGc now cl sent sent2 rx)
  with assms(3) show ?thesis
    by (auto simp: dock_step_def gc_step_def unchanged_def bind_res_Inr_iff list_all_iff dest!: settings_gc)
next
  case (DoLed scale poll bits)
  with assms(3) show ?thesis
    by (auto simp: dock_step_def led_step_def unchanged_def map_dock_def list_all_iff Let_def split: option.splits)
qed

lemma dock_run_unchanged:
  assumes "\<forall>ev \<in> set evs. outsider_event env (dk_config (mn_dock m)) (dk_authWsClients (mn_dock m)) ev" "\<not> mn_resetMarker m"
    and "dock_run env lib hexOf evs m = Inr r"
  shows "unchanged m r"
  using assms
proof (induction evs arbitrary: m r)
  case Nil
  then show ?case by (auto simp: unchanged_def)
next
  case (Cons ev evs)
  obtain m1 acts1 where one: "dock_step env lib hexOf ev m = Inr (m1, acts1)"
    using Cons.prems(3) by (auto simp: dock_then_def bind_res_Inr_iff)
  have u: "unchanged m (m1, acts1)" by (rule dock_step_unchanged [OF _ Cons.prems(2) one]) (use Cons.prems(1) in simp)
  then have same: "dk_config (mn_dock m1) = dk_config (mn_dock m)" "dk_authWsClients (mn_dock m1) = dk_authWsClients (mn_dock m)"
    by (simp_all add: unchanged_def settings_def)
  show ?case
  proof (cases "list_ex ends_run acts1")
    case True
    with one Cons.prems(3) u show ?thesis by (simp add: dock_then_def)
  next
    case False
    with one Cons.prems(3) obtain m2 acts2 where rest: "dock_run env lib hexOf evs m1 = Inr (m2, acts2)"
      and r: "r = (m2, acts1 @ acts2)" by (auto simp: dock_then_def bind_res_Inr_iff)
    have "unchanged m1 (m2, acts2)"
      by (rule Cons.IH [OF _ _ rest]) (use Cons.prems(1,2) u same in \<open>auto simp: unchanged_def\<close>)
    with u r show ?thesis by (simp add: unchanged_def)
  qed
qed

text \<open>
  C6. From the network nothing can be configured without the token: in every run of the dock in which the
  WebSocket clients neither are authenticated nor present the token in force, and nobody uses the
  button, the serial line or Bluetooth, no setting, credential, token or logging option changes,
  no client becomes authenticated and no factory reset happens, whatever the Global Cache clients, the
  network, the uploads and the IR receiver do; and the API only answers, closes connections and passes
  on results.
\<close>

theorem outsiders_change_nothing:
  assumes "\<forall>ev \<in> set evs. outsider_event env (dk_config (mn_dock m)) (dk_authWsClients (mn_dock m)) ev" "\<not> mn_resetMarker m"
    and "dock_run env lib hexOf evs m = Inr (m', acts)"
  shows "dk_config (mn_dock m') = dk_config (mn_dock m) \<and> dk_log (mn_dock m') = dk_log (mn_dock m) \<and>
     dk_authWsClients (mn_dock m') = dk_authWsClients (mn_dock m) \<and> \<not> mn_resetMarker m' \<and>
     list_all outsider_action acts"
  using dock_run_unchanged [OF assms] assms(2) by (simp add: unchanged_def settings_def)

section \<open>Concrete runs\<close>

definition ex_created :: "(IRSendMessage list, IrResponse list, u32) created" where
  "ex_created = \<lparr>cr_ledGroup = 0, cr_irQueue = Some [], cr_irGroup = Some 0, cr_irResponses = Some []\<rparr>"

definition send_doc :: json_doc where
  "send_doc = doc_of [(''type'', JStr ''dock''), (''command'', JStr ''ir_send''), (''code'', JStr ''x''),
     (''format'', JStr ''hex''), (''id'', JInt 7)]"

definition ex_run_env ::
  "(string \<times> string \<Rightarrow> nvs_value option, IRSendMessage list, IrResponse list, u32) env" where
  "ex_run_env = ex_env\<lparr>env_parse := (\<lambda>t. if t = ''A'' then Some auth_doc else if t = ''S'' then Some send_doc else None)\<rparr>"

definition ex_input :: "(u32 \<times> u8 \<times> ws_event) list \<Rightarrow> main_input" where
  "ex_input ws = \<lparr>mi_charge = 0, mi_ws = ws, mi_now = 0, mi_serial = [], mi_serialStale = [], mi_bluetooth = [],
     mi_bluetoothStale = [], mi_net = \<lparr>li_ledTime = 0, li_connected1 = True, li_checkTime = 0, li_nextTime = 0,
     li_connected2 = True\<rparr>, mi_mdnsTime = 0, mi_mdnsOk = True, mi_ota = [], mi_clock = (0, 0, 0)\<rparr>"

lemma ex_run_env_specs:
  "eventgroup_spec (env_events ex_run_env)" "queue_spec 1 (take 1) (env_queue ex_run_env)"
  "queue_spec 5 (take 5) (env_responses ex_run_env)" "created_empty ex_run_env (take 1) (take 5) ex_created"
  using word_eventgroup_spec list_queue_spec [of 1] list_queue_spec [of 5]
  by (simp_all add: ex_run_env_def ex_env_def created_empty_def ex_created_def)
    (simp add: word_eventgroup_def)

lemma dock_run_returns:
  assumes "queue_spec 1 contents (env_queue env)" "queue_spec n rcontents (env_responses env)"
    and "main_ok env contents rcontents sendable m"
    and "\<forall>ev \<in> set evs. event_fits env ev" "\<forall>ev \<in> set evs. \<forall>f. \<not> event_crashes env ev f"
  obtains m' acts where "dock_run env lib hexOf evs m = Inr (m', acts)"
proof -
  have "step_ok env contents rcontents sendable
      (\<lambda>f. (\<exists>ev \<in> set evs. event_crashes env ev f) \<or> \<not> (\<forall>k. sendable k \<longrightarrow> sendable k)) (dock_run env lib hexOf evs m)"
    by (rule dock_run_ok [OF assms(1-3)]) (use assms(4) event_fits_sendable in blast)
  with assms(5) that show thesis by (cases "dock_run env lib hexOf evs m") (auto simp: step_ok_def)
qed

lemma getmac_safe: "\<not> gc_crashes (''getmac'' @ [CR])"
  by (simp add: gc_crashes_def gc_request_def gc_eval)


lemma ex_main_ok: "main_ok ex_run_env (take 1) (take 5) sendable ex_main"
  using ex_dock_ready
  by (simp add: main_ok_def dock_ok_def ex_main_def dock_ready_def ex_run_env_def ir_ok_def in_queue_def in_responses_def)
    (simp add: ex_dock_def ex_ir_fields)

theorem outsiders_change_nothing_witness:
  "\<exists>m' acts. dock_run ex_run_env ex_lib (\<lambda>_. [])
       [DoApi (ex_input [(0, 3, WsConnected), (1, 3, WsText ''S'')]), DoGc 9 ex_client True True (''getmac'' @ [CR])] ex_main =
     Inr (m', acts) \<and> dk_config (mn_dock m') = ex_config \<and> list_all outsider_action acts"
proof -
  let ?evs = "[DoApi (ex_input [(0, 3, WsConnected), (1, 3, WsText ''S'')]), DoGc 9 ex_client True True (''getmac'' @ [CR])]"
  have texts: "request_texts (DoApi (ex_input [(0, 3, WsConnected), (1, 3, WsText ''S'')])) = [(3, ''S'')]"
    by (simp add: ex_input_def List.map_filter_simps)
  have parse: "env_parse ex_run_env ''S'' = Some send_doc" by (simp add: ex_run_env_def)
  have "\<forall>ev \<in> set ?evs. event_fits ex_run_env ev" using texts parse by (simp add: event_fits_def send_doc_def doc_of_simps)
  moreover have "\<forall>ev \<in> set ?evs. \<forall>f. \<not> event_crashes ex_run_env ev f"
    using texts parse getmac_safe by (simp add: event_crashes_def asks_stop_def send_doc_def doc_of_simps)
  ultimately obtain m' acts where run: "dock_run ex_run_env ex_lib (\<lambda>_. []) ?evs ex_main = Inr (m', acts)"
    by (rule dock_run_returns [OF ex_run_env_specs(2,3) ex_main_ok])
  have fields: "dk_config (mn_dock ex_main) = ex_config" "dk_authWsClients (mn_dock ex_main) = {}" "\<not> mn_resetMarker ex_main"
    by (simp_all add: ex_main_def ex_dock_def)
  have "\<forall>ev \<in> set ?evs. outsider_event ex_run_env (dk_config (mn_dock ex_main)) (dk_authWsClients (mn_dock ex_main)) ev"
    using parse by (simp add: fields outsider_event_def ex_input_def presents_token_def send_doc_def doc_of_simps)
  from outsiders_change_nothing [OF this fields(3) run] run show ?thesis by (simp add: fields)
qed

definition ex_sent :: IRSendMessage where
  "ex_sent = \<lparr>sm_clientId = 3, sm_msgId = 7, sm_format = UNFOLDED_CIRCLE, sm_message = ''x'',
     sm_repeat = 0, sm_pin_mask = 0x8024, sm_gcSocket = 0\<rparr>"

lemma send_doc_fields:
  "member_string send_doc msgType = ''dock''" "member_string send_doc msgCommand = ''ir_send''"
  "jd_string send_doc ''code'' = ''x''" "jd_string send_doc ''format'' = ''hex''" "jd_int send_doc msgId = 7"
  "jd_uint16 send_doc ''repeat'' = 0" "\<not> jd_bool send_doc k"
  by (simp_all add: send_doc_def doc_of_simps) (simp_all add: doc_of_def split: option.split if_splits)

lemma ex_send_request:
  assumes "dk_ir d = ex_ir"
  shows "api_ir_send ex_run_env 3 send_doc doc d =
     Inr (Finished, d\<lparr>dk_ir := ex_ir\<lparr>ir_queue := Some [ex_sent], ir_currentSendCode := ''x''\<rparr>\<rparr>, [])"
  using assms
  by (simp add: api_ir_send_def send_doc_fields Let_def ex_run_env_def ex_env_def ir_send_def ex_ir_fields
      isIrLearning_def word_eventgroup_def list_queue_def pin_mask_def pin_bit_def board_5_4_def ir_format_def ex_sent_def)

lemma ex_transmit: "transmit ex_lib mem ex_sent = Inr (False, None, False)"
  by (simp add: transmit_def transmit_hex_def ex_sent_def buildIRHexData_def indexOf_def Let_def)

lemma ex_send_round:
  "send_round ex_lib mem (list_queue 1) (list_queue 5) (ex_ir\<lparr>ir_queue := Some [ex_sent], ir_currentSendCode := ''x''\<rparr>) =
     Inr (Some \<lparr>rd_message = ex_sent, rd_output = None, rd_answer = AnswerApi (IrSendDone 3 7 400), rd_reboot = False\<rparr>,
       ex_ir\<lparr>ir_queue := Some [], ir_currentSendCode := ''x'', ir_apiResponseQueue := Some [IrSendDone 3 7 400]\<rparr>)"
  by (simp add: send_round_def ex_ir_fields list_queue_def ex_transmit answer_def)
    (simp add: ex_sent_def IR_CLIENT_GC_def Let_def)

lemma ex_api_requests:
  assumes "dk_config (mn_dock m) = ex_config" "dk_authWsClients (mn_dock m) = {}" "dk_ir (mn_dock m) = ex_ir"
  shows "\<exists>acts. api_step ex_run_env (ex_input [(0, 3, WsText ''A''), (1, 3, WsText ''S'')]) m =
     Inr (m\<lparr>mn_dock := (mn_dock m)\<lparr>dk_authWsClients := {3},
       dk_ir := ex_ir\<lparr>ir_queue := Some [ex_sent], ir_currentSendCode := ''x''\<rparr>\<rparr>\<rparr>, acts) \<and> \<not> list_ex is_restart acts"
proof -
  let ?d = "mn_dock m"
  let ?d1 = "?d\<lparr>dk_authWsClients := {3}\<rparr>"
  let ?d2 = "?d\<lparr>dk_authWsClients := {3}, dk_ir := ex_ir\<lparr>ir_queue := Some [ex_sent], ir_currentSendCode := ''x''\<rparr>\<rparr>"
  have parse: "env_parse ex_run_env ''A'' = Some auth_doc" "env_parse ex_run_env ''S'' = Some send_doc"
    by (simp_all add: ex_run_env_def)
  have kind: "member_string auth_doc msgType = ''auth''" "jd_string auth_doc msgToken = ''1234''"
    by (simp_all add: auth_doc_def doc_of_def member_string_def)
  have nvs: "env_nvs ex_run_env = map_nvs" by (simp add: ex_run_env_def ex_env_fields)
  obtain a1 where auth: "ws_event ex_run_env 0 3 (WsText ''A'') ?d = Inr (?d1, [ApiReply a1])"
    using assms(1,2)
    by (simp add: ws_event_def processWsRequest_def processRequest_cases parse process_document_def kind code_of_def
        api_authenticate_def nvs ex_token Let_def)
  have send: "ws_event ex_run_env 1 3 (WsText ''S'') ?d1 = Inr (?d2, [])"
    using assms(3)
    by (simp add: ws_event_def processWsRequest_def processRequest_cases parse process_document_def send_doc_fields
        code_of_def run_command_def ex_send_request Let_def)
  have fwd: "forward_response ex_run_env ?d2 = (?d2, [])"
    by (simp add: forward_response_def apiResponse_def ex_ir_fields ex_run_env_def ex_env_def list_queue_def)
  show ?thesis
    by (simp add: api_step_def api_loop_def handleSerial_def ex_input_def auth send fwd)
qed

lemma ex_result_forwarded:
  assumes "dk_ir (mn_dock m) = ex_ir\<lparr>ir_queue := Some [], ir_currentSendCode := ''x'',
     ir_apiResponseQueue := Some [IrSendDone 3 7 400]\<rparr>"
  shows "\<exists>m'. api_step ex_run_env (ex_input []) m = Inr (m', [MainApi (ApiForward (IrSendDone 3 7 400))])"
  using assms
  by (simp add: api_step_def api_loop_def handleSerial_def ex_input_def forward_response_def apiResponse_def
      ex_run_env_def ex_env_def list_queue_def IR_CLIENT_GC_def)


theorem result_reaches_successor_witness:
  "\<exists>d1 acts1 d2. ws_events ex_run_env [(0, 3, WsDisconnected), (1, 3, WsConnected)]
      (ex_dock\<lparr>dk_ir := ex_ir\<lparr>ir_apiResponseQueue := Some [IrSendDone 3 7 400]\<rparr>, dk_authWsClients := {3}\<rparr>) = Inr (d1, acts1) \<and>
     3 \<notin> dk_authWsClients d1 \<and> forward_response ex_run_env d1 = (d2, [ApiForward (IrSendDone 3 7 400)])"
  using result_reaches_successor [OF ex_run_env_specs(3), of
      "ex_dock\<lparr>dk_ir := ex_ir\<lparr>ir_apiResponseQueue := Some [IrSendDone 3 7 400]\<rparr>, dk_authWsClients := {3}\<rparr>" _ 3 7 400 "[]" 0 1]
  by simp

end
