(* ===== verification/OtaSketches.thy ===== *)
theory OtaSketches
  imports Prelude
begin

text \<open>
  The two example sketches of the update library, \<open>lib/Update/examples\<close>: an update fetched over HTTP
  (\<open>AWS_S3_OTA_Update.ino\<close>) and one from an SD card (\<open>SD_Update.ino\<close>). They use the \<open>Update\<close> object of the
  Arduino core (\<open>Update.h\<close>), which is not in the repository: a record of the operations they call, on
  a state \<open>'u\<close> and a stream \<open>'s\<close>. What the sketches print, send and remove is a list of actions.
\<close>

record ('u, 's) update_ops =
  us_begin :: "nat \<Rightarrow> 'u \<Rightarrow> bool \<times> 'u"
  us_writeStream :: "'s \<Rightarrow> 'u \<Rightarrow> nat \<times> 's \<times> 'u"
  us_end :: "'u \<Rightarrow> bool \<times> 'u"
  us_isFinished :: "'u \<Rightarrow> bool"
  us_getError :: "'u \<Rightarrow> nat"

datatype sketch_action =
    Println string
  | PrintDot
  | SketchDelay nat
  | WifiBegin string string
  | ClientPrint string
  | ClientStop
  | ClientFlush
  | SketchRestart
  | FileClose
  | FileRemove string

section \<open>HTTP response\<close>

definition crlf :: string where "crlf = [CHR 0x0D, CHR 0x0A]"

definition starts_with :: "string \<Rightarrow> string \<Rightarrow> bool" where
  "starts_with line p \<longleftrightarrow> take (length p) line = p"

fun has_text :: "string \<Rightarrow> string \<Rightarrow> bool" where
  "has_text t [] \<longleftrightarrow> t = []"
| "has_text t (c # s) \<longleftrightarrow> starts_with (c # s) t \<or> has_text t s"

text \<open>\<open>String::trim\<close> and \<open>Stream::readStringUntil\<close>, which drops the terminator.\<close>

definition str_trim :: "string \<Rightarrow> string" where
  "str_trim s = rev (dropWhile isspace (rev (dropWhile isspace s)))"

definition line_of :: "string \<Rightarrow> string" where
  "line_of s = takeWhile (\<lambda>c. c \<noteq> CHR 0x0A) s"

definition after_line :: "string \<Rightarrow> string" where
  "after_line s = tl (dropWhile (\<lambda>c. c \<noteq> CHR 0x0A) s)"

lemma after_line_shorter: "s \<noteq> [] \<Longrightarrow> length (after_line s) < length s"
proof -
  assume "s \<noteq> []"
  then have "length s - 1 < length s" by simp
  moreover have "length (dropWhile (\<lambda>c. c \<noteq> CHR 0x0A) s) \<le> length s" by (rule length_dropWhile_le)
  ultimately show ?thesis unfolding after_line_def length_tl by linarith
qed

definition getHeaderValue :: "string \<Rightarrow> string \<Rightarrow> string" where
  "getHeaderValue header headerName = drop (length headerName) header"

text \<open>The sketch's two variables; \<open>contentLength\<close> is a \<open>long\<close>.\<close>

record aws =
  aws_contentLength :: int
  aws_isValidContentType :: bool

definition aws_start :: aws where
  "aws_start = \<lparr>aws_contentLength = 0, aws_isValidContentType = False\<rparr>"

definition header_length_step :: "string \<Rightarrow> aws \<Rightarrow> aws \<times> sketch_action list" where
  "header_length_step line a =
     (if starts_with line ''Content-Length: '' then
        (let n = sint (word_of_int (atoi (getHeaderValue line ''Content-Length: '')) :: u32) in
         (a\<lparr>aws_contentLength := n\<rparr>, [Println (''Got '' @ show_int n @ '' bytes from server'')]))
      else (a, []))"

definition header_type_step :: "string \<Rightarrow> aws \<Rightarrow> aws \<times> sketch_action list" where
  "header_type_step line a =
     (if starts_with line ''Content-Type: '' then
        (let contentType = getHeaderValue line ''Content-Type: '' in
         (if contentType = ''application/octet-stream'' then a\<lparr>aws_isValidContentType := True\<rparr> else a,
          [Println (''Got '' @ contentType @ '' payload.'')]))
      else (a, []))"

definition header_step :: "string \<Rightarrow> aws \<Rightarrow> aws \<times> sketch_action list" where
  "header_step line a =
     (case header_length_step line a of (a1, acts1) \<Rightarrow>
      case header_type_step line a1 of (a2, acts2) \<Rightarrow> (a2, acts1 @ acts2))"

definition bad_status :: "string \<Rightarrow> bool" where
  "bad_status line \<longleftrightarrow> starts_with line ''HTTP/1.1'' \<and> \<not> has_text ''200'' line"

text \<open>The loop over the headers, on what was received; the rest of it is left for the update.\<close>

function read_headers :: "string \<Rightarrow> aws \<Rightarrow> aws \<times> string \<times> sketch_action list" where
  "read_headers s a =
     (if s = [] then (a, [], [])
      else let line = str_trim (line_of s) in
      if line = [] then (a, after_line s, [])
      else if bad_status line
      then (a, after_line s, [Println ''Got a non 200 status code from server. Exiting OTA Update.''])
      else (case header_step line a of (a1, acts1) \<Rightarrow>
            case read_headers (after_line s) a1 of (a2, rest, acts2) \<Rightarrow> (a2, rest, acts1 @ acts2)))"
  by pat_completeness auto

termination by (relation "measure (\<lambda>(s, a). length s)") (auto simp: after_line_shorter)

declare read_headers.simps [simp del]

section \<open>\<open>AWS_S3_OTA_Update\<close>\<close>

text \<open>
  Waiting for the response: the readings of \<open>available() > 0\<close> and of the clock, in turn. \<open>None\<close>: more
  readings are needed; \<open>False\<close>: the timeout.
\<close>

fun wait_response :: "u32 \<Rightarrow> (bool \<times> u32) list \<Rightarrow> bool option" where
  "wait_response timeout [] = None"
| "wait_response timeout ((available, now) # rs) =
     (if available then Some True else if now - timeout > 5000 then Some False else wait_response timeout rs)"

definition aws_request :: "string \<Rightarrow> string \<Rightarrow> string" where
  "aws_request host bin =
     ''GET '' @ bin @ '' HTTP/1.1'' @ crlf @ ''Host: '' @ host @ crlf @ ''Cache-Control: no-cache'' @ crlf @
     ''Connection: close'' @ crlf @ crlf"

text \<open>The update itself, with the size as the \<open>size_t\<close> the length is converted to.\<close>

definition aws_update ::
  "('u, string) update_ops \<Rightarrow> aws \<Rightarrow> string \<Rightarrow> 'u \<Rightarrow> 'u \<times> sketch_action list" where
  "aws_update ops a client u =
     (let len = aws_contentLength a; n = unat (word_of_int len :: u32) in
      if len \<noteq> 0 \<and> aws_isValidContentType a then
        (case us_begin ops n u of (canBegin, u1) \<Rightarrow>
           if canBegin then
             (case us_writeStream ops client u1 of (written, _, u2) \<Rightarrow>
              case us_end ops u2 of (done_ok, u3) \<Rightarrow>
                (u3,
                 [Println ''Begin OTA. This may take 2 - 5 mins to complete. Things might be quite for a while.. Patience!'',
                  if written = n then Println (''Written : '' @ show_nat written @ '' successfully'')
                  else Println (''Written only : '' @ show_nat written @ ''/'' @ show_int len @ ''. Retry?'')] @
                 (if done_ok then
                    [Println ''OTA done!''] @
                    (if us_isFinished ops u3
                     then [Println ''Update successfully completed. Rebooting.'', SketchRestart]
                     else [Println ''Update not finished? Something went wrong!''])
                  else [Println (''Error Occurred. Error #: '' @ show_nat (us_getError ops u3))])))
           else (u1, [Println ''Not enough space to begin OTA'', ClientFlush]))
      else (u, [Println ''There was no content in the response'', ClientFlush]))"

definition aws_summary :: "aws \<Rightarrow> sketch_action" where
  "aws_summary a = Println (''contentLength : '' @ show_int (aws_contentLength a) @ '', isValidContentType : '' @
     (if aws_isValidContentType a then ''1'' else ''0''))"

definition execOTA ::
  "('u, string) update_ops \<Rightarrow> string \<Rightarrow> string \<Rightarrow> bool \<Rightarrow> u32 \<Rightarrow> (bool \<times> u32) list \<Rightarrow> string \<Rightarrow> 'u \<Rightarrow>
   ('u \<times> sketch_action list) option" where
  "execOTA ops host bin connected timeout readings received u =
     (if connected then
        (case wait_response timeout readings of
           None \<Rightarrow> None
         | Some False \<Rightarrow>
             Some (u, [Println (''Connecting to: '' @ host), Println (''Fetching Bin: '' @ bin),
                       ClientPrint (aws_request host bin), Println ''Client Timeout !'', ClientStop])
         | Some True \<Rightarrow>
             (case read_headers received aws_start of (a, client, acts1) \<Rightarrow>
              case aws_update ops a client u of (u1, acts2) \<Rightarrow>
                Some (u1, [Println (''Connecting to: '' @ host), Println (''Fetching Bin: '' @ bin),
                           ClientPrint (aws_request host bin)] @ acts1 @ [aws_summary a] @ acts2)))
      else
        (case aws_update ops aws_start [] u of (u1, acts2) \<Rightarrow>
           Some (u1, [Println (''Connecting to: '' @ host),
                      Println (''Connection to '' @ host @ '' failed. Please check your setup''),
                      aws_summary aws_start] @ acts2)))"

text \<open>\<open>polls\<close> is how often the WiFi was not connected yet.\<close>

definition aws_setup ::
  "('u, string) update_ops \<Rightarrow> string \<Rightarrow> string \<Rightarrow> string \<Rightarrow> string \<Rightarrow> nat \<Rightarrow> bool \<Rightarrow> u32 \<Rightarrow> (bool \<times> u32) list \<Rightarrow>
   string \<Rightarrow> 'u \<Rightarrow> ('u \<times> sketch_action list) option" where
  "aws_setup ops ssid pswd host bin polls connected timeout readings received u =
     map_option (\<lambda>(u1, acts). (u1, [SketchDelay 10, Println (''Connecting to '' @ ssid), WifiBegin ssid pswd] @
         concat (replicate polls [PrintDot, SketchDelay 500]) @
         [Println [], Println (''Connected to '' @ ssid)] @ acts))
       (execOTA ops host bin connected timeout readings received u)"

section \<open>\<open>SD_Update\<close>\<close>

definition performUpdate ::
  "('u, 's) update_ops \<Rightarrow> 's \<Rightarrow> nat \<Rightarrow> 'u \<Rightarrow> 'u \<times> sketch_action list" where
  "performUpdate ops updateSource updateSize u =
     (case us_begin ops updateSize u of (ok, u1) \<Rightarrow>
        if ok then
          (case us_writeStream ops updateSource u1 of (written, _, u2) \<Rightarrow>
           case us_end ops u2 of (done_ok, u3) \<Rightarrow>
             (u3,
              [if written = updateSize then Println (''Written : '' @ show_nat written @ '' successfully'')
               else Println (''Written only : '' @ show_nat written @ ''/'' @ show_nat updateSize @ ''. Retry?'')] @
              (if done_ok then
                 [Println ''OTA done!'',
                  if us_isFinished ops u3 then Println ''Update successfully completed. Rebooting.''
                  else Println ''Update not finished? Something went wrong!'']
               else [Println (''Error Occurred. Error #: '' @ show_nat (us_getError ops u3))])))
        else (u1, [Println ''Not enough space to begin OTA'']))"

text \<open>What \<open>open\<close> finds: nothing, a directory, or a file with its size and its content.\<close>

datatype 's sd_entry = SdNone | SdDirectory | SdFile nat 's

definition updateFromFS ::
  "('u, 's) update_ops \<Rightarrow> 's sd_entry \<Rightarrow> 'u \<Rightarrow> 'u \<times> sketch_action list" where
  "updateFromFS ops updateBin u =
     (case updateBin of
        SdNone \<Rightarrow> (u, [Println ''Could not load update.bin from sd root''])
      | SdDirectory \<Rightarrow> (u, [Println ''Error, update.bin is not a file'', FileClose])
      | SdFile updateSize source \<Rightarrow>
          (case (if updateSize > 0
                 then (case performUpdate ops source updateSize u of
                         (u1, acts) \<Rightarrow> (u1, Println ''Try to start update'' # acts))
                 else (u, [Println ''Error, file is empty''])) of
             (u1, acts) \<Rightarrow> (u1, acts @ [FileClose, FileRemove ''/update.bin''])))"

text \<open>\<open>ESP.restart\<close> does not return.\<close>

definition rebootEspWithReason :: "string \<Rightarrow> sketch_action list" where
  "rebootEspWithReason reason = [Println reason, SketchDelay 1000, SketchRestart]"

definition sd_setup ::
  "('u, 's) update_ops \<Rightarrow> bool \<Rightarrow> bool \<Rightarrow> 's sd_entry \<Rightarrow> 'u \<Rightarrow> 'u \<times> sketch_action list" where
  "sd_setup ops mounted hasCard updateBin u =
     (let hello = Println ''Welcome to the SD-Update example!'' in
      if \<not> mounted then (u, hello # rebootEspWithReason ''Card Mount Failed'')
      else if \<not> hasCard then (u, hello # rebootEspWithReason ''No SD_MMC card attached'')
      else case updateFromFS ops updateBin u of (u1, acts) \<Rightarrow> (u1, hello # acts))"

section \<open>The HTTP sketch\<close>

text \<open>A header as it is sent: without blanks at its ends, and not the status line of an error.\<close>

definition plain_header :: "string \<Rightarrow> bool" where
  "plain_header h \<longleftrightarrow> h \<noteq> [] \<and> CHR 0x0A \<notin> set h \<and> \<not> isspace (hd h) \<and> \<not> isspace (last h) \<and> \<not> bad_status h"

lemma line_of_crlf: "CHR 0x0A \<notin> set h \<Longrightarrow> line_of (h @ crlf @ s) = h @ [CHR 0x0D]"
  by (auto simp: line_of_def crlf_def takeWhile_append)

lemma after_line_crlf: "CHR 0x0A \<notin> set h \<Longrightarrow> after_line (h @ crlf @ s) = s"
  by (auto simp: after_line_def crlf_def dropWhile_append)

lemma str_trim_cr: "h = [] \<or> \<not> isspace (hd h) \<and> \<not> isspace (last h) \<Longrightarrow> str_trim (h @ [CHR 0x0D]) = h"
proof -
  assume h: "h = [] \<or> \<not> isspace (hd h) \<and> \<not> isspace (last h)"
  have cr: "isspace (CHR 0x0D)" by (simp add: isspace_def code_of_def)
  show ?thesis
  proof (cases "h = []")
    case False
    with h have "dropWhile isspace (h @ [CHR 0x0D]) = h @ [CHR 0x0D]" by (cases h) simp_all
    moreover from False h have "dropWhile isspace (rev h) = rev h" by (cases "rev h") (auto simp: last_rev [symmetric] hd_rev)
    ultimately show ?thesis using cr by (simp add: str_trim_def)
  qed (simp add: str_trim_def cr)
qed

fun header_steps :: "string list \<Rightarrow> aws \<Rightarrow> aws" where
  "header_steps [] a = a"
| "header_steps (h # hs) a = header_steps hs (fst (header_step h a))"

text \<open>
  The headers of a complete response are read one by one up to the empty line, and what is left for the
  update is exactly the body.
\<close>

theorem read_headers_response:
  assumes "list_all plain_header hs"
  shows "\<exists>acts. read_headers (concat (map (\<lambda>h. h @ crlf) hs) @ crlf @ body) a = (header_steps hs a, body, acts)"
  using assms
proof (induction hs arbitrary: a)
  case Nil
  have "str_trim (line_of (crlf @ body)) = []" using line_of_crlf [of "[]" body] str_trim_cr [of "[]"] by simp
  moreover have "after_line (crlf @ body) = body" using after_line_crlf [of "[]" body] by simp
  ultimately show ?case by (simp add: read_headers.simps [of "crlf @ body"])
next
  case (Cons h hs)
  let ?rest = "concat (map (\<lambda>h. h @ crlf) hs) @ crlf @ body"
  from Cons.prems have h: "plain_header h" "list_all plain_header hs" by simp_all
  then have "line_of (h @ crlf @ ?rest) = h @ [CHR 0x0D]" "after_line (h @ crlf @ ?rest) = ?rest"
    by (simp_all only: plain_header_def line_of_crlf after_line_crlf simp_thms)
  moreover from h have "str_trim (h @ [CHR 0x0D]) = h" by (intro str_trim_cr) (simp add: plain_header_def)
  moreover obtain a1 acts1 where "header_step h a = (a1, acts1)" by fastforce
  moreover from this obtain acts where "read_headers ?rest a1 = (header_steps hs a1, body, acts)"
    using Cons.IH [OF h(2), of a1] by blast
  ultimately show ?case
    using h(1) by (simp add: read_headers.simps [of "h @ crlf @ ?rest"] plain_header_def)
qed

lemma no_restart_start: "SketchRestart \<notin> set (snd (aws_update ops aws_start client u))"
  by (simp add: aws_update_def aws_start_def Let_def)

text \<open>A response that starts with a status other than 200 starts no update.\<close>

theorem aws_bad_status:
  assumes "bad_status status" "CHR 0x0A \<notin> set status" "\<not> isspace (last status)"
    and "wait_response timeout readings = Some True"
  shows "\<exists>acts. execOTA ops host bin True timeout readings (status @ crlf @ rest) u = Some (u, acts) \<and> SketchRestart \<notin> set acts"
proof -
  have st: "status \<noteq> []" "CHR 0x0A \<notin> set status" "\<not> isspace (last status)"
    using assms(1-3) by (auto simp: bad_status_def starts_with_def)
  have "\<not> isspace (hd status)"
    using assms(1) st(1) by (cases status) (auto simp: bad_status_def starts_with_def isspace_def code_of_def)
  with st have "str_trim (line_of (status @ crlf @ rest)) = status" by (simp add: line_of_crlf str_trim_cr)
  with st assms(1) have "\<exists>s' acts1. read_headers (status @ crlf @ rest) aws_start = (aws_start, s', acts1) \<and>
      SketchRestart \<notin> set acts1"
    by (simp add: read_headers.simps [of "status @ crlf @ rest"])
  with assms(4) show ?thesis
    by (auto simp: execOTA_def aws_update_def aws_start_def aws_summary_def Let_def)
qed

text \<open>The wait for the response ends: after a reading more than five seconds after the request.\<close>

lemma wait_response_ends:
  assumes "(b, now) \<in> set readings" "now - timeout > 5000"
  shows "wait_response timeout readings \<noteq> None"
  using assms by (induction readings) auto

section \<open>The SD card sketch\<close>

text \<open>
  The file is removed from the card whenever there is one, also after an update that failed; and after
  one that succeeded the sketch says that it reboots, but does not.
\<close>

theorem sd_update_outcome:
  "FileRemove ''/update.bin'' \<in> set (snd (sd_setup ops True True (SdFile n source) u))"
  "SketchRestart \<notin> set (snd (sd_setup ops True True updateBin u))"
  by (auto simp: sd_setup_def updateFromFS_def performUpdate_def Let_def split: prod.split sd_entry.split)

section \<open>A concrete response\<close>

theorem read_headers_response_witness:
  "\<exists>acts. read_headers (''HTTP/1.1 200 OK'' @ crlf @ ''Content-Length: 5'' @ crlf @
      ''Content-Type: application/octet-stream'' @ crlf @ crlf @ ''image'') aws_start =
    (\<lparr>aws_contentLength = 5, aws_isValidContentType = True\<rparr>, ''image'', acts)"
proof -
  let ?hs = "[''HTTP/1.1 200 OK'', ''Content-Length: 5'', ''Content-Type: application/octet-stream'']"
  have "list_all plain_header ?hs"
    by (simp add: plain_header_def bad_status_def starts_with_def isspace_def code_of_def)
  moreover have "header_steps ?hs aws_start = \<lparr>aws_contentLength = 5, aws_isValidContentType = True\<rparr>"
    by (simp add: header_step_def header_length_step_def header_type_step_def starts_with_def getHeaderValue_def
        aws_start_def Let_def atoi_def skip_sign_def isspace_def is_base_digit_def digit_value_def num_value_def code_of_def)
  ultimately show ?thesis using read_headers_response [of ?hs "''image''" aws_start] by simp
qed

theorem aws_bad_status_witness:
  "\<exists>acts. execOTA ops host bin True 0 [(True, 0)] (''HTTP/1.1 404 Not Found'' @ crlf @ rest) u = Some (u, acts) \<and>
     SketchRestart \<notin> set acts"
  by (rule aws_bad_status)
    (simp_all add: bad_status_def starts_with_def isspace_def code_of_def)

end
