(* ===== verification/UnitTests.thy ===== *)
theory UnitTests
  imports GlobalCache IrCodes Util
begin

text \<open>
  The unit tests of the repository (\<open>src/test\<close>), each as a lemma with the name of the test: what the
  authors expect of the program holds of its model. They are evaluated by rewriting; the array routines through the
  equations of \<open>IrCodes\<close>.
\<close>

section \<open>\<open>test_native_eventgroup\<close>\<close>

lemma test_bit_not_set:
  "map (bitIsSetAndNoHigherPrioTask 4) [1, 3, 8, 1 + 8, 16] = [False, False, False, False, False]"
  by code_simp

lemma test_bitset_highest_priotask_only:
  "map (bitIsSetAndNoHigherPrioTask 1) [1, 3, 5, 0xFF] = [True, True, True, True]"
  by code_simp

lemma test_bitset_only_lower_priotasks:
  "map (bitIsSetAndNoHigherPrioTask 4) [4, 4 + 8, 4 + 8 + 16, 4 + 8 + 16 + 32] = [True, True, True, True]"
  by code_simp

section \<open>\<open>test_native_string\<close>\<close>

lemma test_replacechar_nullInput: "replacechar None (CHR ''a'') (CHR ''b'') = (0, None)"
  by code_simp

lemma test_replacechar_emptyInput: "replacechar (Some []) (CHR ''a'') (CHR ''b'') = (0, Some [])"
  by code_simp

lemma test_replacechar_noMatch:
  "replacechar (Some ''foobar'') (CHR ''c'') (CHR ''d'') = (0, Some ''foobar'')"
  by code_simp

lemma test_replacechar_singleMatch:
  "replacechar (Some ''foobar'') (CHR ''r'') (CHR ''s'') = (1, Some ''foobas'')"
  "replacechar (Some ''foobas'') (CHR ''f'') (CHR ''r'') = (1, Some ''roobas'')"
  "replacechar (Some ''roobas'') (CHR ''b'') (CHR ''r'') = (1, Some ''rooras'')"
  by code_simp+

lemma test_replacechar_multiMatch:
  "replacechar (Some ''foobar'') (CHR ''o'') (CHR ''u'') = (2, Some ''fuubar'')"
  by code_simp

section \<open>\<open>test_native_globalcache\<close>\<close>

text \<open>What the message holds before the call.\<close>

definition test_msg :: GCMsg where
  "test_msg = \<lparr>gm_command = ''?'', gm_module = 7, gm_port = 7, gm_param = Some ''?''\<rparr>"

abbreviation test_parse where "test_parse t \<equiv> fst (parseGcRequest (Some t) (Some test_msg))"

lemma test_parseGcRequest_nullInput:
  "fst (parseGcRequest (Some ''blink'') None) = 0" "fst (parseGcRequest None (Some test_msg)) = 0"
  "fst (parseGcRequest None None) = 0"
  by code_simp+

lemma test_parseGcRequest_emptyInput: "test_parse [] = 0"
  by code_simp

lemma test_parseGcRequest_commandOnlyTooLong: "test_parse ''01234567890123456789'' = 1"
  by code_simp

lemma test_parseGcRequest_commandWithParamTooLong: "test_parse ''01234567890123456789,foobar'' = 1"
  by code_simp

lemma test_parseGcRequest_commandTooLong: "test_parse ''01234567890123456789,1:1,foo,bar'' = 1"
  by code_simp

lemma test_parseGcRequest_commandOnly:
  "parseGcRequest (Some (''blink'')) (Some test_msg) =
     (0, Some \<lparr>gm_command = ''blink'', gm_module = 0, gm_port = 0, gm_param = None\<rparr>)"
  by code_simp

lemma test_parseGcRequest_commandAndModule:
  "parseGcRequest (Some (''stopir,1:3'')) (Some test_msg) =
     (0, Some \<lparr>gm_command = ''stopir'', gm_module = 1, gm_port = 3, gm_param = None\<rparr>)"
  by code_simp

lemma test_parseGcRequest_commandAndParam:
  "parseGcRequest (Some (''blink,1'')) (Some test_msg) =
     (0, Some \<lparr>gm_command = ''blink'', gm_module = 0, gm_port = 0, gm_param = Some ''1''\<rparr>)"
  by code_simp

definition test_param :: string where
  "test_param =
      ''1,37000,1,1,128,64,16,16,16,16,16,48,16,16,16,48,16,16,16,48,16,16,16,16,16,48,16,16,16,16'' @
      '',16,48,16,48,16,16,16,16,16,16,16,16,16,16,16,16,16,48,16,16,16,48,16,16,16,48,16,16,16,16'' @
      '',16,16,16,48,16,48,16,16,16,16,16,16,16,16,16,16,16,16,16,16,16,16,16,48,16,16,16,48,16,16'' @
      '',16,16,16,16,16,16,16,48,16,16,16,16,16,2765''"

lemma test_parseGcRequest_full:
  "parseGcRequest (Some (''sendir,1:1,'' @ test_param)) (Some test_msg) =
     (0, Some \<lparr>gm_command = ''sendir'', gm_module = 1, gm_port = 1, gm_param = Some test_param\<rparr>)"
  by code_simp

lemma test_parseGcRequest_outOfRangeModule:
  "map test_parse
     [''stopir,1:3'', ''stopir,0:3'', ''stopir,2:3''] = [0, 2, 2]"
  by code_simp

lemma test_parseGcRequest_invalidModule:
  "map test_parse
     [''stopir,:3'', ''stopir,a:3'', ''stopir,:3,1'', ''stopir,a:3,1''] = [2, 2, 2, 2]"
  by code_simp

lemma test_parseGcRequest_outOfRangePort:
  "map test_parse
     [''stopir,1:1'', ''stopir,1:15'', ''stopir,1:0'', ''stopir,1:16''] = [0, 0, 3, 3]"
  by code_simp

lemma test_parseGcRequest_invalidPort:
  "map test_parse
     [''stopir,1:'', ''stopir,1:,2'', ''stopir,1:a'', ''stopir,1:a,2''] = [3, 3, 3, 3]"
  by code_simp

section \<open>\<open>test_native_ir\<close>\<close>

lemmas hex_eval = buildIRHexData_def indexOf_def substring_def parseULong_def ptr_diff_def atoi_def text_eval

lemma test_buildIRHexData:
  "buildIRHexData ''4;0x640C;15;1'' = Some \<lparr>hx_protocol = 4, hx_command = 0x640C, hx_bits = 15, hx_repeat = 1\<rparr>"
  by (simp_all add: hex_eval)

lemma test_buildIRHexData_empty_string: "buildIRHexData [] = None"
  by (simp_all add: hex_eval)

lemma test_buildIRHexData_invalid_separator: "buildIRHexData ''4,0x640C,15,0'' = None"
  by (simp_all add: hex_eval)

lemma test_buildIRHexData_missing_protocol_value: "buildIRHexData '';0x640C;15;1'' = None"
  by (simp_all add: hex_eval)

lemma test_buildIRHexData_missing_command_value: "buildIRHexData ''4;;15;1'' = None"
  by (simp_all add: hex_eval)

lemma test_buildIRHexData_missing_bits_value: "buildIRHexData ''4;0x640C;;1'' = None"
  by (simp_all add: hex_eval)

lemma test_buildIRHexData_missing_repeat_value: "buildIRHexData ''4;0x640C;15;'' = None"
  by (simp_all add: hex_eval)

lemma test_buildIRHexData_missing_repeat: "buildIRHexData ''4;0x640C;15'' = None"
  by (simp_all add: hex_eval)

lemma test_buildIRHexData_invalid_protocol_value: "buildIRHexData ''z;0x640C;15;1'' = None"
  by (simp_all add: hex_eval)

lemma test_buildIRHexData_invalid_command_value: "buildIRHexData ''4;hello;15;1'' = None"
  by (simp_all add: hex_eval)

lemma test_buildIRHexData_invalid_bits_value: "buildIRHexData ''4;0x640C;2tt;1'' = None"
  by (simp_all add: hex_eval)

lemma test_buildIRHexData_invalid_repeat_value: "buildIRHexData ''4;0x640C;15;z1'' = None"
  by (simp_all add: hex_eval)

lemma test_buildIRHexData_repeat_too_high:
  "buildIRHexData ''4;0x640C;15;20'' \<noteq> None" "buildIRHexData ''4;0x640C;15;21'' = None"
  by (simp_all add: hex_eval)

lemma test_countValuesInCStr:
  "countValuesInCStr None (CHR '','') = Inr 0"
  "countValuesInCStr (Some []) (CHR '','') = Inr 0"
  "countValuesInCStr (Some ''h'') (CHR '','') = Inr 1"
  "countValuesInCStr (Some ''hi'') (CHR '','') = Inr 1"
  "countValuesInCStr (Some ''hi there'') (CHR '','') = Inr 1"
  "countValuesInCStr (Some ''0,1'') (CHR '','') = Inr 2"
  "countValuesInCStr (Some ''0,1,2'') (CHR '','') = Inr 3"
  by (simp_all add: countValuesInCStr_def)

text \<open>Memory is always available in the tests.\<close>

abbreviation test_pronto where "test_pronto t \<equiv> prontoBufferToArray (\<lambda>_. True) t (CHR '' '')"

lemma test_prontoBufferToArray_emptyInput:
  "prontoBufferToArray (\<lambda>_. True) [] (CHR '','') = Inr (None, False)"
  by code_simp

lemma test_prontoBufferToArray_notEnoughInput:
  "test_pronto ''0000'' = Inr (None, False)"
     "test_pronto ''0000 0066'' = Inr (None, False)"
     "test_pronto ''0000 0066 0000'' = Inr (None, False)"
     "test_pronto ''0000 0066 0000 0001'' = Inr (None, False)"
     "test_pronto ''0000 0066 0000 0001 0050'' = Inr (None, False)"
  by (simp_all add: pronto_array [OF _ _ refl refl] values_eval pronto_valid_def)

lemma test_prontoBufferToArray_inputTooShort:
  "test_pronto ''0000 0066 0000 0018 0050 0051'' = Inr (None, False)"
     "test_pronto ''0000 0066 0000 0002 0050 0051'' = Inr (None, False)"
  by (simp_all add: pronto_array [OF _ _ refl refl] values_eval pronto_valid_def)

lemma test_prontoBufferToArray_minLength:
  "case test_pronto ''0000 0066 0000 0001 0050 0051'' of
     Inr (Some (n, a), err) \<Rightarrow> n = 6 \<and> \<not> err | _ \<Rightarrow> False"
  by (simp add: pronto_array [OF _ _ refl refl] values_eval pronto_valid_def)

definition test_pronto_code :: string where
  "test_pronto_code =
      ''0000,0066,0000,0018,0050,0051,0015,008e,0051,0050,0015,008f,0014,008f,0050,0051,0050,0051,'' @
      ''0015,05af,0051,0050,0015,008e,0051,0051,0014,008f,0015,008e,0050,0051,0051,0050,0015,05af,'' @
      ''0051,0050,0015,008e,0051,0051,0015,008e,0015,008e,0050,0051,0051,0050,0015,0ff1''"

lemma test_prontoBufferToArray:
  "case prontoBufferToArray (\<lambda>_. True) test_pronto_code (CHR '','') of
     Inr (Some (n, a), err) \<Rightarrow> \<not> err | _ \<Rightarrow> False"
proof -
  have "length test_pronto_code \<le> 32767" "test_pronto_code \<noteq> []" "5 \<le> count_list test_pronto_code (CHR '','')"
    by (simp_all add: test_pronto_code_def)
  moreover have "pronto_valid (pronto_values (CHR '','') test_pronto_code)"
    by (simp add: values_eval test_pronto_code_def pronto_valid_def)
  ultimately show ?thesis by (simp add: pronto_array [OF _ _ refl refl])
qed

lemma test_globalCacheBufferToArray_emptyInput:
  "globalCacheBufferToArray (\<lambda>_. True) [] = Inr (None, False)"
  by code_simp

definition test_gc_code :: string where
  "test_gc_code =
      ''38000,1,69,340,171,21,21,21,21,21,65,21,21,21,21,21,21,21,21,21,21,21,65,21,65,21,21,21,65'' @
      '',21,65,21,65,21,65,21,65,21,21,21,65,21,21,21,21,21,21,21,21,21,21,21,21,21,65,21,21,21,65'' @
      '',21,65,21,65,21,65,21,65,21,65,21,1555,340,86,21,3678''"

definition test_gc :: "string \<Rightarrow> bool" where
  "test_gc t =
     (case globalCacheBufferToArray (\<lambda>_. True) t of
        Inr (Some (n, a), err) \<Rightarrow>
          \<not> err \<and> n = 75 \<and> hd a = Some 38000 \<and> a ! (n - 1) = Some 3678
      | _ \<Rightarrow> False)"

text \<open>A text of the given count, first and last value passes the test.\<close>

lemma test_gcI:
  assumes "length t \<le> 32767" "t \<noteq> []" "gc_count t = 75" "length (gc_values t) = 75"
    and "hd (gc_values t) = 38000" "gc_values t ! 74 = 3678"
  shows "test_gc t"
proof -
  have "gc_values t \<noteq> []" using assms(4) by auto
  with assms show ?thesis
    by (simp add: test_gc_def gc_array cells_with_def malloc_cells_def hd_map)
qed

lemma test_globalCacheBufferToArray_short: "test_gc test_gc_code"
  by (rule test_gcI) (simp_all add: test_gc_code_def values_eval)

lemma test_globalCacheBufferToArray_full: "test_gc (''sendir,1:1,1,'' @ test_gc_code)"
  by (rule test_gcI) (simp_all add: test_gc_code_def values_eval)

end
