(* ===== verification/Spec2Isabelle.thy ===== *)
theory Spec2Isabelle
  imports Prelude Util IrCodes Platform Log Config GlobalCache UpdateProcessors Updater OtaChain
    OtaExample UpdateStream TsUtils TsSigner TsReply TsExample ServiceOta LedControl DockState StateMutex
    DockInfo ServiceIr IrTasks IrLearn GcServer GcStart ServiceNetwork ServiceApi ApiCommands MainLoop
    DockRun DockFrame DockSafety DockProperties OtaSketches UnitTests
begin

text \<open>
  Verification of the firmware of the Unfolded Circle Dock Two, an ESP32 program in C++
  (\<open>src/lib\<close>, \<open>src/src\<close>). The dock charges a remote control, sends and learns infrared codes, and
  is driven over WebSocket, Bluetooth, a serial line and the Global Cache protocol; its firmware
  is updated over HTTP.

  \<^bold>\<open>How the program is modelled.\<close> Each class is a record of its members and a function for each
  method, by the names of the code. A method returns the changed record and, where it calls
  devices or libraries, the list of these calls (\<open>..._action\<close>). Integers have their width: \<open>u8\<close>,
  \<open>u16\<close>, \<open>u32\<close>, \<open>u64\<close> are words; an \<open>int\<close> is one where the code keeps it small or the conversion is
  written out. A read or write outside a buffer, a read of memory nothing was stored to, a null
  pointer and a failed assertion are values (\<open>fault\<close>) of the result type \<open>fault + 'a\<close>, so that
  their absence is a theorem. Loops are structural recursion where the code counts down or walks a
  text, and \<open>partial_function (option)\<close> for the write loop of the updater, whose termination is
  proved. Clock readings, received data and the results of system calls are arguments. Concurrent
  tasks are modelled by the steps that FreeRTOS makes atomic (queue and event group calls) and the
  theorems quantify over their interleavings.

  \<^bold>\<open>What is not in the repository\<close> is an argument: FreeRTOS queues and event groups and the flash
  key-value store (theory \<open>Platform\<close>, whose \<open>..._spec\<close> predicates state the documented behaviour
  and are shown to hold for an instance), mbedTLS (\<open>crypto\<close> in \<open>UpdateProcessors\<close>, \<open>asn1_lib\<close> in
  \<open>TsUtils\<close>), the flash
  partitions (\<open>hardware\<close> in \<open>Updater\<close>), ArduinoJson (\<open>json_doc\<close> in \<open>ServiceApi\<close>), the IR library
  (\<open>ir_lib\<close> in \<open>IrTasks\<close>), the WiFi and Ethernet drivers, mDNS and the web server (actions).

  \<^bold>\<open>Theories.\<close>

  \<^item> \<open>Prelude\<close>: words, C strings (\<open>strchr\<close>, \<open>atoi\<close>, \<open>snprintf\<close>, ...), faults, heap cells.
  \<^item> \<open>Util\<close>, \<open>IrCodes\<close>, \<open>GlobalCache\<close> (\<open>lib/util\<close>): event bits, \<open>replacechar\<close>, the parsers of the
    three IR formats and of Global Cache requests. The array routines are proved to stay inside
    their allocations and to compute the values of the text (for texts an \<open>int16_t\<close> can index: the
    code's own index type), and their wrap-arounds are exhibited; parse and print are inverse.
  \<^item> \<open>Platform\<close>, \<open>Log\<close> (\<open>lib/log\<close>), \<open>Config\<close> (\<open>lib/config\<close>, \<open>lib/efuse\<close>): every setting with its
    default, clamping and rejection. The locale \<open>setting\<close> states what a setting promises and is
    interpreted for the brightness settings, the token, the credentials and the name.
  \<^item> \<open>UpdateProcessors\<close>, \<open>Updater\<close>, \<open>OtaChain\<close>, \<open>OtaExample\<close> (\<open>lib/Update/src\<close>, \<open>lib/service_ota\<close>):
    the chain of device check, RFC 3161 header check and updater, over any cryptography and flash.
    The invariants say that nothing is written before both checks passed; a signed image is
    installed for every split of the upload into writes; \<open>write\<close> always returns. What the
    chain does not check (the digest of the payload, a short upload) is proved as well.
    \<open>OtaExample\<close> runs the theorems on a concrete upload. \<open>UpdateStream\<close>: the two ways to fill an
    update that the firmware does not use, and how they fail.
  \<^item> \<open>TsUtils\<close>, \<open>TsSigner\<close>, \<open>TsReply\<close>, \<open>TsExample\<close> (\<open>lib/Update/src/mbedtls-ts-addons\<close>): the time stamp
    reply in front of an image, from its ASN.1 helpers to the check of its signature. The reply is
    a byte list and \<open>*p\<close> an index; a result is a fault, an error or a value (\<open>parsed\<close>), and \<open>regular\<close>
    says that only failed assertions occur. An accepted reply is signed by the certificate at the
    head of its chain, which is the chain the update processor verifies; what the signature does
    not cover and the replies that stop the program are shown too. The loops have as fuel the
    number of bytes in their area, of which every round takes one. \<open>TsExample\<close> holds a DER reader
    and a complete reply.
  \<^item> \<open>ServiceOta\<close>: the HTTP upload service over that chain.
  \<^item> \<open>LedControl\<close> (\<open>lib/led_control\<close>): event bits, priorities, patterns as lists of PWM writes.
  \<^item> \<open>DockState\<close> (\<open>lib/state\<close>): states, timeouts, uptime. It uses the LED controller through the
    locale \<open>led_display\<close>, interpreted on \<open>led_setState\<close>. \<open>StateMutex\<close> (\<open>lib/mutex\<close>): the mutex at the
    level of its instructions, which excludes the tasks of one core only, and the part of \<open>setState\<close>
    that runs without it. \<open>DockInfo\<close>: the layout of the fuses, the banner, the restart.
  \<^item> \<open>ServiceIr\<close>, \<open>IrTasks\<close> (\<open>lib/service_ir/service_ir.cpp\<close>): requests, the send task, the repeat
    callback, the learn task. Requests are answered in order, memory accesses stay inside the
    arrays, the repetition ends.
    \<open>IrLearn\<close>: the start of the tasks, and the learn task step by step with the other operations in
    between: its receiver is on and off in turn, and how late a code can be reported.
  \<^item> \<open>GcServer\<close>, \<open>GcStart\<close> (\<open>lib/service_ir/globalcache_server.cpp\<close>): client slots, requests and
    replies; the start of the server, which sockets are open, and the beacon task.
  \<^item> \<open>ServiceNetwork\<close> (\<open>lib/service_network\<close>): WiFi watchdog and Ethernet events.
  \<^item> \<open>ServiceApi\<close>, \<open>ApiCommands\<close> (\<open>lib/service_api\<close>): authentication, every command, the WebSocket
    events, the serial line. The commands work on one record \<open>dock\<close> of the settings, the state,
    the network, the IR service and the logger through these components' own definitions.
    \<open>cmd_ok\<close> is the contract all commands meet; the authentication refines abstract sessions.
  \<^item> \<open>MainLoop\<close> (\<open>src/main.cpp\<close>, \<open>lib/service_mdns\<close>, \<open>lib/service_bluetooth\<close>): start, button,
    charging sensor and the main loop that composes the services.
  \<^item> \<open>DockRun\<close>: the whole dock. A run is a list of events on the shared state: the parts of the main
    loop, network events, the button, rounds of the IR send and learn tasks, of Global Cache clients
    and of the LED task, in any order (\<open>main_loop\<close> is one of them). \<open>DockFrame\<close>: what a part may do
    with the IR service, as a contract of all commands and tasks, and the invariant \<open>main_ok\<close> of the
    shared state. \<open>DockSafety\<close>: the set-up establishes it and every run keeps it.
    \<open>DockProperties\<close>: from its start the dock faults in two ways only, the result of a transmission
    goes to the connection number that asked for it (and to whoever has the number then), and
    without the token nothing can be configured from the network.
  \<^item> \<open>OtaSketches\<close> (\<open>lib/Update/examples\<close>): the two example sketches, an update over HTTP and one from an
    SD card, over a record of the operations of the core's \<open>Update\<close> object.
  \<^item> \<open>UnitTests\<close> (\<open>src/test\<close>): the unit tests of the repository, evaluated on the model.

  \<^bold>\<open>How the parts interact.\<close> \<open>main_loop\<close> calls the API, which changes settings and state and hands
  IR codes to the send task through a queue of length one; the task answers through a second queue
  that the API's loop reads. Every state change goes to the LED controller through an event group,
  whose bits the LED task turns into patterns. The network service sets states and restarts
  the dock; the update service writes the other flash partition and restarts. \<open>DockRun\<close> has these
  interactions as events of one run.

  \<^bold>\<open>Not modelled\<close>: pin and PWM set-up and pure logging (no effect on the modelled state), the
  filtered debug log of API requests and the capacity of its JSON documents. The operations of
  \<open>State\<close> are steps of their own everywhere but in \<open>StateMutex\<close>, the parts of the main loop and the
  rounds of the tasks everywhere but in \<open>StateMutex\<close> and \<open>IrLearn\<close>. The helpers that print bit
  strings and chains for debugging and the destructors are left out. The update chain takes any
  parser of time stamp replies (\<open>ts_reply_parse\<close>); \<open>with_parser\<close> of \<open>TsReply\<close> puts the modelled one
  in its place.
\<close>

end
